(* ===== verification/GoPrelude.thy ===== *)
theory GoPrelude
  imports
    Complex_Main
    "HOL-Library.Word"
    "HOL-Library.Char_ord"
    "HOL-Library.List_Lexorder"
    "HOL-Library.Multiset"
    "HOL-Library.Sublist"
    "HOL-Library.Code_Target_Numeral"
begin

text \<open>
  What every theory of the development shares: the names of the model's basic types, the
  collections of facts the component proofs hand to the simplifier, generic lemmas on lists,
  options and sums, and the stable sort of \<open>models/sort.go\<close>.

  A Go string is a sequence of bytes, so it is a \<open>string\<close> (a list of 8-bit characters)
  here and \<open>length\<close> is Go's \<open>len\<close>. A UUID is 16 bytes, a \<open>128 word\<close>; \<open>uuid.Nil\<close> is 0.
\<close>

named_theorems validate_simps \<open>rewriting the accumulating validators\<close>
named_theorems result_iff \<open>when an operation returns Inr\<close>
named_theorems http_simps \<open>rewriting response writers and handlers\<close>
named_theorems store_simps \<open>rewriting tables and stores\<close>

type_synonym gostring = string
type_synonym uuid = "128 word"
type_synonym ('e, 'a) result = "'e + 'a"

abbreviation uuid_nil :: uuid where
  "uuid_nil \<equiv> 0"

abbreviation byte_of :: "char \<Rightarrow> nat" where
  "byte_of c \<equiv> of_char c"

lemma byte_of_less [simp]: "byte_of c < 256"
  using nat_of_char_less_256 [of c] by simp

lemma byte_of_eq_iff [simp]: "byte_of c = byte_of d \<longleftrightarrow> c = d"
  using of_char_eq_iff [of c d, where 'a = nat] by simp

subsection \<open>Results\<close>

definition rbind :: "('e, 'a) result \<Rightarrow> ('a \<Rightarrow> ('e, 'b) result) \<Rightarrow> ('e, 'b) result" where
  "rbind m f = (case m of Inl e \<Rightarrow> Inl e | Inr x \<Rightarrow> f x)"

lemma rbind_simps [simp]:
  "rbind (Inl e) f = Inl e"
  "rbind (Inr x) f = f x"
  by (simp_all add: rbind_def)

lemma rbind_Inr_iff [result_iff]: "rbind m f = Inr y \<longleftrightarrow> (\<exists>x. m = Inr x \<and> f x = Inr y)"
  by (cases m) auto

lemma rbind_Inl_iff: "rbind m f = Inl e \<longleftrightarrow> m = Inl e \<or> (\<exists>x. m = Inr x \<and> f x = Inl e)"
  by (cases m) auto

definition require_that :: "bool \<Rightarrow> 'e \<Rightarrow> ('e, unit) result" where
  "require_that b e = (if b then Inr () else Inl e)"

lemma require_that_iff [result_iff]:
  "require_that b e = Inr u \<longleftrightarrow> b"
  "require_that b e = Inl e' \<longleftrightarrow> \<not> b \<and> e' = e"
  by (auto simp: require_that_def)

subsection \<open>Lists\<close>

lemma nth_drop_add: "k + j < length xs \<Longrightarrow> drop k xs ! j = xs ! (k + j)"
  by (simp add: add.commute)

lemma filter_empty_iff: "filter P xs = [] \<longleftrightarrow> (\<forall>x \<in> set xs. \<not> P x)"
  by (rule filter_empty_conv)

lemma take_append_drop_take: "k \<le> n \<Longrightarrow> take k (take n xs) = take k xs"
  by (simp add: min_def)

lemma sorted_wrt_mset_unique:
  assumes "sorted_wrt R xs" and "sorted_wrt R ys" and "mset xs = mset ys"
    and anti: "\<And>x y. x \<in> set xs \<Longrightarrow> y \<in> set xs \<Longrightarrow> R x y \<Longrightarrow> R y x \<Longrightarrow> x = y"
  shows "xs = ys"
  using assms
proof (induction xs arbitrary: ys)
  case Nil
  then show ?case by simp
next
  case (Cons x xs)
  from Cons.prems(3) obtain y zs where ys: "ys = y # zs"
    by (cases ys) auto
  have sets: "set ys = insert x (set xs)"
    using Cons.prems(3) by (metis list.simps(15) set_mset_mset)
  have "x = y"
  proof (rule ccontr)
    assume ne: "x \<noteq> y"
    with ys sets have "y \<in> set xs" "x \<in> set zs" by auto
    with Cons.prems(1,2) ys have "R x y" "R y x" by auto
    with \<open>y \<in> set xs\<close> have "x = y" using Cons.prems(4) [of x y] by simp
    with ne show False ..
  qed
  with Cons.prems ys have "xs = zs" by (intro Cons.IH) auto
  with \<open>x = y\<close> ys show ?case by simp
qed

subsection \<open>The stable sort of models/sort.go\<close>

text \<open>
  \<open>sortSlice\<close> calls \<open>sort.SliceStable\<close>, whose insertion step moves the next element to the
  left while it is less than its neighbour. The slice argument is returned sorted.
\<close>

definition insert_right :: "('a \<Rightarrow> 'a \<Rightarrow> bool) \<Rightarrow> 'a list \<Rightarrow> 'a \<Rightarrow> 'a list" where
  "insert_right lt xs x =
     (let n = length (takeWhile (lt x) (rev xs))
      in take (length xs - n) xs @ x # drop (length xs - n) xs)"

definition sortSlice :: "'a list \<Rightarrow> ('a \<Rightarrow> 'a \<Rightarrow> bool) \<Rightarrow> 'a list" where
  "sortSlice items lt = foldl (insert_right lt) [] items"

lemma mset_insert_right [simp]: "mset (insert_right lt xs x) = add_mset x (mset xs)"
proof -
  have "mset (take n xs) + mset (drop n xs) = mset xs" for n
    by (metis append_take_drop_id mset_append)
  then show ?thesis by (simp add: insert_right_def Let_def)
qed

lemma mset_foldl_insert_right: "mset (foldl (insert_right lt) acc xs) = mset acc + mset xs"
  by (induction xs arbitrary: acc) auto

lemma mset_sortSlice [simp]: "mset (sortSlice xs lt) = mset xs"
  by (simp add: sortSlice_def mset_foldl_insert_right)

lemma set_sortSlice [simp]: "set (sortSlice xs lt) = set xs"
  by (metis mset_sortSlice set_mset_mset)

lemma length_sortSlice [simp]: "length (sortSlice xs lt) = length xs"
  by (metis mset_sortSlice size_mset)

text \<open>A comparison the sort can use: asymmetric, and "not less" is transitive.\<close>

definition weak_order :: "('a \<Rightarrow> 'a \<Rightarrow> bool) \<Rightarrow> bool" where
  "weak_order lt \<longleftrightarrow> (\<forall>x y. lt x y \<longrightarrow> \<not> lt y x)
     \<and> (\<forall>x y z. \<not> lt x y \<longrightarrow> \<not> lt y z \<longrightarrow> \<not> lt x z)"

lemma weak_orderD:
  assumes "weak_order lt"
  shows "lt x y \<Longrightarrow> \<not> lt y x"
    and "\<not> lt x y \<Longrightarrow> \<not> lt y z \<Longrightarrow> \<not> lt x z"
  using assms unfolding weak_order_def by blast+

lemma insert_right_split:
  obtains l r where "xs = l @ r" and "insert_right lt xs x = l @ x # r"
    and "\<forall>y \<in> set r. lt x y" and "l \<noteq> [] \<longrightarrow> \<not> lt x (last l)"
proof -
  define n where "n = length (takeWhile (lt x) (rev xs))"
  define l where "l = take (length xs - n) xs"
  define r where "r = drop (length xs - n) xs"
  have n_le: "n \<le> length xs"
    unfolding n_def by (metis length_rev length_takeWhile_le)
  have tw: "takeWhile (lt x) (rev xs) = take n (rev xs)"
    unfolding n_def by (metis takeWhile_eq_take)
  have r_eq: "r = rev (takeWhile (lt x) (rev xs))"
    by (simp add: r_def tw take_rev)
  have r: "\<forall>y \<in> set r. lt x y"
    by (auto simp: r_eq dest: set_takeWhileD)
  have l: "l \<noteq> [] \<longrightarrow> \<not> lt x (last l)"
  proof
    assume "l \<noteq> []"
    then have "n < length xs" by (auto simp: l_def)
    then have "\<not> lt x (rev xs ! n)"
      unfolding n_def by (metis length_rev nth_length_takeWhile)
    moreover have "rev xs ! n = last l"
      using \<open>n < length xs\<close> \<open>l \<noteq> []\<close> by (simp add: rev_nth l_def last_conv_nth)
    ultimately show "\<not> lt x (last l)" by simp
  qed
  show ?thesis
    by (rule that [of l r]) (use r l in \<open>auto simp: l_def r_def insert_right_def n_def Let_def\<close>)
qed

lemma sorted_insert_right:
  assumes "weak_order lt" and "sorted_wrt (\<lambda>a b. \<not> lt b a) xs"
  shows "sorted_wrt (\<lambda>a b. \<not> lt b a) (insert_right lt xs x)"
proof -
  obtain l r where split: "xs = l @ r" "insert_right lt xs x = l @ x # r"
    and r: "\<forall>y \<in> set r. lt x y" and l: "l \<noteq> [] \<longrightarrow> \<not> lt x (last l)"
    using insert_right_split [of xs lt x] .
  have below: "\<not> lt x y" if "y \<in> set l" for y
  proof (cases l rule: rev_cases)
    case Nil
    with that show ?thesis by simp
  next
    case (snoc l' z)
    with assms(2) split that have "y = z \<or> \<not> lt z y"
      by (auto simp: sorted_wrt_append)
    moreover from l snoc have "\<not> lt x z" by simp
    ultimately show ?thesis using weak_orderD(2) [OF assms(1)] by blast
  qed
  have above: "\<not> lt y x" if "y \<in> set r" for y
    using r that weak_orderD(1) [OF assms(1)] by blast
  have "sorted_wrt (\<lambda>a b. \<not> lt b a) (l @ r)"
    using assms(2) split(1) by simp
  then have "sorted_wrt (\<lambda>a b. \<not> lt b a) (l @ x # r)"
    using below above by (simp add: sorted_wrt_append)
  then show ?thesis by (simp only: split(2))
qed

lemma sorted_sortSlice:
  assumes "weak_order lt"
  shows "sorted_wrt (\<lambda>a b. \<not> lt b a) (sortSlice xs lt)"
proof -
  have "sorted_wrt (\<lambda>a b. \<not> lt b a) (foldl (insert_right lt) acc xs)"
    if "sorted_wrt (\<lambda>a b. \<not> lt b a) acc" for acc
    using that by (induction xs arbitrary: acc) (simp_all add: sorted_insert_right [OF assms])
  then show ?thesis by (simp add: sortSlice_def)
qed

text \<open>Stability: the elements of one equivalence class keep their order.\<close>

lemma filter_insert_right:
  assumes "\<And>y. P x \<Longrightarrow> P y \<Longrightarrow> \<not> lt x y"
  shows "filter P (insert_right lt xs x) = filter P (xs @ [x])"
proof -
  obtain l r where split: "xs = l @ r" "insert_right lt xs x = l @ x # r"
    and r: "\<forall>y \<in> set r. lt x y"
    using insert_right_split [of xs lt x] .
  have "filter P r = []" if "P x"
    using r assms that by (auto simp: filter_empty_conv)
  with split show ?thesis by (cases "P x") auto
qed

lemma filter_sortSlice:
  assumes "\<And>x y. P x \<Longrightarrow> P y \<Longrightarrow> \<not> lt x y"
  shows "filter P (sortSlice xs lt) = filter P xs"
proof -
  have "filter P (foldl (insert_right lt) acc xs) = filter P (acc @ xs)" for acc
    using assms by (induction xs arbitrary: acc) (auto simp: filter_insert_right)
  from this [of "[]"] show ?thesis by (simp add: sortSlice_def)
qed

end
