(* ===== verification/GoStrings.thy ===== *)
theory GoStrings
  imports GoPrelude
begin

text \<open>
  The parts of Go's \<open>strings\<close>, \<open>unicode\<close> and \<open>unicode/utf8\<close> packages that the backend calls, over
  byte strings: UTF-8 decoding (with Go's rule that an invalid byte is one replacement rune of
  width 1), \<open>range\<close> over a string, and \<open>TrimSpace\<close>. The lemmas are what the components use: trimming
  is idempotent and never lengthens, and scanning runes for an ASCII character is scanning bytes.
\<close>

subsection \<open>UTF-8\<close>

abbreviation rune_error :: nat where
  "rune_error \<equiv> 65533"

definition is_cont :: "nat \<Rightarrow> bool" where
  "is_cont b \<longleftrightarrow> 128 \<le> b \<and> b \<le> 191"

text \<open>The second byte of a sequence is constrained further by four of the lead bytes.\<close>

definition accept_second :: "nat \<Rightarrow> nat \<Rightarrow> bool" where
  "accept_second b0 b1 \<longleftrightarrow>
     (if b0 = 224 then 160 \<le> b1 \<and> b1 \<le> 191
      else if b0 = 237 then 128 \<le> b1 \<and> b1 \<le> 159
      else if b0 = 240 then 144 \<le> b1 \<and> b1 \<le> 191
      else if b0 = 244 then 128 \<le> b1 \<and> b1 \<le> 143
      else is_cont b1)"

fun decode2 :: "nat \<Rightarrow> nat list \<Rightarrow> nat \<times> nat" where
  "decode2 b0 (b1 # bs) =
     (if accept_second b0 b1 then ((b0 - 192) * 64 + (b1 - 128), 2) else (rune_error, 1))"
| "decode2 b0 bs = (rune_error, 1)"

fun decode3 :: "nat \<Rightarrow> nat list \<Rightarrow> nat \<times> nat" where
  "decode3 b0 (b1 # b2 # bs) =
     (if accept_second b0 b1 \<and> is_cont b2
      then ((b0 - 224) * 4096 + (b1 - 128) * 64 + (b2 - 128), 3) else (rune_error, 1))"
| "decode3 b0 bs = (rune_error, 1)"

fun decode4 :: "nat \<Rightarrow> nat list \<Rightarrow> nat \<times> nat" where
  "decode4 b0 (b1 # b2 # b3 # bs) =
     (if accept_second b0 b1 \<and> is_cont b2 \<and> is_cont b3
      then ((b0 - 240) * 262144 + (b1 - 128) * 4096 + (b2 - 128) * 64 + (b3 - 128), 4)
      else (rune_error, 1))"
| "decode4 b0 bs = (rune_error, 1)"

fun decode_bytes :: "nat list \<Rightarrow> nat \<times> nat" where
  "decode_bytes [] = (rune_error, 0)"
| "decode_bytes (b0 # bs) =
     (if b0 < 128 then (b0, 1)
      else if 194 \<le> b0 \<and> b0 \<le> 223 then decode2 b0 bs
      else if 224 \<le> b0 \<and> b0 \<le> 239 then decode3 b0 bs
      else if 240 \<le> b0 \<and> b0 \<le> 244 then decode4 b0 bs
      else (rune_error, 1))"

definition decode_rune :: "gostring \<Rightarrow> nat \<times> nat" where
  "decode_rune s = decode_bytes (map of_char (take 4 s))"

text \<open>\<open>utf8.DecodeLastRuneInString\<close>: back up at most four bytes to a byte that starts a rune.\<close>

definition rune_start :: "char \<Rightarrow> bool" where
  "rune_start c \<longleftrightarrow> \<not> is_cont (byte_of c)"

definition last_start :: "gostring \<Rightarrow> nat" where
  "last_start s =
     (case find (\<lambda>i. rune_start (s ! i)) (rev [length s - 4..<length s - 1]) of
        Some i \<Rightarrow> i
      | None \<Rightarrow> length s - 4 - 1)"

definition decode_last_rune :: "gostring \<Rightarrow> nat \<times> nat" where
  "decode_last_rune s =
     (if s = [] then (rune_error, 0)
      else if byte_of (s ! (length s - 1)) < 128 then (byte_of (s ! (length s - 1)), 1)
      else let start = last_start s; (r, size) = decode_rune (drop start s)
           in if start + size = length s then (r, size) else (rune_error, 1))"

text \<open>
  A sequence after a lead byte outside ASCII: either the replacement rune of width 1, or a rune
  outside ASCII whose other bytes are all outside ASCII.
\<close>

definition good_tail :: "nat list \<Rightarrow> nat \<times> nat \<Rightarrow> bool" where
  "good_tail bs d \<longleftrightarrow>
     d = (rune_error, 1)
     \<or> (128 \<le> fst d \<and> 1 \<le> snd d \<and> snd d - 1 \<le> length bs
        \<and> list_all (\<lambda>b. 128 \<le> b) (take (snd d - 1) bs))"

lemma accept_second_high: "accept_second b0 b1 \<Longrightarrow> 128 \<le> b1"
  by (auto simp: accept_second_def is_cont_def split: if_splits)

lemma is_cont_high: "is_cont b \<Longrightarrow> 128 \<le> b"
  by (simp add: is_cont_def)

lemma rune3_high:
  assumes "224 \<le> b0" and "accept_second b0 b1"
  shows "128 \<le> (b0 - 224) * 4096 + (b1 - 128) * 64 + c"
proof (cases "b0 = 224")
  case True
  with assms(2) have "160 \<le> b1" by (simp add: accept_second_def)
  then show ?thesis by simp
next
  case False
  with assms(1) show ?thesis by simp
qed

lemma rune4_high:
  assumes "240 \<le> b0" and "accept_second b0 b1"
  shows "128 \<le> (b0 - 240) * 262144 + (b1 - 128) * 4096 + c + d"
proof (cases "b0 = 240")
  case True
  with assms(2) have "144 \<le> b1" by (simp add: accept_second_def)
  then show ?thesis by simp
next
  case False
  with assms(1) show ?thesis by simp
qed

lemma good_tail_error: "good_tail bs (rune_error, Suc 0)"
  by (simp add: good_tail_def)

lemma good_tailI:
  "128 \<le> r \<Longrightarrow> list_all (\<lambda>b. 128 \<le> b) hs \<Longrightarrow> good_tail (hs @ bs) (r, Suc (length hs))"
  by (simp add: good_tail_def)

lemma good_tail_decode2: "194 \<le> b0 \<Longrightarrow> good_tail bs (decode2 b0 bs)"
proof (induction b0 bs rule: decode2.induct)
  case (1 b0 b1 bs)
  show ?case
  proof (cases "accept_second b0 b1")
    case True
    have "128 \<le> (b0 - 192) * 64 + (b1 - 128)" using 1 by linarith
    from good_tailI [OF this, of "[b1]" bs] accept_second_high [OF True] True show ?thesis
      by (simp add: numeral_2_eq_2)
  qed (auto simp: good_tail_error)
qed (simp add: good_tail_error)

lemma good_tail_decode3: "224 \<le> b0 \<Longrightarrow> good_tail bs (decode3 b0 bs)"
proof (induction b0 bs rule: decode3.induct)
  case (1 b0 b1 b2 bs)
  show ?case
  proof (cases "accept_second b0 b1 \<and> is_cont b2")
    case True
    then have "128 \<le> (b0 - 224) * 4096 + (b1 - 128) * 64 + (b2 - 128)"
      using rune3_high [OF 1] by blast
    moreover have "list_all (\<lambda>b. 128 \<le> b) [b1, b2]"
      using True by (auto dest: accept_second_high is_cont_high)
    ultimately have "good_tail ([b1, b2] @ bs) ((b0 - 224) * 4096 + (b1 - 128) * 64 + (b2 - 128), Suc (length [b1, b2]))"
      by (rule good_tailI)
    moreover have "decode3 b0 ([b1, b2] @ bs) = ((b0 - 224) * 4096 + (b1 - 128) * 64 + (b2 - 128), Suc (length [b1, b2]))"
      using True by simp
    ultimately show ?thesis by (simp only: append.simps)
  qed (auto simp: good_tail_error)
qed (simp_all add: good_tail_error)

lemma good_tail_decode4: "240 \<le> b0 \<Longrightarrow> good_tail bs (decode4 b0 bs)"
proof (induction b0 bs rule: decode4.induct)
  case (1 b0 b1 b2 b3 bs)
  show ?case
  proof (cases "accept_second b0 b1 \<and> is_cont b2 \<and> is_cont b3")
    case True
    then have "128 \<le> (b0 - 240) * 262144 + (b1 - 128) * 4096 + (b2 - 128) * 64 + (b3 - 128)"
      using rune4_high [OF 1] by blast
    moreover have "list_all (\<lambda>b. 128 \<le> b) [b1, b2, b3]"
      using True by (auto dest: accept_second_high is_cont_high)
    ultimately have "good_tail ([b1, b2, b3] @ bs) ((b0 - 240) * 262144 + (b1 - 128) * 4096 + (b2 - 128) * 64 + (b3 - 128), Suc (length [b1, b2, b3]))"
      by (rule good_tailI)
    moreover have "decode4 b0 ([b1, b2, b3] @ bs) = ((b0 - 240) * 262144 + (b1 - 128) * 4096 + (b2 - 128) * 64 + (b3 - 128), Suc (length [b1, b2, b3]))"
      using True by simp
    ultimately show ?thesis by (simp only: append.simps)
  qed (auto simp: good_tail_error)
qed (simp_all add: good_tail_error)

lemma good_tail_decode_bytes: "128 \<le> b0 \<Longrightarrow> good_tail bs (decode_bytes (b0 # bs))"
  by (simp add: good_tail_decode2 good_tail_decode3 good_tail_decode4) (simp add: good_tail_def)

lemma decode_bytes_size:
  assumes "bs \<noteq> []"
  shows "1 \<le> snd (decode_bytes bs) \<and> snd (decode_bytes bs) \<le> length bs"
proof -
  obtain b0 cs where bs: "bs = b0 # cs" using assms by (cases bs) auto
  show ?thesis
  proof (cases "b0 < 128")
    case False
    then have "good_tail cs (decode_bytes bs)" unfolding bs by (intro good_tail_decode_bytes) simp
    then show ?thesis by (auto simp: good_tail_def bs simp del: decode_bytes.simps)
  qed (simp add: bs)
qed

lemma decode_rune_size:
  assumes "s \<noteq> []"
  shows "1 \<le> snd (decode_rune s)" and "snd (decode_rune s) \<le> length s"
    and "snd (decode_rune s) \<le> 4"
  using assms decode_bytes_size [of "map of_char (take 4 s)"]
  by (auto simp: decode_rune_def)

lemma decode_rune_ascii:
  "byte_of c < 128 \<Longrightarrow> decode_rune (c # s) = (byte_of c, 1)"
  by (simp add: decode_rune_def)

lemma decode_rune_high:
  assumes "128 \<le> byte_of c"
  shows "128 \<le> fst (decode_rune (c # s))"
  using good_tail_decode_bytes [OF assms, of "map byte_of (take 3 s)"]
  by (auto simp: decode_rune_def good_tail_def take_Cons' simp del: decode_bytes.simps)

text \<open>Every byte of a multi-byte rune is outside ASCII.\<close>

lemma decode_bytes_cont:
  assumes "1 < snd (decode_bytes bs)"
  shows "list_all (\<lambda>b. 128 \<le> b) (take (snd (decode_bytes bs)) bs)"
proof -
  obtain b0 cs where bs: "bs = b0 # cs" using assms by (cases bs) auto
  have high: "128 \<le> b0" using assms by (rule contrapos_pp) (simp add: bs)
  then have "good_tail cs (decode_bytes bs)" unfolding bs by (rule good_tail_decode_bytes)
  with assms high show ?thesis
    by (auto simp: good_tail_def bs take_Cons' simp del: decode_bytes.simps)
qed

lemma decode_rune_cont:
  assumes "1 < snd (decode_rune s)" and "i < snd (decode_rune s)"
  shows "128 \<le> byte_of (s ! i)"
proof -
  have "s \<noteq> []" using assms by (auto simp: decode_rune_def)
  note sz = decode_rune_size [OF this]
  from assms(1) have "list_all (\<lambda>b. 128 \<le> b) (take (snd (decode_rune s)) (map byte_of (take 4 s)))"
    unfolding decode_rune_def by (rule decode_bytes_cont)
  moreover from assms sz have "i < length s" "i < 4" by linarith+
  ultimately show ?thesis using assms(2) by (simp add: list_all_length)
qed

subsection \<open>Ranging over a string\<close>

text \<open>\<open>for i, r := range s\<close> visits these pairs of a byte index and a rune, from offset \<open>i\<close>.\<close>

function runes_from :: "nat \<Rightarrow> gostring \<Rightarrow> (nat \<times> nat) list" where
  "runes_from i s =
     (if s = [] then []
      else (i, fst (decode_rune s)) #
           runes_from (i + snd (decode_rune s)) (drop (snd (decode_rune s)) s))"
  by pat_completeness auto
termination
  by (relation "measure (\<lambda>(i, s). length s)")
     (use decode_rune_size(1,2) in \<open>fastforce intro!: diff_less\<close>)+

declare runes_from.simps [simp del]

definition rune_count :: "gostring \<Rightarrow> nat" where
  "rune_count s = length (runes_from 0 s)"

lemma runes_from_Nil [simp]: "runes_from i [] = []"
  by (simp add: runes_from.simps)

lemma runes_from_ascii:
  "byte_of c < 128 \<Longrightarrow> runes_from i (c # s) = (i, byte_of c) # runes_from (Suc i) s"
  by (simp add: runes_from.simps [of i "c # s"] decode_rune_ascii)

lemma length_runes_from_le: "length (runes_from i s) \<le> length s"
proof (induction i s rule: runes_from.induct)
  case (1 i s)
  show ?case
  proof (cases "s = []")
    case False
    with 1 decode_rune_size [OF False] show ?thesis
      by (simp add: runes_from.simps [of i s])
  qed simp
qed

lemma rune_count_le: "rune_count s \<le> length s"
  by (simp add: rune_count_def length_runes_from_le)

lemma rune_count_eq_0_iff [simp]: "rune_count s = 0 \<longleftrightarrow> s = []"
  by (simp add: rune_count_def runes_from.simps [of 0 s])

text \<open>Looking for an ASCII rune is looking for its byte, at the same positions.\<close>

definition positions :: "char \<Rightarrow> nat \<Rightarrow> gostring \<Rightarrow> nat list" where
  "positions a i s = map (\<lambda>j. i + j) (filter (\<lambda>j. s ! j = a) [0..<length s])"

lemma positions_Nil [simp]: "positions a i [] = []"
  by (simp add: positions_def)

lemma positions_Cons:
  "positions a i (c # s) = (if c = a then [i] else []) @ positions a (Suc i) s"
proof -
  have "filter (\<lambda>j. (c # s) ! j = a) [0..<length (c # s)]
      = (if c = a then [0] else []) @ map Suc (filter (\<lambda>j. s ! j = a) [0..<length s])"
    by (simp add: upt_conv_Cons map_Suc_upt [symmetric] filter_map o_def del: upt_Suc map_Suc_upt)
  then show ?thesis by (simp add: positions_def o_def)
qed

lemma positions_append: "positions a i (s @ t) = positions a i s @ positions a (i + length s) t"
  by (induction s arbitrary: i) (auto simp: positions_Cons)

lemma positions_empty_iff: "positions a i s = [] \<longleftrightarrow> a \<notin> set s"
  by (induction s arbitrary: i) (auto simp: positions_Cons)

lemma positions_absent: "a \<notin> set s \<Longrightarrow> positions a i s = []"
  by (simp add: positions_empty_iff)

lemma runes_ascii_positions:
  assumes "byte_of a < 128"
  shows "map fst (filter (\<lambda>(j, r). r = byte_of a) (runes_from i s)) = positions a i s"
proof (induction i s rule: runes_from.induct)
  case (1 i s)
  show ?case
  proof (cases s)
    case Nil
    then show ?thesis by simp
  next
    case (Cons c t)
    define r where "r = fst (decode_rune s)"
    define n where "n = snd (decode_rune s)"
    have sne: "s \<noteq> []" using Cons by simp
    have step: "runes_from i s = (i, r) # runes_from (i + n) (drop n s)"
      using sne by (simp add: runes_from.simps [of i s] r_def n_def)
    have ih: "map fst (filter (\<lambda>(j, r). r = byte_of a) (runes_from (i + n) (drop n s)))
        = positions a (i + n) (drop n s)"
      using 1 [OF sne] by (simp add: n_def)
    have nle: "1 \<le> n" "n \<le> length s"
      using decode_rune_size [OF sne] by (auto simp: n_def)
    have split: "positions a i s = positions a i (take n s) @ positions a (i + n) (drop n s)"
      using nle positions_append [of a i "take n s" "drop n s"] by simp
    show ?thesis
    proof (cases "byte_of c < 128")
      case True
      then have "r = byte_of c" "n = 1"
        using Cons by (simp_all add: r_def n_def decode_rune_ascii)
      with step ih split Cons show ?thesis by (simp add: positions_Cons)
    next
      case False
      then have high: "128 \<le> r"
        using Cons decode_rune_high [of c t] by (simp add: r_def)
      have "a \<notin> set (take n s)"
      proof
        assume "a \<in> set (take n s)"
        then obtain j where j: "j < n" "j < length s" "s ! j = a"
          by (auto simp: in_set_conv_nth)
        have "128 \<le> byte_of (s ! j)"
        proof (cases "1 < n")
          case True
          with j show ?thesis using decode_rune_cont [of s j] by (simp add: n_def)
        next
          case False': False
          with j have "j = 0" by simp
          with Cons False show ?thesis by simp
        qed
        with j assms show False by simp
      qed
      then have "positions a i (take n s) = []"
        by (simp add: positions_empty_iff)
      with step ih split high assms show ?thesis by simp
    qed
  qed
qed

lemma last_start_less:
  assumes "s \<noteq> []"
  shows "last_start s < length s"
proof (cases "find (\<lambda>i. rune_start (s ! i)) (rev [length s - 4..<length s - 1])")
  case None
  with assms show ?thesis by (cases s) (auto simp: last_start_def)
next
  case (Some i)
  then have "i \<in> set (rev [length s - 4..<length s - 1])"
    by (metis find_Some_iff nth_mem)
  with Some assms show ?thesis by (auto simp: last_start_def)
qed

lemma decode_last_rune_size:
  assumes "s \<noteq> []"
  shows "1 \<le> snd (decode_last_rune s)" and "snd (decode_last_rune s) \<le> length s"
proof -
  have "drop (last_start s) s \<noteq> []"
    using last_start_less [OF assms] by simp
  note decode_rune_size [OF this]
  with assms show "1 \<le> snd (decode_last_rune s)" "snd (decode_last_rune s) \<le> length s"
    by (auto simp: decode_last_rune_def Let_def Suc_le_eq split: prod.split)
qed

lemma decode_last_rune_ascii:
  "byte_of c < 128 \<Longrightarrow> decode_last_rune (s @ [c]) = (byte_of c, 1)"
  by (simp add: decode_last_rune_def)

subsection \<open>TrimSpace\<close>

text \<open>\<open>unicode.IsSpace\<close>: the Latin-1 spaces and the other code points of \<open>White_Space\<close>.\<close>

definition is_space :: "nat \<Rightarrow> bool" where
  "is_space r \<longleftrightarrow>
     (9 \<le> r \<and> r \<le> 13) \<or> r = 32 \<or> r = 133 \<or> r = 160 \<or> r = 5760
     \<or> (8192 \<le> r \<and> r \<le> 8202) \<or> r = 8232 \<or> r = 8233 \<or> r = 8239 \<or> r = 8287 \<or> r = 12288"

function trim_left :: "gostring \<Rightarrow> gostring" where
  "trim_left s =
     (if s \<noteq> [] \<and> is_space (fst (decode_rune s)) then trim_left (drop (snd (decode_rune s)) s)
      else s)"
  by pat_completeness auto
termination
  by (relation "measure length") (use decode_rune_size(1,2) in \<open>fastforce intro!: diff_less\<close>)+

function trim_right :: "gostring \<Rightarrow> gostring" where
  "trim_right s =
     (if s \<noteq> [] \<and> is_space (fst (decode_last_rune s))
      then trim_right (take (length s - snd (decode_last_rune s)) s)
      else s)"
  by pat_completeness auto
termination
  by (relation "measure length")
     (use decode_last_rune_size in \<open>fastforce intro!: diff_less\<close>)+

declare trim_left.simps [simp del] trim_right.simps [simp del]

definition TrimSpace :: "gostring \<Rightarrow> gostring" where
  "TrimSpace s = trim_right (trim_left s)"

lemma trim_left_suffix: "suffix (trim_left s) s"
proof (induction s rule: trim_left.induct)
  case (1 s)
  then show ?case
    by (auto simp: trim_left.simps [of s] intro: suffix_order.trans suffix_drop)
qed

lemma trim_right_prefix: "prefix (trim_right s) s"
proof (induction s rule: trim_right.induct)
  case (1 s)
  then show ?case
    by (auto simp: trim_right.simps [of s] intro: prefix_order.trans take_is_prefix)
qed

lemma trim_left_fixed:
  "s = [] \<or> \<not> is_space (fst (decode_rune s)) \<Longrightarrow> trim_left s = s"
  by (auto simp: trim_left.simps [of s])

lemma trim_right_fixed:
  "s = [] \<or> \<not> is_space (fst (decode_last_rune s)) \<Longrightarrow> trim_right s = s"
  by (auto simp: trim_right.simps [of s])

lemma trim_left_head: "trim_left s = [] \<or> \<not> is_space (fst (decode_rune (trim_left s)))"
proof (induction s rule: trim_left.induct)
  case (1 s)
  then show ?case
    by (cases "s \<noteq> [] \<and> is_space (fst (decode_rune s))") (auto simp: trim_left.simps [of s])
qed

lemma trim_right_last: "trim_right s = [] \<or> \<not> is_space (fst (decode_last_rune (trim_right s)))"
proof (induction s rule: trim_right.induct)
  case (1 s)
  then show ?case
    by (cases "s \<noteq> [] \<and> is_space (fst (decode_last_rune s))") (auto simp: trim_right.simps [of s])
qed

text \<open>A rune cut short by trimming on the right decodes to the replacement rune, which is no space.\<close>

lemma not_is_space_rune_error [simp]: "\<not> is_space rune_error"
  by (simp add: is_space_def)

lemma decode2_take: "decode2 b0 (take k bs) = decode2 b0 bs \<or> decode2 b0 (take k bs) = (rune_error, 1)"
  by (cases k; cases bs) simp_all

lemma decode3_take: "decode3 b0 (take k bs) = decode3 b0 bs \<or> decode3 b0 (take k bs) = (rune_error, 1)"
  by (cases "(b0, bs)" rule: decode3.cases) (auto simp: take_Cons split: nat.split)

lemma decode4_take: "decode4 b0 (take k bs) = decode4 b0 bs \<or> decode4 b0 (take k bs) = (rune_error, 1)"
  by (cases "(b0, bs)" rule: decode4.cases) (auto simp: take_Cons split: nat.split)

lemma decode_bytes_take:
  assumes "k \<noteq> 0"
  shows "fst (decode_bytes (take k bs)) = fst (decode_bytes bs)
    \<or> fst (decode_bytes (take k bs)) = rune_error"
proof (cases bs)
  case (Cons b0 cs)
  obtain k' where "k = Suc k'" using assms not0_implies_Suc by blast
  with Cons decode2_take [of b0 k' cs] decode3_take [of b0 k' cs] decode4_take [of b0 k' cs]
  show ?thesis by auto
qed simp

lemma decode_rune_prefix:
  assumes "prefix p s" and "p \<noteq> []"
  shows "fst (decode_rune p) = fst (decode_rune s) \<or> fst (decode_rune p) = rune_error"
proof -
  from assms(1) have p: "p = take (length p) s"
    by (metis append_eq_conv_conj prefixE)
  have "map byte_of (take 4 p) = take (length p) (map byte_of (take 4 s))"
    by (subst p) (simp add: take_map min.commute)
  with decode_bytes_take [of "length p" "map byte_of (take 4 s)"] assms(2) show ?thesis
    by (simp add: decode_rune_def)
qed

lemma TrimSpace_idem [simp]: "TrimSpace (TrimSpace s) = TrimSpace s"
proof -
  define t where "t = TrimSpace s"
  have last: "t = [] \<or> \<not> is_space (fst (decode_last_rune t))"
    unfolding t_def TrimSpace_def by (rule trim_right_last)
  have "t = [] \<or> \<not> is_space (fst (decode_rune t))"
  proof (cases "t = []")
    case False
    then have "trim_left s \<noteq> []"
      using trim_right_prefix [of "trim_left s"] by (auto simp: t_def TrimSpace_def)
    with trim_left_head [of s] have "\<not> is_space (fst (decode_rune (trim_left s)))" by blast
    with decode_rune_prefix [OF trim_right_prefix [of "trim_left s"]] False show ?thesis
      unfolding t_def TrimSpace_def by fastforce
  qed simp
  then have "trim_left t = t" by (rule trim_left_fixed)
  moreover from last have "trim_right t = t" by (rule trim_right_fixed)
  ultimately have "TrimSpace t = t" by (simp add: TrimSpace_def)
  then show ?thesis by (simp add: t_def)
qed

lemma TrimSpace_Nil [simp]: "TrimSpace [] = []"
  by (simp add: TrimSpace_def trim_left.simps [of "[]"] trim_right.simps [of "[]"])

lemma length_TrimSpace_le: "length (TrimSpace s) \<le> length s"
  unfolding TrimSpace_def
  by (meson le_trans prefix_length_le suffix_length_le trim_left_suffix trim_right_prefix)

lemma set_TrimSpace_subset: "set (TrimSpace s) \<subseteq> set s"
  unfolding TrimSpace_def
  by (meson order_trans set_mono_prefix set_mono_suffix trim_left_suffix trim_right_prefix)

text \<open>A trimmed string neither starts nor ends with an ASCII space.\<close>

lemma TrimSpace_ends:
  assumes "TrimSpace s = s" and "s \<noteq> []"
  shows "\<not> is_space (fst (decode_rune s))" and "\<not> is_space (fst (decode_last_rune s))"
proof -
  have tl: "trim_left s = s"
  proof -
    have "length s \<le> length (trim_left s)"
      using assms(1) trim_right_prefix [of "trim_left s"] prefix_length_le
      unfolding TrimSpace_def by force
    with trim_left_suffix [of s] show ?thesis
      by (metis le_antisym suffix_length_le suffix_order.eq_iff suffix_length_suffix suffix_order.refl)
  qed
  with trim_left_head [of s] assms(2) show "\<not> is_space (fst (decode_rune s))" by simp
  from tl assms(1) have "trim_right s = s" by (simp add: TrimSpace_def)
  with trim_right_last [of s] assms(2) show "\<not> is_space (fst (decode_last_rune s))" by simp
qed

end
