(* ===== verification/GoStrconv.thy ===== *)
theory GoStrconv
  imports GoStrings
begin

text \<open>
  Splitting, joining, printing and parsing: \<open>strings.Split\<close> on one byte, \<open>strings.Join\<close>,
  \<open>strconv.Atoi\<close> (64-bit), the \<open>%d\<close> and \<open>%q\<close> verbs, \<open>strings.ToLower\<close> and
  \<open>strings.EqualFold\<close>. The non-ASCII rows of the Unicode tables are parameters.
\<close>

subsection \<open>Split and Join\<close>

fun split_on :: "char \<Rightarrow> gostring \<Rightarrow> gostring list" where
  "split_on sep [] = [[]]"
| "split_on sep (c # s) =
     (if c = sep then [] # split_on sep s
      else case split_on sep s of [] \<Rightarrow> [[c]] | p # ps \<Rightarrow> (c # p) # ps)"

fun join :: "gostring \<Rightarrow> gostring list \<Rightarrow> gostring" where
  "join sep [] = []"
| "join sep [s] = s"
| "join sep (s # t # ts) = s @ sep @ join sep (t # ts)"

lemma split_on_ne [simp]: "split_on sep s \<noteq> []"
  by (cases s) (auto split: list.splits)

lemma sep_not_in_split_on: "p \<in> set (split_on sep s) \<Longrightarrow> sep \<notin> set p"
  by (induction s arbitrary: p) (auto split: if_splits list.splits)

lemma join_split_on: "join [sep] (split_on sep s) = s"
proof (induction s)
  case (Cons c s)
  obtain p ps where ps: "split_on sep s = p # ps"
    using split_on_ne [of sep s] by (cases "split_on sep s") auto
  with Cons show ?case by (cases ps) auto
qed simp

subsection \<open>Integers\<close>

fun show_nat :: "nat \<Rightarrow> gostring" where
  "show_nat n = (if n < 10 then [char_of (48 + n)] else show_nat (n div 10) @ [char_of (48 + n mod 10)])"

declare show_nat.simps [simp del]

definition show_int :: "int \<Rightarrow> gostring" where
  "show_int i = (if i < 0 then CHR ''-'' # show_nat (nat (- i)) else show_nat (nat i))"

definition is_digit :: "char \<Rightarrow> bool" where
  "is_digit c \<longleftrightarrow> 48 \<le> byte_of c \<and> byte_of c \<le> 57"

fun digits_value :: "nat \<Rightarrow> gostring \<Rightarrow> nat option" where
  "digits_value acc [] = Some acc"
| "digits_value acc (c # s) =
     (if is_digit c then digits_value (10 * acc + (byte_of c - 48)) s else None)"

definition max_int64 :: int where
  "max_int64 = 9223372036854775807"

definition min_int64 :: int where
  "min_int64 = - 9223372036854775808"

text \<open>\<open>strconv.Atoi\<close>: an optional sign, then digits only; \<open>None\<close> is a syntax or range error.\<close>

definition parse_unsigned :: "gostring \<Rightarrow> nat option" where
  "parse_unsigned s = (if s = [] then None else digits_value 0 s)"

definition Atoi :: "gostring \<Rightarrow> int option" where
  "Atoi s =
     (let (neg, ds) = (case s of
            c # cs \<Rightarrow> if c = CHR ''-'' then (True, cs) else if c = CHR ''+'' then (False, cs) else (False, s)
          | [] \<Rightarrow> (False, s))
      in case parse_unsigned ds of
           None \<Rightarrow> None
         | Some n \<Rightarrow>
             (let i = (if neg then - int n else int n)
              in if min_int64 \<le> i \<and> i \<le> max_int64 then Some i else None))"

lemma show_nat_ne [simp]: "show_nat n \<noteq> []"
  by (simp add: show_nat.simps [of n])

lemma byte_of_digit: "d < 10 \<Longrightarrow> byte_of (char_of (48 + d)) = 48 + d"
  by simp

lemma show_nat_digits: "c \<in> set (show_nat n) \<Longrightarrow> is_digit c"
proof (induction n rule: show_nat.induct)
  case (1 n)
  have "is_digit (char_of (48 + d))" if "d < 10" for d :: nat
    using that by (simp add: is_digit_def)
  with 1 show ?case
    by (cases "n < 10") (auto simp: show_nat.simps [of n])
qed

lemma digits_value_append:
  "digits_value acc (s @ t) = Option.bind (digits_value acc s) (\<lambda>a. digits_value a t)"
  by (induction s arbitrary: acc) auto

lemma digits_value_show_nat: "digits_value 0 (show_nat n) = Some n"
proof (induction n rule: show_nat.induct)
  case (1 n)
  show ?case
  proof (cases "n < 10")
    case True
    then show ?thesis by (simp add: show_nat.simps [of n] is_digit_def)
  next
    case False
    with 1 have "digits_value 0 (show_nat (n div 10)) = Some (n div 10)" by simp
    with False show ?thesis
      by (simp add: show_nat.simps [of n] digits_value_append is_digit_def)
  qed
qed

lemma show_nat_head: "show_nat n = c # cs \<Longrightarrow> c \<noteq> CHR ''-'' \<and> c \<noteq> CHR ''+''"
  using show_nat_digits [of c n] by (auto simp: is_digit_def)

lemma Atoi_show_int:
  assumes "min_int64 \<le> i" and "i \<le> max_int64"
  shows "Atoi (show_int i) = Some i"
proof (cases "i < 0")
  case True
  with assms show ?thesis
    by (simp add: Atoi_def show_int_def parse_unsigned_def digits_value_show_nat)
next
  case False
  obtain c cs where "show_nat (nat i) = c # cs"
    by (cases "show_nat (nat i)") auto
  with False assms show_nat_head [OF this] digits_value_show_nat [of "nat i"] show ?thesis
    by (simp add: Atoi_def show_int_def parse_unsigned_def)
qed

lemma Atoi_bounds: "Atoi s = Some i \<Longrightarrow> min_int64 \<le> i \<and> i \<le> max_int64"
  by (auto simp: Atoi_def Let_def split: option.splits if_splits list.splits)

subsection \<open>Case\<close>

definition ascii_lower :: "char \<Rightarrow> char" where
  "ascii_lower c = (if 65 \<le> byte_of c \<and> byte_of c \<le> 90 then char_of (byte_of c + 32) else c)"

definition is_ascii :: "gostring \<Rightarrow> bool" where
  "is_ascii s \<longleftrightarrow> list_all (\<lambda>c. byte_of c < 128) s"

definition encode_rune :: "nat \<Rightarrow> gostring" where
  "encode_rune r0 =
     (let r = (if r0 > 1114111 \<or> (55296 \<le> r0 \<and> r0 \<le> 57343) then rune_error else r0)
      in map char_of
          (if r < 128 then [r]
           else if r < 2048 then [192 + r div 64, 128 + r mod 64]
           else if r < 65536 then [224 + r div 4096, 128 + r div 64 mod 64, 128 + r mod 64]
           else [240 + r div 262144, 128 + r div 4096 mod 64, 128 + r div 64 mod 64, 128 + r mod 64]))"

text \<open>
  \<open>strings.ToLower\<close>: byte by byte on an ASCII string; otherwise rune by rune, an invalid byte
  becoming the replacement rune. \<open>ulower\<close> is \<open>unicode.ToLower\<close> outside ASCII.
\<close>

definition ToLower :: "(nat \<Rightarrow> nat) \<Rightarrow> gostring \<Rightarrow> gostring" where
  "ToLower ulower s =
     (if is_ascii s then map ascii_lower s
      else concat (map (\<lambda>(_, r). encode_rune
             (if 65 \<le> r \<and> r \<le> 90 then r + 32 else if r < 128 then r else ulower r)) (runes_from 0 s)))"

text \<open>
  \<open>strings.EqualFold\<close> against an ASCII word: the only non-ASCII runes that fold to ASCII are the
  Kelvin sign and the long s.
\<close>

definition fold_rune :: "nat \<Rightarrow> nat" where
  "fold_rune r =
     (if 65 \<le> r \<and> r \<le> 90 then r + 32 else if r = 8490 then 107 else if r = 383 then 115 else r)"

definition equal_fold_ascii :: "gostring \<Rightarrow> gostring \<Rightarrow> bool" where
  "equal_fold_ascii s t \<longleftrightarrow>
     map (\<lambda>(_, r). fold_rune r) (runes_from 0 s) = map (\<lambda>c. fold_rune (byte_of c)) t"

lemma byte_of_ascii_lower:
  "byte_of (ascii_lower c) = (if 65 \<le> byte_of c \<and> byte_of c \<le> 90 then byte_of c + 32 else byte_of c)"
  by (simp add: ascii_lower_def)

lemma ascii_lower_idem [simp]: "ascii_lower (ascii_lower c) = ascii_lower c"
  by (simp add: ascii_lower_def)

lemma is_ascii_map_lower [simp]: "is_ascii (map ascii_lower s) = is_ascii s"
  by (auto simp: is_ascii_def list_all_iff byte_of_ascii_lower split: if_splits)

lemma ToLower_ascii: "is_ascii s \<Longrightarrow> ToLower ulower s = map ascii_lower s"
  by (simp add: ToLower_def)

lemma runes_from_is_ascii:
  "is_ascii s \<Longrightarrow> runes_from i s = zip [i..<i + length s] (map byte_of s)"
proof (induction s arbitrary: i)
  case (Cons c s)
  then show ?case
    by (simp add: is_ascii_def runes_from_ascii upt_conv_Cons del: upt_Suc)
qed simp

lemma rune_count_ascii: "is_ascii s \<Longrightarrow> rune_count s = length s"
  by (simp add: rune_count_def runes_from_is_ascii)

lemma equal_fold_ascii_iff:
  assumes "is_ascii s"
  shows "equal_fold_ascii s t \<longleftrightarrow>
    map (\<lambda>c. fold_rune (byte_of c)) s = map (\<lambda>c. fold_rune (byte_of c)) t"
proof -
  have "map (\<lambda>(_, r). fold_rune r) (runes_from 0 s) = map (\<lambda>c. fold_rune (byte_of c)) s"
    by (rule nth_equalityI) (simp_all add: runes_from_is_ascii [OF assms] case_prod_beta')
  then show ?thesis by (simp add: equal_fold_ascii_def)
qed

subsection \<open>Quoting\<close>

text \<open>The \<open>%q\<close> verb, \<open>strconv.Quote\<close>; \<open>uprint\<close> is \<open>unicode.IsPrint\<close> outside ASCII.\<close>

definition hex_digit :: "nat \<Rightarrow> char" where
  "hex_digit d = char_of (if d < 10 then 48 + d else 87 + d)"

fun hex_fixed :: "nat \<Rightarrow> nat \<Rightarrow> gostring" where
  "hex_fixed 0 v = []"
| "hex_fixed (Suc w) v = hex_fixed w (v div 16) @ [hex_digit (v mod 16)]"

definition quote_rune :: "(nat \<Rightarrow> bool) \<Rightarrow> nat \<Rightarrow> gostring" where
  "quote_rune uprint r =
     (if r = 34 \<or> r = 92 then [CHR 0x5C, char_of r]
      else if 32 \<le> r \<and> r < 127 \<or> 128 \<le> r \<and> uprint r then encode_rune r
      else if r = 7 then [CHR 0x5C, CHR ''a''] else if r = 8 then [CHR 0x5C, CHR ''b'']
      else if r = 12 then [CHR 0x5C, CHR ''f''] else if r = 10 then [CHR 0x5C, CHR ''n'']
      else if r = 13 then [CHR 0x5C, CHR ''r''] else if r = 9 then [CHR 0x5C, CHR ''t'']
      else if r = 11 then [CHR 0x5C, CHR ''v'']
      else if r < 32 \<or> r = 127 then [CHR 0x5C, CHR ''x''] @ hex_fixed 2 r
      else if r < 65536 then [CHR 0x5C, CHR ''u''] @ hex_fixed 4 r
      else [CHR 0x5C, CHR ''U''] @ hex_fixed 8 r)"

function quote_body :: "(nat \<Rightarrow> bool) \<Rightarrow> gostring \<Rightarrow> gostring" where
  "quote_body uprint s =
     (if s = [] then []
      else (let (r, n) = decode_rune s
            in if n = 1 \<and> r = rune_error then [CHR 0x5C, CHR ''x''] @ hex_fixed 2 (byte_of (hd s))
               else quote_rune uprint r)
           @ quote_body uprint (drop (snd (decode_rune s)) s))"
  by pat_completeness auto
termination
  by (relation "measure (\<lambda>(u, s). length s)")
     (use decode_rune_size(1,2) in \<open>fastforce intro!: diff_less\<close>)+

declare quote_body.simps [simp del]

definition go_quote :: "(nat \<Rightarrow> bool) \<Rightarrow> gostring \<Rightarrow> gostring" where
  "go_quote uprint s = [CHR 0x22] @ quote_body uprint s @ [CHR 0x22]"

end
