(* ===== verification/GoTime.thy ===== *)
theory GoTime
  imports GoStrconv
begin

text \<open>
  Go's \<open>time\<close> package as the backend uses it. An instant is the number of nanoseconds since
  the zero \<open>time.Time\<close> (1 January of year 1, UTC), so \<open>IsZero\<close> is being 0. A
  \<open>time.Duration\<close> is a signed 64-bit number of nanoseconds: it is an \<open>int\<close> here, and the two
  operations that could leave the 64-bit range, \<open>Time.Sub\<close> (which saturates) and
  \<open>time.ParseDuration\<close> (which reports an error), are written with their bounds. A fraction in
  \<open>ParseDuration\<close> goes through \<open>float64\<close>; \<open>f64_round\<close> is rounding to 53 significant bits,
  halves to even, on the positive range that occurs there.
\<close>

type_synonym time = int
type_synonym duration = int

definition zero_time :: time where
  "zero_time = 0"

definition millisecond :: duration where
  "millisecond = 1000000"

definition second :: duration where
  "second = 1000000000"

definition minute :: duration where
  "minute = 60000000000"

definition hour :: duration where
  "hour = 3600000000000"

text \<open>\<open>t.Sub(u)\<close> saturates at the extreme durations.\<close>

definition time_Sub :: "time \<Rightarrow> time \<Rightarrow> duration" where
  "time_Sub t u = max min_int64 (min max_int64 (t - u))"

lemma time_Sub_bounds: "min_int64 \<le> time_Sub t u \<and> time_Sub t u \<le> max_int64"
  by (simp add: time_Sub_def min_int64_def max_int64_def)

lemma time_Sub_pos_iff [simp]: "0 < time_Sub t u \<longleftrightarrow> u < t"
  by (auto simp: time_Sub_def min_int64_def max_int64_def)

lemma time_Sub_exact: "min_int64 \<le> t - u \<Longrightarrow> t - u \<le> max_int64 \<Longrightarrow> time_Sub t u = t - u"
  by (simp add: time_Sub_def)

text \<open>\<open>Duration.Milliseconds\<close> truncates towards zero.\<close>

definition Milliseconds :: "duration \<Rightarrow> int" where
  "Milliseconds d = (if d < 0 then - ((- d) div 1000000) else d div 1000000)"

subsection \<open>float64\<close>

fun bit_len :: "nat \<Rightarrow> nat" where
  "bit_len n = (if n = 0 then 0 else Suc (bit_len (n div 2)))"

declare bit_len.simps [simp del]

definition pow2 :: "int \<Rightarrow> rat" where
  "pow2 k = (if 0 \<le> k then 2 ^ nat k else 1 / 2 ^ nat (- k))"

definition round_half_even :: "rat \<Rightarrow> int" where
  "round_half_even q =
     (let l = \<lfloor>q\<rfloor>; d = q - of_int l
      in if d < 1 / 2 then l else if 1 / 2 < d then l + 1 else if even l then l else l + 1)"

definition f64_round :: "rat \<Rightarrow> rat" where
  "f64_round q =
     (if q \<le> 0 then 0
      else let (n, d) = quotient_of q;
               k = int (bit_len (nat n)) - int (bit_len (nat d));
               e = (if q < pow2 k then k - 1 else k)
           in of_int (round_half_even (q * pow2 (52 - e))) * pow2 (e - 52))"

subsection \<open>ParseDuration\<close>

fun leading_int :: "nat \<Rightarrow> gostring \<Rightarrow> (nat \<times> gostring) option" where
  "leading_int x [] = Some (x, [])"
| "leading_int x (c # s) =
     (if \<not> is_digit c then Some (x, c # s)
      else if 922337203685477580 < x then None
      else if 2 ^ 63 < 10 * x + (byte_of c - 48) then None
      else leading_int (10 * x + (byte_of c - 48)) s)"

fun leading_fraction :: "nat \<Rightarrow> nat \<Rightarrow> bool \<Rightarrow> gostring \<Rightarrow> nat \<times> nat \<times> gostring" where
  "leading_fraction x scale overflow [] = (x, scale, [])"
| "leading_fraction x scale overflow (c # s) =
     (if \<not> is_digit c then (x, scale, c # s)
      else if overflow then leading_fraction x scale overflow s
      else if 922337203685477580 < x then leading_fraction x scale True s
      else if 2 ^ 63 < 10 * x + (byte_of c - 48) then leading_fraction x scale True s
      else leading_fraction (10 * x + (byte_of c - 48)) (10 * scale) False s)"

definition unit_ns :: "gostring \<Rightarrow> nat option" where
  "unit_ns u =
     (if u = ''ns'' then Some 1
      else if u = ''us'' \<or> u = [CHR 0xC2, CHR 0xB5, CHR ''s''] \<or> u = [CHR 0xCE, CHR 0xBC, CHR ''s'']
        then Some 1000
      else if u = ''ms'' then Some 1000000
      else if u = ''s'' then Some 1000000000
      else if u = ''m'' then Some 60000000000
      else if u = ''h'' then Some 3600000000000
      else None)"

definition is_unit_char :: "char \<Rightarrow> bool" where
  "is_unit_char c \<longleftrightarrow> c \<noteq> CHR ''.'' \<and> \<not> is_digit c"

definition fraction_ns :: "nat \<Rightarrow> nat \<Rightarrow> nat \<Rightarrow> nat" where
  "fraction_ns f scale u =
     nat \<lfloor>f64_round (f64_round (of_nat f) * f64_round (of_nat u / of_nat scale))\<rfloor>"

text \<open>One number with its unit: the nanoseconds it stands for, and the rest of the string.\<close>

definition parse_component :: "gostring \<Rightarrow> (nat \<times> gostring) option" where
  "parse_component s =
     (if s = [] \<or> \<not> (hd s = CHR ''.'' \<or> is_digit (hd s)) then None
      else case leading_int 0 s of
        None \<Rightarrow> None
      | Some (v, s1) \<Rightarrow>
          (let pre = (length s1 \<noteq> length s);
               (f, scale, s2, post) =
                 (if s1 \<noteq> [] \<and> hd s1 = CHR ''.''
                  then let (f, scale, r) = leading_fraction 0 1 False (tl s1)
                       in (f, scale, r, length r \<noteq> length (tl s1))
                  else (0, 1, s1, False));
               u = takeWhile is_unit_char s2;
               s3 = dropWhile is_unit_char s2
           in if \<not> pre \<and> \<not> post then None
              else if u = [] then None
              else case unit_ns u of
                None \<Rightarrow> None
              | Some n \<Rightarrow>
                  if 2 ^ 63 div n < v then None
                  else if 0 < f then
                    (if 2 ^ 63 < v * n + fraction_ns f scale n then None
                     else Some (v * n + fraction_ns f scale n, s3))
                  else Some (v * n, s3)))"

lemma leading_int_length: "leading_int x s = Some (v, r) \<Longrightarrow> length r \<le> length s"
  by (induction x s rule: leading_int.induct) (auto split: if_splits)

lemma leading_fraction_length: "leading_fraction x c b s = (v, d, r) \<Longrightarrow> length r \<le> length s"
  by (induction x c b s rule: leading_fraction.induct) (auto simp: is_digit_def split: if_splits)

lemma dropWhile_shorter: "takeWhile P s \<noteq> [] \<Longrightarrow> length (dropWhile P s) < length s"
  by (cases s) (auto simp: le_imp_less_Suc length_dropWhile_le split: if_splits)

lemma parse_component_length: "parse_component s = Some (v, r) \<Longrightarrow> length r < length s"
proof -
  assume a: "parse_component s = Some (v, r)"
  then obtain w s1 where w: "leading_int 0 s = Some (w, s1)"
    by (auto simp: parse_component_def split: if_splits option.splits)
  define s2 where "s2 = (if s1 \<noteq> [] \<and> hd s1 = CHR ''.''
    then snd (snd (leading_fraction 0 1 False (tl s1))) else s1)"
  from a w have "takeWhile is_unit_char s2 \<noteq> []" and "r = dropWhile is_unit_char s2"
    by (auto simp: parse_component_def s2_def Let_def case_prod_beta'
        split: if_splits option.splits)
  then have "length r < length s2" by (simp add: dropWhile_shorter)
  moreover have "length s2 \<le> length s1"
    using leading_fraction_length [of 0 1 False "tl s1"]
    by (cases "leading_fraction 0 1 False (tl s1)") (force simp: s2_def)
  moreover have "length s1 \<le> length s"
    using w by (rule leading_int_length)
  ultimately show ?thesis by simp
qed

text \<open>The running total is a \<open>uint64\<close>: adding wraps before the range check.\<close>

function parse_components :: "nat \<Rightarrow> gostring \<Rightarrow> nat option" where
  "parse_components d s =
     (if s = [] then Some d
      else case parse_component s of
        None \<Rightarrow> None
      | Some (v, r) \<Rightarrow>
          if 2 ^ 63 < (d + v) mod 2 ^ 64 then None
          else parse_components ((d + v) mod 2 ^ 64) r)"
  by pat_completeness auto
termination
  by (relation "measure (\<lambda>(d, s). length s)") (auto dest: parse_component_length)

declare parse_components.simps [simp del]

definition ParseDuration :: "gostring \<Rightarrow> duration option" where
  "ParseDuration orig =
     (let (neg, s) = (case orig of
            c # cs \<Rightarrow> if c = CHR ''-'' \<or> c = CHR ''+'' then (c = CHR ''-'', cs) else (False, orig)
          | [] \<Rightarrow> (False, orig))
      in if s = ''0'' then Some 0
         else if s = [] then None
         else case parse_components 0 s of
           None \<Rightarrow> None
         | Some d \<Rightarrow>
             if neg then Some (- int d)
             else if 2 ^ 63 - 1 < d then None
             else Some (int d))"

lemma parse_components_bound: "d \<le> 2 ^ 63 \<Longrightarrow> parse_components d s = Some e \<Longrightarrow> e \<le> 2 ^ 63"
proof (induction d s rule: parse_components.induct)
  case (1 d s)
  then show ?case
    by (subst (asm) (2) parse_components.simps) (auto split: if_splits option.splits)
qed

lemma ParseDuration_bounds:
  assumes "ParseDuration s = Some d"
  shows "min_int64 \<le> d \<and> d \<le> max_int64"
proof -
  have "int e \<le> 2 ^ 63" if "parse_components 0 t = Some e" for t e
    using parse_components_bound [OF _ that] by simp
  with assms show ?thesis
    by (fastforce simp: ParseDuration_def min_int64_def max_int64_def Let_def
        split: if_splits option.splits list.splits)
qed

end
