(* ===== verification/Models_Base.thy ===== *)
theory Models_Base
  imports GoTime
begin

text \<open>
  \<open>internal/models/enum.go\<close> and \<open>internal/models/errors.go\<close>: string-backed enumerations, the
  sentinel errors, and the validator that accumulates one issue per problem. A Go enumeration
  is a named string type, so any string can be a value of it: it is \<open>gostring\<close> here too,
  and \<open>validEnum\<close> is what separates the listed tokens from the rest.

  The lemmas in \<open>validate_simps\<close> rewrite the issue list of a validator after each kind of
  check, so that a \<open>Validate\<close> method reduces to the list of the issues it reports.
\<close>

subsection \<open>enum.go\<close>

record InvalidEnumError =
  ie_Kind :: gostring
  ie_Value :: gostring
  ie_Allowed :: "gostring list"

definition InvalidEnumError_Error :: "(nat \<Rightarrow> bool) \<Rightarrow> InvalidEnumError \<Rightarrow> gostring" where
  "InvalidEnumError_Error uprint e =
     ''invalid '' @ ie_Kind e @ '' '' @ go_quote uprint (ie_Value e)
     @ '': must be one of '' @ join '', '' (ie_Allowed e)"

fun validEnum :: "gostring \<Rightarrow> gostring list \<Rightarrow> bool" where
  "validEnum v [] = False"
| "validEnum v (a # as) = (if v = a then True else validEnum v as)"

fun enumStrings :: "gostring list \<Rightarrow> gostring list" where
  "enumStrings [] = []"
| "enumStrings (v # vs) = v # enumStrings vs"

definition parseEnum :: "gostring \<Rightarrow> gostring \<Rightarrow> gostring list \<Rightarrow> (InvalidEnumError, gostring) result" where
  "parseEnum raw kind allowed =
     (let candidate = raw
      in if validEnum candidate allowed then Inr candidate
         else Inl \<lparr>ie_Kind = kind, ie_Value = raw, ie_Allowed = enumStrings allowed\<rparr>)"

lemma validEnum_iff [validate_simps]: "validEnum v allowed \<longleftrightarrow> v \<in> set allowed"
  by (induction allowed) auto

lemma enumStrings_id [simp]: "enumStrings vs = vs"
  by (induction vs) auto

lemma parseEnum_Inr_iff [result_iff]:
  "parseEnum raw kind allowed = Inr v \<longleftrightarrow> v = raw \<and> raw \<in> set allowed"
  by (auto simp: parseEnum_def validEnum_iff)

lemma parseEnum_Inl_iff:
  "parseEnum raw kind allowed = Inl e \<longleftrightarrow>
     raw \<notin> set allowed \<and> e = \<lparr>ie_Kind = kind, ie_Value = raw, ie_Allowed = allowed\<rparr>"
  by (auto simp: parseEnum_def validEnum_iff)

subsection \<open>errors.go\<close>

datatype model_error = ErrNotFound | ErrConflict

record FieldIssue =
  fi_Field :: gostring
  fi_Message :: gostring

definition FieldIssue_String :: "FieldIssue \<Rightarrow> gostring" where
  "FieldIssue_String f = fi_Field f @ '' '' @ fi_Message f"

record ValidationError =
  ve_Issues :: "FieldIssue list"

definition ValidationError_Error :: "ValidationError \<Rightarrow> gostring" where
  "ValidationError_Error e =
     ''validation failed: '' @ join ''; '' (map FieldIssue_String (ve_Issues e))"

record validator =
  issues :: "FieldIssue list"

definition new_validator :: validator where
  "new_validator = \<lparr>issues = []\<rparr>"

definition v_add :: "gostring \<Rightarrow> gostring \<Rightarrow> validator \<Rightarrow> validator" where
  "v_add field message v =
     v\<lparr>issues := issues v @ [\<lparr>fi_Field = field, fi_Message = message\<rparr>]\<rparr>"

definition v_require :: "gostring \<Rightarrow> gostring \<Rightarrow> validator \<Rightarrow> gostring \<times> validator" where
  "v_require field value v =
     (let trimmed = TrimSpace value
      in if trimmed = [] then (trimmed, v_add field ''is required'' v) else (trimmed, v))"

definition v_maxLen :: "gostring \<Rightarrow> gostring \<Rightarrow> int \<Rightarrow> validator \<Rightarrow> validator" where
  "v_maxLen field value m v =
     (if int (length value) > m
      then v_add field (''must be at most '' @ show_int m @ '' characters'') v else v)"

definition enumField :: "gostring \<Rightarrow> gostring \<Rightarrow> gostring list \<Rightarrow> validator \<Rightarrow> validator" where
  "enumField field value allowed v =
     (if \<not> validEnum value allowed
      then v_add field (''must be one of '' @ join '', '' (enumStrings allowed)) v else v)"

definition v_err :: "validator \<Rightarrow> ValidationError option" where
  "v_err v = (if length (issues v) = 0 then None else Some \<lparr>ve_Issues = issues v\<rparr>)"

text \<open>\<open>if cond { v.add(field, message) }\<close>, the shape of every other check.\<close>

abbreviation v_check :: "bool \<Rightarrow> gostring \<Rightarrow> gostring \<Rightarrow> validator \<Rightarrow> validator" where
  "v_check bad field message v \<equiv> (if bad then v_add field message v else v)"

definition issue :: "bool \<Rightarrow> gostring \<Rightarrow> gostring \<Rightarrow> FieldIssue list" where
  "issue bad field message = (if bad then [\<lparr>fi_Field = field, fi_Message = message\<rparr>] else [])"

lemma issue_Nil_iff [simp]: "issue bad f m = [] \<longleftrightarrow> \<not> bad"
  by (simp add: issue_def)

lemma set_issue: "x \<in> set (issue bad f m) \<longleftrightarrow> bad \<and> x = \<lparr>fi_Field = f, fi_Message = m\<rparr>"
  by (auto simp: issue_def)

lemma issues_new [validate_simps]: "issues new_validator = []"
  by (simp add: new_validator_def)

lemma issues_add [validate_simps]:
  "issues (v_add f m v) = issues v @ [\<lparr>fi_Field = f, fi_Message = m\<rparr>]"
  by (simp add: v_add_def)

lemma issues_check [validate_simps]: "issues (v_check bad f m v) = issues v @ issue bad f m"
  by (simp add: v_add_def issue_def)

lemma require_simps [validate_simps]:
  "fst (v_require f s v) = TrimSpace s"
  "issues (snd (v_require f s v)) = issues v @ issue (TrimSpace s = []) f ''is required''"
  by (simp_all add: v_require_def v_add_def issue_def Let_def)

lemma issues_maxLen [validate_simps]:
  "issues (v_maxLen f s m v) = issues v
     @ issue (m < int (length s)) f (''must be at most '' @ show_int m @ '' characters'')"
  by (simp add: v_maxLen_def v_add_def issue_def)

lemma issues_enumField [validate_simps]:
  "issues (enumField f s allowed v) = issues v
     @ issue (s \<notin> set allowed) f (''must be one of '' @ join '', '' allowed)"
  by (simp add: enumField_def validEnum_iff v_add_def issue_def)

lemma v_err_eq: "v_err v = (if issues v = [] then None else Some \<lparr>ve_Issues = issues v\<rparr>)"
  by (simp add: v_err_def)

lemma v_err_None [validate_simps]: "v_err v = None \<longleftrightarrow> issues v = []"
  by (simp add: v_err_eq)

lemma v_err_Some [validate_simps]:
  "v_err v = Some e \<longleftrightarrow> issues v \<noteq> [] \<and> e = \<lparr>ve_Issues = issues v\<rparr>"
  by (auto simp: v_err_eq)

text \<open>The issues an error carries, the empty list for \<open>nil\<close>.\<close>

definition reported :: "ValidationError option \<Rightarrow> FieldIssue list" where
  "reported e = (case e of None \<Rightarrow> [] | Some ve \<Rightarrow> ve_Issues ve)"

lemma reported_v_err [validate_simps]: "reported (v_err v) = issues v"
  by (simp add: reported_def v_err_eq)

subsection \<open>float32\<close>

text \<open>
  An IEEE value as the checks of this package read it: not a number, an infinity, or a finite
  (rational) value. The comparisons with NaN are all false.
\<close>

datatype f32 = F32_NaN | F32_Inf bool | F32 rat

fun f32_lt :: "f32 \<Rightarrow> f32 \<Rightarrow> bool" where
  "f32_lt F32_NaN y = False"
| "f32_lt x F32_NaN = False"
| "f32_lt (F32_Inf s) (F32_Inf t) = (\<not> s \<and> t)"
| "f32_lt (F32_Inf s) (F32 y) = (\<not> s)"
| "f32_lt (F32 x) (F32_Inf t) = t"
| "f32_lt (F32 x) (F32 y) = (x < y)"

end
