(* ===== verification/Models_Identity.thy ===== *)
theory Models_Identity
  imports Models_Base
begin

text \<open>
  \<open>internal/models/identity.go\<close>: teams, users, providers and integrations with their
  \<open>Validate\<close> methods, and \<open>ValidEmail\<close>, a scan over the runes of the address. The scan is shown
  to accept exactly the strings with one \<open>@\<close>, something before it, and an interior last dot in
  what follows.
\<close>

record Team =
  team_ID :: uuid
  team_Name :: gostring
  team_CreatedAt :: time
  team_UpdatedAt :: time

record User =
  user_ID :: uuid
  user_TeamID :: uuid
  user_Email :: gostring
  user_PasswordHash :: gostring
  user_Name :: gostring
  user_CreatedAt :: time
  user_UpdatedAt :: time

definition zero_Team :: Team where
  "zero_Team = \<lparr>team_ID = 0, team_Name = [], team_CreatedAt = 0, team_UpdatedAt = 0\<rparr>"

definition zero_User :: User where
  "zero_User = \<lparr>user_ID = 0, user_TeamID = 0, user_Email = [], user_PasswordHash = [],
     user_Name = [], user_CreatedAt = 0, user_UpdatedAt = 0\<rparr>"

type_synonym Provider = gostring

definition ProviderPagerDuty :: Provider where "ProviderPagerDuty = ''pagerduty''"
definition ProviderDatadog :: Provider where "ProviderDatadog = ''datadog''"
definition ProviderSlack :: Provider where "ProviderSlack = ''slack''"

definition AllProviders :: "Provider list" where
  "AllProviders = [ProviderPagerDuty, ProviderDatadog, ProviderSlack]"

definition Provider_Valid :: "Provider \<Rightarrow> bool" where
  "Provider_Valid p = validEnum p AllProviders"

definition ParseProvider :: "gostring \<Rightarrow> (InvalidEnumError, Provider) result" where
  "ParseProvider raw = parseEnum raw ''provider'' AllProviders"

datatype json =
    JNull
  | JBool bool
  | JInt int
  | JString gostring
  | JTime time
  | JArray "json list"
  | JObject "(gostring \<times> json) list"

record Integration =
  intg_ID :: uuid
  intg_TeamID :: uuid
  intg_Provider :: Provider
  intg_WebhookSecret :: gostring
  intg_Config :: "(gostring \<times> json) list"
  intg_Enabled :: bool
  intg_CreatedAt :: time
  intg_UpdatedAt :: time

definition maxTeamNameLen :: int where "maxTeamNameLen = 200"
definition maxUserNameLen :: int where "maxUserNameLen = 200"
definition maxEmailLen :: int where "maxEmailLen = 320"
definition MinWebhookSecretLen :: int where "MinWebhookSecretLen = 16"

subsection \<open>ValidEmail\<close>

text \<open>
  The first loop returns early at a second \<open>@\<close>; its state is the index of the first one, -1
  before it. \<open>None\<close> is the early \<open>return false\<close>.
\<close>

fun find_at :: "int \<Rightarrow> (nat \<times> nat) list \<Rightarrow> int option" where
  "find_at p [] = Some p"
| "find_at p ((i, r) # rs) =
     (if r = byte_of CHR ''@''
      then (if p \<noteq> - 1 then None else find_at (int i) rs)
      else find_at p rs)"

fun last_dot :: "int \<Rightarrow> (nat \<times> nat) list \<Rightarrow> int" where
  "last_dot dot [] = dot"
| "last_dot dot ((i, r) # rs) = (if r = byte_of CHR ''.'' then last_dot (int i) rs else last_dot dot rs)"

definition ValidEmail :: "gostring \<Rightarrow> bool" where
  "ValidEmail s =
     (case find_at (- 1) (runes_from 0 s) of
        None \<Rightarrow> False
      | Some p \<Rightarrow>
          if p \<le> 0 \<or> p = int (length s) - 1 then False
          else let domain = drop (nat (p + 1)) s;
                   dot = last_dot (- 1) (runes_from 0 domain)
               in 0 < dot \<and> dot < int (length domain) - 1)"

lemma find_at_positions:
  "find_at (- 1) rs =
     (case map fst (filter (\<lambda>(j, r). r = byte_of CHR ''@'') rs) of
        [] \<Rightarrow> Some (- 1) | [i] \<Rightarrow> Some (int i) | _ \<Rightarrow> None)"
proof -
  have seen: "find_at (int i) rs' =
      (if filter (\<lambda>(j, r). r = byte_of CHR ''@'') rs' = [] then Some (int i) else None)" for i rs'
    by (induction rs') auto
  show ?thesis
    by (induction rs) (auto simp: seen split: list.splits)
qed

lemma last_dot_positions:
  "last_dot d rs =
     (case rev (map fst (filter (\<lambda>(j, r). r = byte_of CHR ''.'') rs)) of
        [] \<Rightarrow> d | i # _ \<Rightarrow> int i)"
  by (induction rs arbitrary: d) (auto split: list.splits simp: append_eq_Cons_conv)

lemma ascii_at_dot: "byte_of CHR ''@'' < 128" "byte_of CHR ''.'' < 128"
  by simp_all

lemma positions_unique:
  "positions a k s = [i] \<longleftrightarrow> (\<exists>l r. s = l @ a # r \<and> a \<notin> set l \<and> a \<notin> set r \<and> i = k + length l)"
proof
  assume "positions a k s = [i]"
  then have "a \<in> set s" using positions_empty_iff [of a k s] by auto
  then obtain l r where lr: "s = l @ a # r" "a \<notin> set l"
    by (meson split_list_first)
  then have "positions a k s = (k + length l) # positions a (Suc (k + length l)) r"
    using positions_empty_iff [of a k l] by (simp add: positions_append positions_Cons)
  with \<open>positions a k s = [i]\<close> have "i = k + length l" "positions a (Suc (k + length l)) r = []"
    by auto
  with lr positions_empty_iff show "\<exists>l r. s = l @ a # r \<and> a \<notin> set l \<and> a \<notin> set r \<and> i = k + length l"
    by blast
next
  assume "\<exists>l r. s = l @ a # r \<and> a \<notin> set l \<and> a \<notin> set r \<and> i = k + length l"
  then show "positions a k s = [i]"
    by (auto simp: positions_append positions_Cons positions_absent)
qed

lemma last_position:
  assumes "s = l @ a # r" and "a \<notin> set r"
  shows "rev (positions a k s) = (k + length l) # rev (positions a k l)"
  using assms by (simp add: positions_append positions_Cons positions_absent)

text \<open>What an address has to look like, without the scans.\<close>

definition email_shape :: "gostring \<Rightarrow> bool" where
  "email_shape s \<longleftrightarrow>
     (\<exists>l d1 d2. s = l @ CHR ''@'' # d1 @ CHR ''.'' # d2
        \<and> l \<noteq> [] \<and> d1 \<noteq> [] \<and> d2 \<noteq> []
        \<and> CHR ''@'' \<notin> set l \<union> set d1 \<union> set d2 \<and> CHR ''.'' \<notin> set d2)"

lemma ValidEmail_unique_at:
  assumes "s = l @ CHR ''@'' # d" and "CHR ''@'' \<notin> set l" and "CHR ''@'' \<notin> set d"
  shows "ValidEmail s \<longleftrightarrow> l \<noteq> [] \<and> d \<noteq> [] \<and>
    (let dot = last_dot (- 1) (runes_from 0 d) in 0 < dot \<and> dot < int (length d) - 1)"
proof -
  have "positions (CHR ''@'') 0 s = [length l]"
    using assms by (auto simp: positions_unique)
  then have "find_at (- 1) (runes_from 0 s) = Some (int (length l))"
    using runes_ascii_positions [OF ascii_at_dot(1), of 0 s] by (simp add: find_at_positions)
  then show ?thesis using assms by (auto simp: ValidEmail_def nat_add_distrib)
qed

lemma ValidEmail_shape: "ValidEmail s \<longleftrightarrow> email_shape s"
proof
  assume v: "ValidEmail s"
  define ps where "ps = positions (CHR ''@'') 0 s"
  have f: "find_at (- 1) (runes_from 0 s) =
      (case ps of [] \<Rightarrow> Some (- 1) | [i] \<Rightarrow> Some (int i) | _ \<Rightarrow> None)"
    using runes_ascii_positions [OF ascii_at_dot(1), of 0 s] by (simp add: find_at_positions ps_def)
  with v obtain i where "ps = [i]"
    by (auto simp: ValidEmail_def split: list.splits)
  then obtain l d where ld: "s = l @ CHR ''@'' # d" "CHR ''@'' \<notin> set l" "CHR ''@'' \<notin> set d"
    unfolding ps_def positions_unique by auto
  with v have ne: "l \<noteq> []" "d \<noteq> []" and dot: "0 < last_dot (- 1) (runes_from 0 d)"
      "last_dot (- 1) (runes_from 0 d) < int (length d) - 1"
    by (auto simp: ValidEmail_unique_at Let_def)
  have ld_dot: "last_dot (- 1) (runes_from 0 d) =
      (case rev (positions (CHR ''.'') 0 d) of [] \<Rightarrow> - 1 | i # _ \<Rightarrow> int i)"
    using runes_ascii_positions [OF ascii_at_dot(2), of 0 d] by (simp add: last_dot_positions)
  with dot(1) have "positions (CHR ''.'') 0 d \<noteq> []" by auto
  then have "CHR ''.'' \<in> set d" using positions_empty_iff by metis
  then obtain d1 d2 where d: "d = d1 @ CHR ''.'' # d2" "CHR ''.'' \<notin> set d2"
    by (meson split_list_last)
  from last_position [OF d, of 0] ld_dot have "last_dot (- 1) (runes_from 0 d) = int (length d1)"
    by simp
  with dot d have "d1 \<noteq> []" "d2 \<noteq> []" by auto
  with ld ne d show "email_shape s"
    unfolding email_shape_def by (intro exI [of _ l] exI [of _ d1] exI [of _ d2]) auto
next
  assume "email_shape s"
  then obtain l d1 d2 where s: "s = l @ CHR ''@'' # d1 @ CHR ''.'' # d2"
    and ne: "l \<noteq> []" "d1 \<noteq> []" "d2 \<noteq> []"
    and no: "CHR ''@'' \<notin> set l \<union> set d1 \<union> set d2" "CHR ''.'' \<notin> set d2"
    unfolding email_shape_def by blast
  have "last_dot (- 1) (runes_from 0 (d1 @ CHR ''.'' # d2)) = int (length d1)"
    using runes_ascii_positions [OF ascii_at_dot(2), of 0 "d1 @ CHR ''.'' # d2"]
      last_position [OF refl no(2), of 0 d1] by (simp add: last_dot_positions)
  moreover have "CHR ''@'' \<notin> set (d1 @ CHR ''.'' # d2)" using no by simp
  ultimately show "ValidEmail s"
    using s ne no by (simp add: ValidEmail_unique_at)
qed

subsection \<open>Validate\<close>

definition Team_Validate :: "Team \<Rightarrow> ValidationError option" where
  "Team_Validate t =
     (let v = new_validator;
          (name, v) = v_require ''name'' (team_Name t) v;
          v = v_maxLen ''name'' name maxTeamNameLen v
      in v_err v)"

definition User_Validate :: "User \<Rightarrow> ValidationError option" where
  "User_Validate u =
     (let v = new_validator;
          (email, v) = v_require ''email'' (user_Email u) v;
          v = v_maxLen ''email'' email maxEmailLen v;
          v = v_check (email \<noteq> [] \<and> \<not> ValidEmail email) ''email'' ''must be a valid email address'' v;
          (name, v) = v_require ''name'' (user_Name u) v;
          v = v_maxLen ''name'' name maxUserNameLen v;
          (_, v) = v_require ''password_hash'' (user_PasswordHash u) v;
          v = v_check (user_TeamID u = uuid_nil) ''team_id'' ''is required'' v
      in v_err v)"

definition Integration_Validate :: "Integration \<Rightarrow> ValidationError option" where
  "Integration_Validate i =
     (let v = new_validator;
          v = enumField ''provider'' (intg_Provider i) AllProviders v;
          v = v_check (int (length (intg_WebhookSecret i)) < MinWebhookSecretLen)
                ''webhook_secret'' ''must be at least 16 characters'' v;
          v = v_check (intg_TeamID i = uuid_nil) ''team_id'' ''is required'' v
      in v_err v)"

lemma Team_Validate_None:
  "Team_Validate t = None \<longleftrightarrow>
     TrimSpace (team_Name t) \<noteq> [] \<and> length (TrimSpace (team_Name t)) \<le> 200"
  by (auto simp: Team_Validate_def Let_def case_prod_beta' validate_simps maxTeamNameLen_def)

lemma User_Validate_None:
  "User_Validate u = None \<longleftrightarrow>
     (let email = TrimSpace (user_Email u); name = TrimSpace (user_Name u)
      in length email \<le> 320 \<and> ValidEmail email \<and> name \<noteq> [] \<and> length name \<le> 200
         \<and> TrimSpace (user_PasswordHash u) \<noteq> [] \<and> user_TeamID u \<noteq> uuid_nil)"
proof -
  have "\<not> ValidEmail []" by (simp add: ValidEmail_def)
  then show ?thesis
    by (auto simp: User_Validate_def Let_def case_prod_beta' validate_simps
        maxEmailLen_def maxUserNameLen_def)
qed

lemma Integration_Validate_None:
  "Integration_Validate i = None \<longleftrightarrow>
     Provider_Valid (intg_Provider i) \<and> 16 \<le> length (intg_WebhookSecret i)
     \<and> intg_TeamID i \<noteq> uuid_nil"
  by (auto simp: Integration_Validate_def Let_def validate_simps Provider_Valid_def
      MinWebhookSecretLen_def)

end
