(* ===== verification/Models_Incident.thy ===== *)
theory Models_Incident
  imports Models_Identity
begin

text \<open>
  \<open>internal/models/incident.go\<close> and \<open>internal/models/event.go\<close>: severities, statuses, sources,
  classifications, incidents and events, their \<open>Validate\<close> methods, and the chronological sort
  the AI stages depend on. The rendering of a UUID is a parameter (\<open>ustr\<close>, the library's
  \<open>UUID.String\<close>); the sort's result depends on the collection of events alone when that
  rendering separates their ids.
\<close>

subsection \<open>Enumerations\<close>

type_synonym Severity = gostring

definition SeverityP1 :: Severity where "SeverityP1 = ''P1''"
definition SeverityP2 :: Severity where "SeverityP2 = ''P2''"
definition SeverityP3 :: Severity where "SeverityP3 = ''P3''"
definition SeverityP4 :: Severity where "SeverityP4 = ''P4''"

definition AllSeverities :: "Severity list" where
  "AllSeverities = [SeverityP1, SeverityP2, SeverityP3, SeverityP4]"

definition Severity_Valid :: "Severity \<Rightarrow> bool" where
  "Severity_Valid s = validEnum s AllSeverities"

definition ParseSeverity :: "gostring \<Rightarrow> (InvalidEnumError, Severity) result" where
  "ParseSeverity raw = parseEnum raw ''severity'' AllSeverities"

type_synonym IncidentStatus = gostring

definition StatusOpen :: IncidentStatus where "StatusOpen = ''open''"
definition StatusProcessing :: IncidentStatus where "StatusProcessing = ''processing''"
definition StatusAnalysisReady :: IncidentStatus where "StatusAnalysisReady = ''analysis_ready''"
definition StatusResolved :: IncidentStatus where "StatusResolved = ''resolved''"

definition AllIncidentStatuses :: "IncidentStatus list" where
  "AllIncidentStatuses = [StatusOpen, StatusProcessing, StatusAnalysisReady, StatusResolved]"

definition IncidentStatus_Valid :: "IncidentStatus \<Rightarrow> bool" where
  "IncidentStatus_Valid s = validEnum s AllIncidentStatuses"

definition ParseIncidentStatus :: "gostring \<Rightarrow> (InvalidEnumError, IncidentStatus) result" where
  "ParseIncidentStatus raw = parseEnum raw ''status'' AllIncidentStatuses"

type_synonym Source = gostring

definition SourceManual :: Source where "SourceManual = ''manual''"
definition SourcePagerDuty :: Source where "SourcePagerDuty = ''pagerduty''"
definition SourceDatadog :: Source where "SourceDatadog = ''datadog''"
definition SourceSlack :: Source where "SourceSlack = ''slack''"
definition SourceSimulation :: Source where "SourceSimulation = ''simulation''"

definition AllSources :: "Source list" where
  "AllSources = [SourceManual, SourcePagerDuty, SourceDatadog, SourceSlack, SourceSimulation]"

definition Source_Valid :: "Source \<Rightarrow> bool" where
  "Source_Valid s = validEnum s AllSources"

definition ParseSource :: "gostring \<Rightarrow> (InvalidEnumError, Source) result" where
  "ParseSource raw = parseEnum raw ''source'' AllSources"

text \<open>\<open>Source(p)\<close> converts between two string types: the text is unchanged.\<close>

definition SourceForProvider :: "Provider \<Rightarrow> Source" where
  "SourceForProvider p = p"

type_synonym Classification = gostring

definition ClassRootCause :: Classification where "ClassRootCause = ''ROOT_CAUSE''"
definition ClassContributingFactor :: Classification where
  "ClassContributingFactor = ''CONTRIBUTING_FACTOR''"
definition ClassSymptom :: Classification where "ClassSymptom = ''SYMPTOM''"
definition ClassMitigation :: Classification where "ClassMitigation = ''MITIGATION''"
definition ClassRecovery :: Classification where "ClassRecovery = ''RECOVERY''"
definition ClassNoise :: Classification where "ClassNoise = ''NOISE''"
definition ClassUnknown :: Classification where "ClassUnknown = ''UNKNOWN''"

definition AllClassifications :: "Classification list" where
  "AllClassifications = [ClassRootCause, ClassContributingFactor, ClassSymptom,
     ClassMitigation, ClassRecovery, ClassNoise, ClassUnknown]"

definition Classification_Valid :: "Classification \<Rightarrow> bool" where
  "Classification_Valid c = validEnum c AllClassifications"

definition ParseClassification :: "gostring \<Rightarrow> (InvalidEnumError, Classification) result" where
  "ParseClassification raw = parseEnum raw ''classification'' AllClassifications"

definition IsCausal :: "Classification \<Rightarrow> bool" where
  "IsCausal c \<longleftrightarrow> c = ClassRootCause \<or> c = ClassContributingFactor"

lemmas source_defs = AllSources_def SourceManual_def SourcePagerDuty_def SourceDatadog_def
  SourceSlack_def SourceSimulation_def

lemmas provider_defs = AllProviders_def ProviderPagerDuty_def ProviderDatadog_def ProviderSlack_def

lemmas severity_defs = AllSeverities_def SeverityP1_def SeverityP2_def SeverityP3_def SeverityP4_def

lemmas status_defs = AllIncidentStatuses_def StatusOpen_def StatusProcessing_def
  StatusAnalysisReady_def StatusResolved_def

lemmas class_defs = AllClassifications_def ClassRootCause_def ClassContributingFactor_def
  ClassSymptom_def ClassMitigation_def ClassRecovery_def ClassNoise_def ClassUnknown_def

subsection \<open>Incidents\<close>

record Incident =
  inc_ID :: uuid
  inc_TeamID :: uuid
  inc_ExternalID :: "gostring option"
  inc_Title :: gostring
  inc_Description :: gostring
  inc_Severity :: Severity
  inc_Status :: IncidentStatus
  inc_Source :: Source
  inc_StartedAt :: time
  inc_ResolvedAt :: "time option"
  inc_Embedding :: "f32 list"
  inc_Metadata :: "(gostring \<times> json) list option"
  inc_CreatedAt :: time
  inc_UpdatedAt :: time

definition Incident_Duration :: "Incident \<Rightarrow> duration \<times> bool" where
  "Incident_Duration i =
     (case inc_ResolvedAt i of
        None \<Rightarrow> (0, False)
      | Some t \<Rightarrow> (time_Sub t (inc_StartedAt i), True))"

definition Incident_IsOpen :: "Incident \<Rightarrow> bool" where
  "Incident_IsOpen i \<longleftrightarrow> inc_Status i \<noteq> StatusResolved"

definition maxIncidentTitleLen :: int where "maxIncidentTitleLen = 500"

definition Incident_Validate :: "Incident \<Rightarrow> ValidationError option" where
  "Incident_Validate i =
     (let v = new_validator;
          (title, v) = v_require ''title'' (inc_Title i) v;
          v = v_maxLen ''title'' title maxIncidentTitleLen v;
          v = enumField ''severity'' (inc_Severity i) AllSeverities v;
          v = enumField ''status'' (inc_Status i) AllIncidentStatuses v;
          v = enumField ''source'' (inc_Source i) AllSources v;
          v = v_check (inc_TeamID i = uuid_nil) ''team_id'' ''is required'' v;
          v = v_check (inc_StartedAt i = zero_time) ''started_at'' ''is required'' v;
          v = v_check (case inc_ResolvedAt i of None \<Rightarrow> False | Some t \<Rightarrow> t < inc_StartedAt i)
                ''resolved_at'' ''must not be before started_at'' v;
          v = v_check (case inc_ExternalID i of None \<Rightarrow> False | Some x \<Rightarrow> x = [])
                ''external_id'' ''must be absent rather than empty'' v
      in v_err v)"

text \<open>The incidents \<open>Validate\<close> accepts.\<close>

definition incident_ok :: "Incident \<Rightarrow> bool" where
  "incident_ok i \<longleftrightarrow>
     TrimSpace (inc_Title i) \<noteq> [] \<and> length (TrimSpace (inc_Title i)) \<le> 500
     \<and> Severity_Valid (inc_Severity i) \<and> IncidentStatus_Valid (inc_Status i)
     \<and> Source_Valid (inc_Source i)
     \<and> inc_TeamID i \<noteq> uuid_nil \<and> inc_StartedAt i \<noteq> zero_time
     \<and> (case inc_ResolvedAt i of None \<Rightarrow> True | Some t \<Rightarrow> inc_StartedAt i \<le> t)
     \<and> inc_ExternalID i \<noteq> Some []"

lemma Incident_Validate_None: "Incident_Validate i = None \<longleftrightarrow> incident_ok i"
  unfolding Incident_Validate_def Let_def case_prod_beta'
  by (auto simp: validate_simps maxIncidentTitleLen_def incident_ok_def Severity_Valid_def
      IncidentStatus_Valid_def Source_Valid_def split: option.splits)

subsection \<open>Events\<close>

record Event =
  ev_ID :: uuid
  ev_IncidentID :: uuid
  ev_Source :: Source
  ev_EventType :: gostring
  ev_Title :: gostring
  ev_Description :: gostring
  ev_Service :: gostring
  ev_OccurredAt :: time
  ev_RawPayload :: gostring
  ev_Classification :: Classification
  ev_CausalRank :: "int option"
  ev_CreatedAt :: time

definition maxEventTypeLen :: int where "maxEventTypeLen = 100"
definition maxEventTitle :: int where "maxEventTitle = 500"

definition Event_Validate :: "Event \<Rightarrow> ValidationError option" where
  "Event_Validate e =
     (let v = new_validator;
          (eventType, v) = v_require ''event_type'' (ev_EventType e) v;
          v = v_maxLen ''event_type'' eventType maxEventTypeLen v;
          (title, v) = v_require ''title'' (ev_Title e) v;
          v = v_maxLen ''title'' title maxEventTitle v;
          v = enumField ''source'' (ev_Source e) AllSources v;
          v = enumField ''classification'' (ev_Classification e) AllClassifications v;
          v = v_check (ev_IncidentID e = uuid_nil) ''incident_id'' ''is required'' v;
          v = v_check (ev_OccurredAt e = zero_time) ''occurred_at'' ''is required'' v;
          v = v_check (case ev_CausalRank e of None \<Rightarrow> False | Some k \<Rightarrow> k < 1)
                ''causal_rank'' ''must be positive when set'' v
      in v_err v)"

definition event_ok :: "Event \<Rightarrow> bool" where
  "event_ok e \<longleftrightarrow>
     TrimSpace (ev_EventType e) \<noteq> [] \<and> length (TrimSpace (ev_EventType e)) \<le> 100
     \<and> TrimSpace (ev_Title e) \<noteq> [] \<and> length (TrimSpace (ev_Title e)) \<le> 500
     \<and> Source_Valid (ev_Source e) \<and> Classification_Valid (ev_Classification e)
     \<and> ev_IncidentID e \<noteq> uuid_nil \<and> ev_OccurredAt e \<noteq> zero_time
     \<and> (case ev_CausalRank e of None \<Rightarrow> True | Some k \<Rightarrow> 1 \<le> k)"

lemma Event_Validate_None: "Event_Validate e = None \<longleftrightarrow> event_ok e"
  unfolding Event_Validate_def Let_def case_prod_beta'
  by (auto simp: validate_simps maxEventTypeLen_def maxEventTitle_def event_ok_def
      Source_Valid_def Classification_Valid_def split: option.splits)

definition event_lt :: "(uuid \<Rightarrow> gostring) \<Rightarrow> Event \<Rightarrow> Event \<Rightarrow> bool" where
  "event_lt ustr a b =
     (if ev_OccurredAt a \<noteq> ev_OccurredAt b then ev_OccurredAt a < ev_OccurredAt b
      else ustr (ev_ID a) < ustr (ev_ID b))"

definition SortEventsByTime :: "(uuid \<Rightarrow> gostring) \<Rightarrow> Event list \<Rightarrow> Event list" where
  "SortEventsByTime ustr events = sortSlice events (event_lt ustr)"

lemma weak_order_event_lt: "weak_order (event_lt ustr)"
  unfolding weak_order_def event_lt_def by (auto split: if_splits)

lemma SortEvents_sorted:
  "sorted_wrt (\<lambda>a b. \<not> event_lt ustr b a) (SortEventsByTime ustr es)"
  unfolding SortEventsByTime_def by (rule sorted_sortSlice) (rule weak_order_event_lt)

lemma SortEvents_chronological: "sorted (map ev_OccurredAt (SortEventsByTime ustr es))"
proof -
  have "sorted_wrt (\<lambda>a b. ev_OccurredAt a \<le> ev_OccurredAt b) (SortEventsByTime ustr es)"
    by (rule sorted_wrt_mono_rel [OF _ SortEvents_sorted]) (auto simp: event_lt_def split: if_splits)
  then show ?thesis by (simp add: sorted_wrt_map)
qed

text \<open>Two events with the same id are the same event of the collection.\<close>

lemma SortEvents_unique:
  assumes "mset xs = mset ys" and "distinct (map ev_ID xs)" and "inj_on ustr (ev_ID ` set xs)"
  shows "SortEventsByTime ustr xs = SortEventsByTime ustr ys"
proof (rule sorted_wrt_mset_unique [where R = "\<lambda>a b. \<not> event_lt ustr b a"])
  show "sorted_wrt (\<lambda>a b. \<not> event_lt ustr b a) (SortEventsByTime ustr xs)"
    and "sorted_wrt (\<lambda>a b. \<not> event_lt ustr b a) (SortEventsByTime ustr ys)"
    by (rule SortEvents_sorted)+
  show "mset (SortEventsByTime ustr xs) = mset (SortEventsByTime ustr ys)"
    using assms(1) by (simp add: SortEventsByTime_def)
  fix a b
  assume ab: "a \<in> set (SortEventsByTime ustr xs)" "b \<in> set (SortEventsByTime ustr xs)"
    and "\<not> event_lt ustr b a" "\<not> event_lt ustr a b"
  then have "ustr (ev_ID a) = ustr (ev_ID b)"
    by (auto simp: event_lt_def split: if_splits)
  moreover from ab have in_xs: "a \<in> set xs" "b \<in> set xs"
    by (simp_all add: SortEventsByTime_def)
  ultimately have "ev_ID a = ev_ID b"
    using assms(3) by (meson image_eqI inj_onD)
  then show "a = b"
    using in_xs assms(2) by (meson distinct_map inj_onD)
qed

end
