(* ===== verification/Models_Analysis.thy ===== *)
theory Models_Analysis
  imports Models_Incident
begin

text \<open>
  \<open>internal/models/analysis.go\<close>, \<open>internal/models/postmortem.go\<close> and
  \<open>internal/models/simulation.go\<close>: ranked hypotheses and their analysis, postmortems, and the
  simulator's scenarios, runs and scores. A confidence is a \<open>float32\<close> (\<open>f32\<close>), with NaN.
\<close>

subsection \<open>analysis.go\<close>

definition MaxHypotheses :: int where "MaxHypotheses = 3"

record RootCauseHypothesis =
  hyp_ID :: uuid
  hyp_AnalysisID :: uuid
  hyp_Rank :: int
  hyp_Cause :: gostring
  hyp_Confidence :: f32
  hyp_EvidenceEventIDs :: "uuid list"
  hyp_CreatedAt :: time

record IncidentAnalysis =
  an_ID :: uuid
  an_IncidentID :: uuid
  an_PredictedRootCause :: gostring
  an_Confidence :: f32
  an_ReasoningSummary :: gostring
  an_Model :: gostring
  an_PromptVersion :: gostring
  an_CreatedAt :: time
  an_Hypotheses :: "RootCauseHypothesis list"

definition zero_Hypothesis :: RootCauseHypothesis where
  "zero_Hypothesis = \<lparr>hyp_ID = 0, hyp_AnalysisID = 0, hyp_Rank = 0, hyp_Cause = [],
     hyp_Confidence = F32 0, hyp_EvidenceEventIDs = [], hyp_CreatedAt = 0\<rparr>"

text \<open>The loop of \<open>Top\<close>: \<open>best\<close> is the index of the best hypothesis so far, -1 before any.\<close>

fun top_loop :: "RootCauseHypothesis list \<Rightarrow> int \<Rightarrow> nat \<Rightarrow> RootCauseHypothesis list \<Rightarrow> int" where
  "top_loop hs best i [] = best"
| "top_loop hs best i (h # rest) =
     top_loop hs (if best = - 1 \<or> hyp_Rank h < hyp_Rank (hs ! nat best) then int i else best)
       (Suc i) rest"

definition Analysis_Top :: "IncidentAnalysis \<Rightarrow> RootCauseHypothesis \<times> bool" where
  "Analysis_Top a =
     (let best = top_loop (an_Hypotheses a) (- 1) 0 (an_Hypotheses a)
      in if best = - 1 then (zero_Hypothesis, False) else (an_Hypotheses a ! nat best, True))"

definition SortHypotheses :: "IncidentAnalysis \<Rightarrow> IncidentAnalysis" where
  "SortHypotheses a =
     a\<lparr>an_Hypotheses := sortSlice (an_Hypotheses a) (\<lambda>x y. hyp_Rank x < hyp_Rank y)\<rparr>"

definition validateConfidence :: "gostring \<Rightarrow> f32 \<Rightarrow> validator \<Rightarrow> validator" where
  "validateConfidence field value v =
     v_check (f32_lt value (F32 0) \<or> f32_lt (F32 1) value) field ''must be between 0 and 1'' v"

fun repeated_rank :: "(int \<Rightarrow> bool) \<Rightarrow> RootCauseHypothesis list \<Rightarrow> bool" where
  "repeated_rank seenRanks [] = False"
| "repeated_rank seenRanks (h # hs) =
     (if seenRanks (hyp_Rank h) then True else repeated_rank (seenRanks(hyp_Rank h := True)) hs)"

definition Analysis_Validate :: "IncidentAnalysis \<Rightarrow> ValidationError option" where
  "Analysis_Validate a =
     (let v = new_validator;
          (_, v) = v_require ''predicted_root_cause'' (an_PredictedRootCause a) v;
          (_, v) = v_require ''model'' (an_Model a) v;
          (_, v) = v_require ''prompt_version'' (an_PromptVersion a) v;
          v = v_check (an_IncidentID a = uuid_nil) ''incident_id'' ''is required'' v;
          v = validateConfidence ''confidence'' (an_Confidence a) v;
          v = v_check (int (length (an_Hypotheses a)) > MaxHypotheses)
                ''hypotheses'' ''must contain at most 3 entries'' v;
          v = v_check (repeated_rank (\<lambda>_. False) (an_Hypotheses a))
                ''hypotheses'' ''ranks must be distinct'' v
      in v_err v)"

fun has_nil_id :: "uuid list \<Rightarrow> bool" where
  "has_nil_id [] = False"
| "has_nil_id (i # is) = (if i = uuid_nil then True else has_nil_id is)"

definition Hypothesis_Validate :: "RootCauseHypothesis \<Rightarrow> ValidationError option" where
  "Hypothesis_Validate h =
     (let v = new_validator;
          (_, v) = v_require ''cause'' (hyp_Cause h) v;
          v = validateConfidence ''confidence'' (hyp_Confidence h) v;
          v = v_check (hyp_Rank h < 1 \<or> hyp_Rank h > MaxHypotheses)
                ''rank'' ''must be between 1 and 3'' v;
          v = v_check (has_nil_id (hyp_EvidenceEventIDs h))
                ''evidence_event_ids'' ''must not contain an empty id'' v
      in v_err v)"

definition confidence_ok :: "f32 \<Rightarrow> bool" where
  "confidence_ok c \<longleftrightarrow> \<not> f32_lt c (F32 0) \<and> \<not> f32_lt (F32 1) c"

lemma confidence_ok_cases:
  "confidence_ok c \<longleftrightarrow> c = F32_NaN \<or> (\<exists>q. c = F32 q \<and> 0 \<le> q \<and> q \<le> 1)"
  by (cases c) (auto simp: confidence_ok_def)

lemma issues_confidence [validate_simps]:
  "issues (validateConfidence f c v) = issues v @ issue (\<not> confidence_ok c) f ''must be between 0 and 1''"
  by (auto simp: validateConfidence_def confidence_ok_def issues_add issue_def)

lemma repeated_rank_iff:
  "repeated_rank seen hs \<longleftrightarrow> \<not> distinct (map hyp_Rank hs) \<or> (\<exists>h \<in> set hs. seen (hyp_Rank h))"
  by (induction hs arbitrary: seen) (auto, metis image_eqI)

lemma has_nil_id_iff: "has_nil_id ids \<longleftrightarrow> uuid_nil \<in> set ids"
  by (induction ids) auto

lemma Analysis_Validate_None:
  "Analysis_Validate a = None \<longleftrightarrow>
     TrimSpace (an_PredictedRootCause a) \<noteq> [] \<and> TrimSpace (an_Model a) \<noteq> []
     \<and> TrimSpace (an_PromptVersion a) \<noteq> [] \<and> an_IncidentID a \<noteq> uuid_nil
     \<and> confidence_ok (an_Confidence a) \<and> length (an_Hypotheses a) \<le> 3
     \<and> distinct (map hyp_Rank (an_Hypotheses a))"
  unfolding Analysis_Validate_def Let_def case_prod_beta'
  by (auto simp: validate_simps MaxHypotheses_def repeated_rank_iff)

lemma Hypothesis_Validate_None:
  "Hypothesis_Validate h = None \<longleftrightarrow>
     TrimSpace (hyp_Cause h) \<noteq> [] \<and> confidence_ok (hyp_Confidence h)
     \<and> 1 \<le> hyp_Rank h \<and> hyp_Rank h \<le> 3 \<and> uuid_nil \<notin> set (hyp_EvidenceEventIDs h)"
  unfolding Hypothesis_Validate_def Let_def case_prod_beta'
  by (auto simp: validate_simps MaxHypotheses_def has_nil_id_iff)

text \<open>\<open>Top\<close> finds the first hypothesis of least rank, which is what sorting puts first.\<close>

lemma top_loop_least:
  assumes "b < length hs" and "i \<le> length hs" and "rest = drop i hs"
    and "\<forall>j < i. hyp_Rank (hs ! b) \<le> hyp_Rank (hs ! j)" and "\<forall>j < b. hyp_Rank (hs ! b) < hyp_Rank (hs ! j)"
  shows "\<exists>k < length hs. top_loop hs (int b) i rest = int k
    \<and> (\<forall>j < length hs. hyp_Rank (hs ! k) \<le> hyp_Rank (hs ! j))
    \<and> (\<forall>j < k. hyp_Rank (hs ! k) < hyp_Rank (hs ! j))"
  using assms
proof (induction rest arbitrary: b i)
  case Nil
  then show ?case by auto
next
  case (Cons h rest)
  then have i: "i < length hs" by (metis drop_eq_Nil2 leI list.distinct(1))
  with Cons.prems(3) have h: "h = hs ! i" and rest: "rest = drop (Suc i) hs"
    by (simp_all add: Cons_nth_drop_Suc [symmetric])
  show ?case
  proof (cases "hyp_Rank h < hyp_Rank (hs ! b)")
    case True
    with Cons.prems(4) h have lt: "\<forall>j < i. hyp_Rank (hs ! i) < hyp_Rank (hs ! j)" by fastforce
    then have "\<forall>j < Suc i. hyp_Rank (hs ! i) \<le> hyp_Rank (hs ! j)"
      by (auto simp: less_Suc_eq intro: less_imp_le)
    with Cons.IH [of i "Suc i"] i rest lt True show ?thesis by simp
  next
    case False
    with Cons.prems(4) h have "\<forall>j < Suc i. hyp_Rank (hs ! b) \<le> hyp_Rank (hs ! j)"
      by (auto simp: less_Suc_eq)
    with Cons.IH [of b "Suc i"] Cons.prems(1,5) i rest False show ?thesis by simp
  qed
qed

lemma Top_first_least:
  assumes "an_Hypotheses a \<noteq> []"
  shows "\<exists>k < length (an_Hypotheses a). Analysis_Top a = (an_Hypotheses a ! k, True)
    \<and> (\<forall>j < length (an_Hypotheses a). hyp_Rank (an_Hypotheses a ! k) \<le> hyp_Rank (an_Hypotheses a ! j))
    \<and> (\<forall>j < k. hyp_Rank (an_Hypotheses a ! k) < hyp_Rank (an_Hypotheses a ! j))"
proof -
  define hs where "hs = an_Hypotheses a"
  obtain h rest where hs: "hs = h # rest" using assms by (cases hs) (auto simp: hs_def)
  have "top_loop hs (- 1) 0 hs = top_loop hs (int 0) 1 (drop 1 hs)" by (simp add: hs)
  moreover have "\<exists>k < length hs. top_loop hs (int 0) 1 (drop 1 hs) = int k
    \<and> (\<forall>j < length hs. hyp_Rank (hs ! k) \<le> hyp_Rank (hs ! j))
    \<and> (\<forall>j < k. hyp_Rank (hs ! k) < hyp_Rank (hs ! j))"
    by (rule top_loop_least) (simp_all add: hs)
  ultimately show ?thesis by (auto simp: Analysis_Top_def hs_def [symmetric] Let_def)
qed

lemma weak_order_rank: "weak_order (\<lambda>x y. hyp_Rank x < hyp_Rank y)"
  by (auto simp: weak_order_def)

lemma SortHypotheses_sorted: "sorted (map hyp_Rank (an_Hypotheses (SortHypotheses a)))"
proof -
  have "sorted_wrt (\<lambda>x y. \<not> hyp_Rank y < hyp_Rank x) (an_Hypotheses (SortHypotheses a))"
    by (simp add: SortHypotheses_def sorted_sortSlice [OF weak_order_rank])
  then show ?thesis by (simp add: sorted_wrt_map not_less)
qed

lemma hd_filter_first:
  assumes "k < length xs" and "P (xs ! k)" and "\<forall>j < k. \<not> P (xs ! j)"
  shows "filter P xs \<noteq> [] \<and> hd (filter P xs) = xs ! k"
proof -
  have "filter P (take k xs) = []"
    using assms by (auto simp: filter_empty_conv in_set_conv_nth)
  moreover have "xs = take k xs @ xs ! k # drop (Suc k) xs"
    using assms(1) by (rule id_take_nth_drop)
  ultimately have "filter P xs = xs ! k # filter P (drop (Suc k) xs)"
    using assms(2) by (metis append_Nil filter.simps(2) filter_append)
  then show ?thesis by simp
qed

lemma Top_eq_hd_sorted:
  assumes "an_Hypotheses a \<noteq> []"
  shows "Analysis_Top a = (hd (an_Hypotheses (SortHypotheses a)), True)"
proof -
  define hs ss where "hs = an_Hypotheses a" and "ss = an_Hypotheses (SortHypotheses a)"
  obtain k where k: "k < length hs" "Analysis_Top a = (hs ! k, True)"
    "\<forall>j < length hs. hyp_Rank (hs ! k) \<le> hyp_Rank (hs ! j)"
    "\<forall>j < k. hyp_Rank (hs ! k) < hyp_Rank (hs ! j)"
    using Top_first_least [OF assms] unfolding hs_def by blast
  define P where "P h \<longleftrightarrow> hyp_Rank h = hyp_Rank (hs ! k)" for h :: RootCauseHypothesis
  have same: "filter P ss = filter P hs"
    unfolding ss_def SortHypotheses_def hs_def
    by (simp, rule filter_sortSlice) (simp add: P_def)
  have first: "filter P hs \<noteq> [] \<and> hd (filter P hs) = hs ! k"
    by (rule hd_filter_first) (use k in \<open>auto simp: P_def\<close>)
  have "ss \<noteq> []" using first same by force
  then obtain s rest where ss: "ss = s # rest" by (cases ss) auto
  have set_ss: "set ss = set hs" by (simp add: ss_def hs_def SortHypotheses_def)
  have "hyp_Rank s \<le> hyp_Rank (hs ! k)"
    using SortHypotheses_sorted [of a] set_ss k(1) unfolding ss_def [symmetric] ss
    by (metis image_eqI list.set_map list.simps(9) nth_mem set_ConsD sorted_simps(2) order_refl)
  moreover have "hyp_Rank (hs ! k) \<le> hyp_Rank s"
    using set_ss ss k(3) by (metis in_set_conv_nth list.set_intros(1))
  ultimately have "P s" by (simp add: P_def)
  then have "hd (filter P ss) = s" by (simp add: ss)
  with first same k(2) ss show ?thesis by (simp add: ss_def)
qed

subsection \<open>postmortem.go\<close>

record ActionItem =
  ai_Description :: gostring
  ai_Owner :: gostring

record Postmortem =
  pm_ID :: uuid
  pm_IncidentID :: uuid
  pm_ExecutiveSummary :: gostring
  pm_Impact :: gostring
  pm_RootCause :: gostring
  pm_TimelineMD :: gostring
  pm_ContributingFactors :: "gostring list"
  pm_ActionItems :: "ActionItem list"
  pm_Uncertainties :: "gostring list"
  pm_GeneratedAt :: time
  pm_UpdatedAt :: time

fun undescribed_item :: "ActionItem list \<Rightarrow> bool" where
  "undescribed_item [] = False"
| "undescribed_item (item # items) =
     (if ai_Description item = [] then True else undescribed_item items)"

definition Postmortem_Validate :: "Postmortem \<Rightarrow> ValidationError option" where
  "Postmortem_Validate p =
     (let v = new_validator;
          v = v_check (pm_IncidentID p = uuid_nil) ''incident_id'' ''is required'' v;
          v = v_check (pm_ExecutiveSummary p = [] \<and> pm_RootCause p = [] \<and> pm_Impact p = [])
                ''executive_summary'' ''at least one section must be filled in'' v;
          v = v_check (undescribed_item (pm_ActionItems p))
                ''action_items'' ''every action item needs a description'' v
      in v_err v)"

lemma undescribed_item_iff: "undescribed_item items \<longleftrightarrow> (\<exists>i \<in> set items. ai_Description i = [])"
  by (induction items) auto

lemma Postmortem_Validate_None:
  "Postmortem_Validate p = None \<longleftrightarrow>
     pm_IncidentID p \<noteq> uuid_nil
     \<and> (pm_ExecutiveSummary p \<noteq> [] \<or> pm_RootCause p \<noteq> [] \<or> pm_Impact p \<noteq> [])
     \<and> (\<forall>i \<in> set (pm_ActionItems p). ai_Description i \<noteq> [])"
  unfolding Postmortem_Validate_def Let_def
  by (auto simp: validate_simps undescribed_item_iff)

end
