(* ===== verification/Models_Simulation.thy ===== *)
theory Models_Simulation
  imports Models_Analysis
begin

text \<open>
  \<open>internal/models/simulation.go\<close>: the allowlisted fault actions, scenarios, runs and
  evaluation results. \<open>SimulationScenario.Validate\<close> folds the issues of its configuration into
  its own under a prefixed field name, so one error lists them all.
\<close>

type_synonym FaultAction = gostring

definition FaultAddLatency :: FaultAction where "FaultAddLatency = ''ADD_LATENCY''"
definition FaultReturnErrors :: FaultAction where "FaultReturnErrors = ''RETURN_ERRORS''"
definition FaultStopDependency :: FaultAction where "FaultStopDependency = ''STOP_DEPENDENCY''"
definition FaultExhaustDBPool :: FaultAction where "FaultExhaustDBPool = ''EXHAUST_DB_POOL''"
definition FaultSlowWorker :: FaultAction where "FaultSlowWorker = ''SLOW_WORKER''"
definition FaultBadDeployment :: FaultAction where "FaultBadDeployment = ''BAD_DEPLOYMENT''"

definition AllFaultActions :: "FaultAction list" where
  "AllFaultActions = [FaultAddLatency, FaultReturnErrors, FaultStopDependency,
     FaultExhaustDBPool, FaultSlowWorker, FaultBadDeployment]"

definition FaultAction_Valid :: "FaultAction \<Rightarrow> bool" where
  "FaultAction_Valid f = validEnum f AllFaultActions"

definition ParseFaultAction :: "gostring \<Rightarrow> (InvalidEnumError, FaultAction) result" where
  "ParseFaultAction raw = parseEnum raw ''fault action'' AllFaultActions"

record ScenarioConfig =
  sc_Target :: gostring
  sc_Fault :: FaultAction
  sc_Parameters :: "(gostring \<times> json) list"

definition ScenarioConfig_Validate :: "ScenarioConfig \<Rightarrow> ValidationError option" where
  "ScenarioConfig_Validate c =
     (let v = new_validator;
          (_, v) = v_require ''target'' (sc_Target c) v;
          v = enumField ''fault'' (sc_Fault c) AllFaultActions v
      in v_err v)"

record SimulationScenario =
  scn_ID :: uuid
  scn_Name :: gostring
  scn_Category :: gostring
  scn_Description :: gostring
  scn_RootCause :: gostring
  scn_Config :: ScenarioConfig
  scn_CreatedAt :: time

type_synonym RunStatus = gostring

definition RunPending :: RunStatus where "RunPending = ''pending''"
definition RunRunning :: RunStatus where "RunRunning = ''running''"
definition RunAnalyzing :: RunStatus where "RunAnalyzing = ''analyzing''"
definition RunCompleted :: RunStatus where "RunCompleted = ''completed''"
definition RunFailed :: RunStatus where "RunFailed = ''failed''"

definition AllRunStatuses :: "RunStatus list" where
  "AllRunStatuses = [RunPending, RunRunning, RunAnalyzing, RunCompleted, RunFailed]"

definition RunStatus_Valid :: "RunStatus \<Rightarrow> bool" where
  "RunStatus_Valid s = validEnum s AllRunStatuses"

definition ParseRunStatus :: "gostring \<Rightarrow> (InvalidEnumError, RunStatus) result" where
  "ParseRunStatus raw = parseEnum raw ''run status'' AllRunStatuses"

definition RunStatus_Terminal :: "RunStatus \<Rightarrow> bool" where
  "RunStatus_Terminal s \<longleftrightarrow> s = RunCompleted \<or> s = RunFailed"

record GroundTruth =
  gt_RootCause :: gostring
  gt_CausalEventIDs :: "uuid list"
  gt_NoiseEventIDs :: "uuid list"
  gt_NoiseLevel :: f32

record SimulationRun =
  run_ID :: uuid
  run_ScenarioID :: uuid
  run_TeamID :: uuid
  run_IncidentID :: "uuid option"
  run_Status :: RunStatus
  run_StartedAt :: "time option"
  run_CompletedAt :: "time option"
  run_GroundTruth :: GroundTruth
  run_CreatedAt :: time

record EvaluationResult =
  er_ID :: uuid
  er_SimulationRunID :: uuid
  er_RootCauseCorrect :: bool
  er_RootCauseRank :: "int option"
  er_CausalPrecision :: "f32 option"
  er_CausalRecall :: "f32 option"
  er_NoiseAccuracy :: "f32 option"
  er_DiagnosisLatencyMS :: int
  er_CreatedAt :: time

definition maxScenarioNameLen :: int where "maxScenarioNameLen = 200"

text \<open>The loop over the configuration's issues.\<close>

fun add_config_issues :: "FieldIssue list \<Rightarrow> validator \<Rightarrow> validator" where
  "add_config_issues [] v = v"
| "add_config_issues (i # is) v =
     add_config_issues is (v_add (''scenario_config.'' @ fi_Field i) (fi_Message i) v)"

definition Scenario_Validate :: "SimulationScenario \<Rightarrow> ValidationError option" where
  "Scenario_Validate s =
     (let v = new_validator;
          (name, v) = v_require ''name'' (scn_Name s) v;
          v = v_maxLen ''name'' name maxScenarioNameLen v;
          (_, v) = v_require ''category'' (scn_Category s) v;
          (_, v) = v_require ''root_cause'' (scn_RootCause s) v;
          v = (case ScenarioConfig_Validate (scn_Config s) of
                 None \<Rightarrow> v
               | Some configErr \<Rightarrow> add_config_issues (ve_Issues configErr) v)
      in v_err v)"

definition Run_Validate :: "SimulationRun \<Rightarrow> ValidationError option" where
  "Run_Validate r =
     (let v = new_validator;
          v = enumField ''status'' (run_Status r) AllRunStatuses v;
          v = v_check (run_ScenarioID r = uuid_nil) ''scenario_id'' ''is required'' v;
          v = v_check (run_TeamID r = uuid_nil) ''team_id'' ''is required'' v;
          v = (case run_CompletedAt r of
                 None \<Rightarrow> v
               | Some c \<Rightarrow> (case run_StartedAt r of
                   None \<Rightarrow> v_add ''completed_at'' ''cannot be set before started_at'' v
                 | Some st \<Rightarrow> v_check (c < st) ''completed_at'' ''must not be before started_at'' v))
      in v_err v)"

fun validate_metrics :: "(gostring \<times> f32 option) list \<Rightarrow> validator \<Rightarrow> validator" where
  "validate_metrics [] v = v"
| "validate_metrics ((field, value) # ms) v =
     validate_metrics ms (case value of None \<Rightarrow> v | Some x \<Rightarrow> validateConfidence field x v)"

definition Evaluation_Validate :: "EvaluationResult \<Rightarrow> ValidationError option" where
  "Evaluation_Validate e =
     (let v = new_validator;
          v = v_check (er_SimulationRunID e = uuid_nil) ''simulation_run_id'' ''is required'' v;
          v = v_check (case er_RootCauseRank e of None \<Rightarrow> False | Some k \<Rightarrow> k < 1)
                ''root_cause_rank'' ''must be positive when set'' v;
          v = v_check (er_DiagnosisLatencyMS e < 0) ''diagnosis_latency_ms'' ''must not be negative'' v;
          v = validate_metrics
                [(''causal_precision'', er_CausalPrecision e),
                 (''causal_recall'', er_CausalRecall e),
                 (''noise_accuracy'', er_NoiseAccuracy e)] v
      in v_err v)"

definition prefix_issue :: "FieldIssue \<Rightarrow> FieldIssue" where
  "prefix_issue i = \<lparr>fi_Field = ''scenario_config.'' @ fi_Field i, fi_Message = fi_Message i\<rparr>"

lemma issues_add_config:
  "issues (add_config_issues is v) = issues v @ map prefix_issue is"
  by (induction "is" arbitrary: v) (auto simp: validate_simps prefix_issue_def)

lemma ScenarioConfig_Validate_None:
  "ScenarioConfig_Validate c = None \<longleftrightarrow> TrimSpace (sc_Target c) \<noteq> [] \<and> FaultAction_Valid (sc_Fault c)"
  unfolding ScenarioConfig_Validate_def Let_def case_prod_beta'
  by (auto simp: validate_simps FaultAction_Valid_def)

lemma reported_Scenario:
  "reported (Scenario_Validate s) =
     issue (TrimSpace (scn_Name s) = []) ''name'' ''is required''
     @ issue (200 < length (TrimSpace (scn_Name s))) ''name''
         (''must be at most '' @ show_int 200 @ '' characters'')
     @ issue (TrimSpace (scn_Category s) = []) ''category'' ''is required''
     @ issue (TrimSpace (scn_RootCause s) = []) ''root_cause'' ''is required''
     @ map prefix_issue (reported (ScenarioConfig_Validate (scn_Config s)))"
proof (cases "ScenarioConfig_Validate (scn_Config s)")
  case None
  then show ?thesis
    unfolding Scenario_Validate_def Let_def case_prod_beta'
    by (simp add: validate_simps maxScenarioNameLen_def reported_def [of None])
next
  case (Some e)
  then show ?thesis
    unfolding Scenario_Validate_def Let_def case_prod_beta'
    by (simp add: validate_simps maxScenarioNameLen_def issues_add_config reported_def [of "Some e"])
qed

lemma reported_empty_iff: "(\<And>ve. e = Some ve \<Longrightarrow> ve_Issues ve \<noteq> []) \<Longrightarrow> reported e = [] \<longleftrightarrow> e = None"
  by (cases e) (auto simp: reported_def)

lemma Scenario_Validate_None:
  "Scenario_Validate s = None \<longleftrightarrow>
     TrimSpace (scn_Name s) \<noteq> [] \<and> length (TrimSpace (scn_Name s)) \<le> 200
     \<and> TrimSpace (scn_Category s) \<noteq> [] \<and> TrimSpace (scn_RootCause s) \<noteq> []
     \<and> ScenarioConfig_Validate (scn_Config s) = None"
proof -
  have "Scenario_Validate s = None \<longleftrightarrow> reported (Scenario_Validate s) = []"
    by (rule reported_empty_iff [symmetric]) (auto simp: Scenario_Validate_def Let_def v_err_Some case_prod_beta')
  moreover have "ScenarioConfig_Validate c = None \<longleftrightarrow> reported (ScenarioConfig_Validate c) = []" for c
    by (rule reported_empty_iff [symmetric]) (auto simp: ScenarioConfig_Validate_def Let_def v_err_Some case_prod_beta')
  ultimately show ?thesis by (auto simp: reported_Scenario)
qed

lemma Run_Validate_None:
  "Run_Validate r = None \<longleftrightarrow>
     RunStatus_Valid (run_Status r) \<and> run_ScenarioID r \<noteq> uuid_nil \<and> run_TeamID r \<noteq> uuid_nil
     \<and> (\<forall>c. run_CompletedAt r = Some c \<longrightarrow> (\<exists>st. run_StartedAt r = Some st \<and> st \<le> c))"
  unfolding Run_Validate_def Let_def
  by (auto simp: validate_simps RunStatus_Valid_def split: option.splits)

definition metric_ok :: "f32 option \<Rightarrow> bool" where
  "metric_ok m = (case m of None \<Rightarrow> True | Some x \<Rightarrow> confidence_ok x)"

lemma issues_metrics [validate_simps]:
  "issues (case m of None \<Rightarrow> v | Some x \<Rightarrow> validateConfidence f x v)
     = issues v @ issue (\<not> metric_ok m) f ''must be between 0 and 1''"
  by (simp add: metric_ok_def validate_simps split: option.split)

lemma Evaluation_Validate_None:
  "Evaluation_Validate e = None \<longleftrightarrow>
     er_SimulationRunID e \<noteq> uuid_nil
     \<and> (case er_RootCauseRank e of None \<Rightarrow> True | Some k \<Rightarrow> 1 \<le> k)
     \<and> 0 \<le> er_DiagnosisLatencyMS e
     \<and> metric_ok (er_CausalPrecision e) \<and> metric_ok (er_CausalRecall e)
     \<and> metric_ok (er_NoiseAccuracy e)"
  unfolding Evaluation_Validate_def Let_def v_err_None
  by (simp add: validate_simps not_less split: option.split)

end
