(* ===== verification/Model_Properties.thy ===== *)
theory Model_Properties
  imports Models_Simulation "HOL-Library.Sublist"
begin

text \<open>
  What the domain models promise: validation reports every broken rule and nothing else, in order;
  the orders that the AI stages see do not depend on the order of arrival; an address is valid
  exactly when it has the shape of one.
\<close>

subsection \<open>Validation, rule by rule\<close>

text \<open>A rule is the field it is about and whether it is broken; \<open>broken\<close> lists the fields of the broken ones.\<close>

definition broken :: "(gostring \<times> bool) list \<Rightarrow> gostring list" where
  "broken rules = map fst (filter snd rules)"

lemma broken_simps [simp]:
  "broken [] = []" "broken ((f, b) # rules) = (if b then [f] else []) @ broken rules"
  by (simp_all add: broken_def)

lemma field_issue: "map fi_Field (issue b f m) = (if b then [f] else [])"
  by (simp add: issue_def)

definition incident_rules :: "Incident \<Rightarrow> (gostring \<times> bool) list" where
  "incident_rules i =
     [(''title'', TrimSpace (inc_Title i) = []), (''title'', 500 < length (TrimSpace (inc_Title i))),
      (''severity'', inc_Severity i \<notin> {''P1'', ''P2'', ''P3'', ''P4''}),
      (''status'', inc_Status i \<notin> {''open'', ''processing'', ''analysis_ready'', ''resolved''}),
      (''source'', inc_Source i \<notin> {''manual'', ''pagerduty'', ''datadog'', ''slack'', ''simulation''}),
      (''team_id'', inc_TeamID i = uuid_nil), (''started_at'', inc_StartedAt i = zero_time),
      (''resolved_at'', \<exists>t. inc_ResolvedAt i = Some t \<and> t < inc_StartedAt i),
      (''external_id'', inc_ExternalID i = Some [])]"

definition event_rules :: "Event \<Rightarrow> (gostring \<times> bool) list" where
  "event_rules e =
     [(''event_type'', TrimSpace (ev_EventType e) = []), (''event_type'', 100 < length (TrimSpace (ev_EventType e))),
      (''title'', TrimSpace (ev_Title e) = []), (''title'', 500 < length (TrimSpace (ev_Title e))),
      (''source'', ev_Source e \<notin> {''manual'', ''pagerduty'', ''datadog'', ''slack'', ''simulation''}),
      (''classification'', ev_Classification e \<notin> {''ROOT_CAUSE'', ''CONTRIBUTING_FACTOR'', ''SYMPTOM'',
         ''MITIGATION'', ''RECOVERY'', ''NOISE'', ''UNKNOWN''}),
      (''incident_id'', ev_IncidentID e = uuid_nil), (''occurred_at'', ev_OccurredAt e = zero_time),
      (''causal_rank'', \<exists>k. ev_CausalRank e = Some k \<and> k < 1)]"

lemma Incident_reported: "map fi_Field (reported (Incident_Validate i)) = broken (incident_rules i)"
proof -
  have "(case inc_ResolvedAt i of None \<Rightarrow> False | Some t \<Rightarrow> t < inc_StartedAt i)
      \<longleftrightarrow> (\<exists>t. inc_ResolvedAt i = Some t \<and> t < inc_StartedAt i)"
    and "(case inc_ExternalID i of None \<Rightarrow> False | Some x \<Rightarrow> x = []) \<longleftrightarrow> inc_ExternalID i = Some []"
    by (auto split: option.split)
  then show ?thesis
    unfolding Incident_Validate_def Let_def case_prod_beta'
    by (simp add: validate_simps field_issue incident_rules_def maxIncidentTitleLen_def
        severity_defs status_defs source_defs)
qed

lemma Event_reported: "map fi_Field (reported (Event_Validate e)) = broken (event_rules e)"
proof -
  have "(case ev_CausalRank e of None \<Rightarrow> False | Some k \<Rightarrow> k < 1) \<longleftrightarrow> (\<exists>k. ev_CausalRank e = Some k \<and> k < 1)"
    by (auto split: option.split)
  then show ?thesis
    unfolding Event_Validate_def Let_def case_prod_beta'
    by (simp add: validate_simps field_issue event_rules_def maxEventTypeLen_def maxEventTitle_def
        source_defs class_defs)
qed

text \<open>
  C26. Validating an incident reports the broken rules, all of them, each once, in the order of the
  fields, and reports no other; validating an event likewise.
\<close>

lemma validation_reports_exactly:
  "map fi_Field (reported (Incident_Validate i)) = broken (incident_rules i)
   \<and> map fi_Field (reported (Event_Validate e)) = broken (event_rules e)
   \<and> (Incident_Validate i = None \<longleftrightarrow> broken (incident_rules i) = [])
   \<and> (Event_Validate e = None \<longleftrightarrow> broken (event_rules e) = [])"
proof -
  have none: "x = None \<longleftrightarrow> map fi_Field (reported x) = []" if "x = v_err v" for x v
    using that by (simp add: validate_simps)
  have "\<exists>v. Incident_Validate i = v_err v" "\<exists>v. Event_Validate e = v_err v"
    by (simp_all add: Incident_Validate_def Event_Validate_def Let_def case_prod_beta') blast+
  then show ?thesis
    using Incident_reported Event_reported none by metis
qed

subsection \<open>The order of events and hypotheses\<close>

text \<open>
  C31. Sorting the events of an incident rearranges them by time, ties by the text of the id, and the
  result does not depend on the order in which they arrive.
\<close>

lemma event_order_canonical:
  assumes "distinct (map ev_ID es)" and "inj_on ustr (ev_ID ` set es)" and "mset es' = mset es"
  shows "SortEventsByTime ustr es' = SortEventsByTime ustr es
    \<and> mset (SortEventsByTime ustr es) = mset es
    \<and> sorted_wrt (\<lambda>a b. ev_OccurredAt a < ev_OccurredAt b
        \<or> ev_OccurredAt a = ev_OccurredAt b \<and> ustr (ev_ID a) \<le> ustr (ev_ID b)) (SortEventsByTime ustr es)"
proof (intro conjI)
  show "SortEventsByTime ustr es' = SortEventsByTime ustr es"
    using SortEvents_unique [OF assms(3) [symmetric] assms(1,2)] by simp
  show "mset (SortEventsByTime ustr es) = mset es" by (simp add: SortEventsByTime_def)
  show "sorted_wrt (\<lambda>a b. ev_OccurredAt a < ev_OccurredAt b
      \<or> ev_OccurredAt a = ev_OccurredAt b \<and> ustr (ev_ID a) \<le> ustr (ev_ID b)) (SortEventsByTime ustr es)"
    by (rule sorted_wrt_mono_rel [OF _ SortEvents_sorted]) (auto simp: event_lt_def split: if_splits)
qed

definition sample_event :: "uuid \<Rightarrow> time \<Rightarrow> Event" where
  "sample_event i t = \<lparr>ev_ID = i, ev_IncidentID = 9, ev_Source = ''slack'', ev_EventType = ''alert'',
     ev_Title = ''disk'', ev_Description = [], ev_Service = [], ev_OccurredAt = t, ev_RawPayload = [],
     ev_Classification = ''UNKNOWN'', ev_CausalRank = None, ev_CreatedAt = 0\<rparr>"

lemma event_order_canonical_witness:
  "SortEventsByTime (\<lambda>u. if u = 1 then ''a'' else if u = 2 then ''b'' else ''c'')
       [sample_event 2 5, sample_event 1 5, sample_event 3 4] =
     SortEventsByTime (\<lambda>u. if u = 1 then ''a'' else if u = 2 then ''b'' else ''c'')
       [sample_event 3 4, sample_event 1 5, sample_event 2 5]"
proof -
  define es where "es = [sample_event 3 4, sample_event 1 5, sample_event 2 5]"
  define ustr where "ustr = (\<lambda>u :: uuid. if u = 1 then ''a'' else if u = 2 then ''b'' else ''c'')"
  have "distinct (map ev_ID es)" "inj_on ustr (ev_ID ` set es)"
    "mset [sample_event 2 5, sample_event 1 5, sample_event 3 4] = mset es"
    by (simp_all add: es_def ustr_def sample_event_def)
  from event_order_canonical [OF this] show ?thesis unfolding es_def ustr_def by (rule conjunct1)
qed

text \<open>
  The leading hypothesis of an analysis is the first one once they are sorted by rank, that is
  the earliest of those with the best rank; sorting loses and adds none.
\<close>

lemma top_is_first_of_sorted:
  "Analysis_Top a = (case an_Hypotheses (SortHypotheses a) of [] \<Rightarrow> (zero_Hypothesis, False) | h # _ \<Rightarrow> (h, True))
   \<and> mset (an_Hypotheses (SortHypotheses a)) = mset (an_Hypotheses a)
   \<and> sorted (map hyp_Rank (an_Hypotheses (SortHypotheses a)))
   \<and> filter (\<lambda>h. hyp_Rank h = k) (an_Hypotheses (SortHypotheses a)) = filter (\<lambda>h. hyp_Rank h = k) (an_Hypotheses a)"
proof (intro conjI)
  show m: "mset (an_Hypotheses (SortHypotheses a)) = mset (an_Hypotheses a)" by (simp add: SortHypotheses_def)
  show "Analysis_Top a = (case an_Hypotheses (SortHypotheses a) of [] \<Rightarrow> (zero_Hypothesis, False) | h # _ \<Rightarrow> (h, True))"
  proof (cases "an_Hypotheses a = []")
    case True
    with m show ?thesis by (simp add: Analysis_Top_def)
  next
    case False
    with m obtain h hs where "an_Hypotheses (SortHypotheses a) = h # hs"
      by (metis list.exhaust mset_zero_iff)
    with Top_eq_hd_sorted [OF False] show ?thesis by simp
  qed
  show "filter (\<lambda>h. hyp_Rank h = k) (an_Hypotheses (SortHypotheses a)) = filter (\<lambda>h. hyp_Rank h = k) (an_Hypotheses a)"
    unfolding SortHypotheses_def by (simp, rule filter_sortSlice, simp)
qed (rule SortHypotheses_sorted)

subsection \<open>Analyses, simulations, addresses\<close>

text \<open>
  An analysis is accepted exactly when its texts are there, it belongs to an incident, it has at
  most three hypotheses of distinct ranks, and its confidence is a number from 0 to 1 or not a number
  at all; a hypothesis likewise, with a rank from 1 to 3 and no empty evidence id.
\<close>

lemma analyses_accepted:
  "(Analysis_Validate a = None \<longleftrightarrow>
      TrimSpace (an_PredictedRootCause a) \<noteq> [] \<and> TrimSpace (an_Model a) \<noteq> [] \<and> TrimSpace (an_PromptVersion a) \<noteq> []
      \<and> an_IncidentID a \<noteq> uuid_nil \<and> length (an_Hypotheses a) \<le> 3 \<and> distinct (map hyp_Rank (an_Hypotheses a))
      \<and> (an_Confidence a = F32_NaN \<or> (\<exists>q. an_Confidence a = F32 q \<and> 0 \<le> q \<and> q \<le> 1)))
   \<and> (Hypothesis_Validate h = None \<longleftrightarrow>
      TrimSpace (hyp_Cause h) \<noteq> [] \<and> 1 \<le> hyp_Rank h \<and> hyp_Rank h \<le> 3
      \<and> uuid_nil \<notin> set (hyp_EvidenceEventIDs h)
      \<and> (hyp_Confidence h = F32_NaN \<or> (\<exists>q. hyp_Confidence h = F32 q \<and> 0 \<le> q \<and> q \<le> 1)))"
  unfolding Analysis_Validate_None Hypothesis_Validate_None confidence_ok_cases by auto

definition run_rules :: "SimulationRun \<Rightarrow> (gostring \<times> bool) list" where
  "run_rules r =
     [(''status'', run_Status r \<notin> {''pending'', ''running'', ''analyzing'', ''completed'', ''failed''}),
      (''scenario_id'', run_ScenarioID r = uuid_nil), (''team_id'', run_TeamID r = uuid_nil),
      (''completed_at'', \<exists>c. run_CompletedAt r = Some c \<and>
         (run_StartedAt r = None \<or> (\<exists>st. run_StartedAt r = Some st \<and> c < st)))]"

lemma Run_reported: "map fi_Field (reported (Run_Validate r)) = broken (run_rules r)"
proof -
  have "map fi_Field (issues (case run_CompletedAt r of
            None \<Rightarrow> v
          | Some c \<Rightarrow> (case run_StartedAt r of
              None \<Rightarrow> v_add ''completed_at'' ''cannot be set before started_at'' v
            | Some st \<Rightarrow> v_check (c < st) ''completed_at'' ''must not be before started_at'' v))) =
      map fi_Field (issues v) @ (if \<exists>c. run_CompletedAt r = Some c \<and>
         (run_StartedAt r = None \<or> (\<exists>st. run_StartedAt r = Some st \<and> c < st)) then [''completed_at''] else [])" for v
    by (auto simp: validate_simps split: option.split)
  then show ?thesis
    unfolding Run_Validate_def Let_def
    by (simp add: validate_simps field_issue run_rules_def AllRunStatuses_def RunPending_def RunRunning_def
        RunAnalyzing_def RunCompleted_def RunFailed_def)
qed

text \<open>
  Validating a scenario gives one flat list: its own broken rules, and then those of its
  configuration with the field names prefixed and the messages unchanged; a run whose end has no
  start, or comes before it, is reported.
\<close>

lemma simulation_validation:
  "map fi_Field (reported (Scenario_Validate s)) =
     broken [(''name'', TrimSpace (scn_Name s) = []), (''name'', 200 < length (TrimSpace (scn_Name s))),
        (''category'', TrimSpace (scn_Category s) = []), (''root_cause'', TrimSpace (scn_RootCause s) = [])]
     @ map (\<lambda>i. ''scenario_config.'' @ fi_Field i) (reported (ScenarioConfig_Validate (scn_Config s)))
   \<and> suffix (map fi_Message (reported (ScenarioConfig_Validate (scn_Config s))))
       (map fi_Message (reported (Scenario_Validate s)))
   \<and> map fi_Field (reported (Run_Validate r)) = broken (run_rules r)"
proof (intro conjI)
  show "suffix (map fi_Message (reported (ScenarioConfig_Validate (scn_Config s))))
       (map fi_Message (reported (Scenario_Validate s)))"
    by (simp add: reported_Scenario prefix_issue_def comp_def suffix_def)
qed (simp_all add: reported_Scenario field_issue prefix_issue_def comp_def Run_reported)

text \<open>
  The scan of an address byte by byte accepts exactly the texts of the shape
  \<open>local@domain.tld\<close>: one \<open>@\<close>, with something before it, and a last dot after it with something on
  both sides.
\<close>

lemma valid_address_shape: "ValidEmail s \<longleftrightarrow> email_shape s"
  by (rule ValidEmail_shape)

end
