(* ===== verification/Config_Reader.thy ===== *)
theory Config_Reader
  imports GoTime
begin

text \<open>
  \<open>internal/config/reader.go\<close> and \<open>internal/config/errors.go\<close>: reading typed values from the
  environment while accumulating one error per variable, and the error that reports them all.
  The environment is a function \<open>getenv\<close> (\<open>os.Getenv\<close>, the empty string for an unset variable).

  A message keeps a value printed with \<open>%q\<close> as a separate piece, so that what a message
  discloses can be read off it; \<open>render\<close> gives the text. \<open>url.Parse\<close> is a parameter of the
  theories built on this one.
\<close>

subsection \<open>errors.go\<close>

datatype piece = Txt gostring | Quoted gostring

fun render_piece :: "(nat \<Rightarrow> bool) \<Rightarrow> piece \<Rightarrow> gostring" where
  "render_piece uprint (Txt s) = s"
| "render_piece uprint (Quoted s) = go_quote uprint s"

definition render :: "(nat \<Rightarrow> bool) \<Rightarrow> piece list \<Rightarrow> gostring" where
  "render uprint ps = concat (map (render_piece uprint) ps)"

record FieldError =
  fe_Variable :: gostring
  fe_Message :: "piece list"

definition FieldError_Error :: "(nat \<Rightarrow> bool) \<Rightarrow> FieldError \<Rightarrow> gostring" where
  "FieldError_Error uprint e = fe_Variable e @ '' '' @ render uprint (fe_Message e)"

record ConfigValidationError =
  cve_Fields :: "FieldError list"

definition ConfigValidationError_Error :: "(nat \<Rightarrow> bool) \<Rightarrow> ConfigValidationError \<Rightarrow> gostring" where
  "ConfigValidationError_Error uprint e =
     (if length (cve_Fields e) = 0 then ''invalid configuration''
      else let lines = sort (map (\<lambda>f. ''  - '' @ FieldError_Error uprint f) (cve_Fields e))
           in ''invalid configuration ('' @ show_int (int (length (cve_Fields e)))
              @ '' problem(s)):'' @ [CHR 0x0A] @ join [CHR 0x0A] lines)"

text \<open>The loop of \<open>Variables\<close>: the first occurrence of each name, in order.\<close>

fun dedup_variables :: "(gostring \<Rightarrow> bool) \<Rightarrow> FieldError list \<Rightarrow> gostring list" where
  "dedup_variables seen [] = []"
| "dedup_variables seen (f # fs) =
     (if seen (fe_Variable f) then dedup_variables seen fs
      else fe_Variable f # dedup_variables (seen(fe_Variable f := True)) fs)"

definition Variables :: "ConfigValidationError \<Rightarrow> gostring list" where
  "Variables e = sort (dedup_variables (\<lambda>_. False) (cve_Fields e))"

lemma set_dedup_variables:
  "set (dedup_variables seen fs) = {v \<in> fe_Variable ` set fs. \<not> seen v}"
  by (induction fs arbitrary: seen) auto

lemma distinct_dedup_variables: "distinct (dedup_variables seen fs)"
  by (induction fs arbitrary: seen) (auto simp: set_dedup_variables)

lemma Variables_facts:
  "sorted (Variables e)" "distinct (Variables e)" "set (Variables e) = fe_Variable ` set (cve_Fields e)"
  by (simp_all add: Variables_def distinct_dedup_variables set_dedup_variables)

subsection \<open>slog levels\<close>

type_synonym slog_level = int

definition LevelDebug :: slog_level where "LevelDebug = - 4"
definition LevelInfo :: slog_level where "LevelInfo = 0"
definition LevelWarn :: slog_level where "LevelWarn = 4"
definition LevelError :: slog_level where "LevelError = 8"

text \<open>
  \<open>strings.ToUpper\<close> compared with an ASCII word: besides the ASCII letters, only the dotless i
  and the long s have an ASCII upper case.
\<close>

definition upper_rune :: "nat \<Rightarrow> nat" where
  "upper_rune r =
     (if 97 \<le> r \<and> r \<le> 122 then r - 32 else if r = 305 then 73 else if r = 383 then 83 else r)"

definition upper_is :: "gostring \<Rightarrow> gostring \<Rightarrow> bool" where
  "upper_is s word \<longleftrightarrow> map (\<lambda>(_, r). upper_rune r) (runes_from 0 s) = map byte_of word"

definition wrap_int64 :: "int \<Rightarrow> int" where
  "wrap_int64 i = (i + 9223372036854775808) mod 18446744073709551616 - 9223372036854775808"

text \<open>\<open>slog.Level.UnmarshalText\<close>: a name, then optionally a signed offset.\<close>

definition parse_level :: "gostring \<Rightarrow> slog_level option" where
  "parse_level s =
     (let name = takeWhile (\<lambda>c. c \<noteq> CHR ''+'' \<and> c \<noteq> CHR ''-'') s;
          rest = dropWhile (\<lambda>c. c \<noteq> CHR ''+'' \<and> c \<noteq> CHR ''-'') s
      in case (if rest = [] then Some 0 else Atoi rest) of
           None \<Rightarrow> None
         | Some off \<Rightarrow>
             if upper_is name ''DEBUG'' then Some (wrap_int64 (LevelDebug + off))
             else if upper_is name ''INFO'' then Some (wrap_int64 (LevelInfo + off))
             else if upper_is name ''WARN'' then Some (wrap_int64 (LevelWarn + off))
             else if upper_is name ''ERROR'' then Some (wrap_int64 (LevelError + off))
             else None)"

subsection \<open>reader.go\<close>

record reader =
  errs :: "FieldError list"

definition new_reader :: reader where
  "new_reader = \<lparr>errs = []\<rparr>"

definition r_add :: "gostring \<Rightarrow> piece list \<Rightarrow> reader \<Rightarrow> reader" where
  "r_add variable message r =
     r\<lparr>errs := errs r @ [\<lparr>fe_Variable = variable, fe_Message = message\<rparr>]\<rparr>"

definition lookup_env :: "(gostring \<Rightarrow> gostring) \<Rightarrow> gostring \<Rightarrow> gostring \<times> bool" where
  "lookup_env getenv key = (let v = TrimSpace (getenv key) in (v, v \<noteq> []))"

definition r_str :: "(gostring \<Rightarrow> gostring) \<Rightarrow> gostring \<Rightarrow> gostring \<Rightarrow> gostring" where
  "r_str getenv key def = (let (v, ok) = lookup_env getenv key in if ok then v else def)"

definition r_requiredStr :: "(gostring \<Rightarrow> gostring) \<Rightarrow> gostring \<Rightarrow> reader \<Rightarrow> gostring \<times> reader" where
  "r_requiredStr getenv key r =
     (let (v, ok) = lookup_env getenv key
      in if \<not> ok then (v, r_add key [Txt ''is required''] r) else (v, r))"

definition r_intVal :: "(gostring \<Rightarrow> gostring) \<Rightarrow> gostring \<Rightarrow> int \<Rightarrow> reader \<Rightarrow> int \<times> reader" where
  "r_intVal getenv key def r =
     (let (raw, ok) = lookup_env getenv key
      in if \<not> ok then (def, r)
         else case Atoi raw of
           None \<Rightarrow> (def, r_add key [Txt ''must be an integer; got '', Quoted raw] r)
         | Some n \<Rightarrow> (n, r))"

definition r_duration ::
  "(gostring \<Rightarrow> gostring) \<Rightarrow> gostring \<Rightarrow> duration \<Rightarrow> reader \<Rightarrow> duration \<times> reader" where
  "r_duration getenv key def r =
     (let (raw, ok) = lookup_env getenv key
      in if \<not> ok then (def, r)
         else case ParseDuration raw of
           None \<Rightarrow> (def, r_add key [Txt ''must be a duration such as 15m or 24h; got '', Quoted raw] r)
         | Some d \<Rightarrow> (d, r))"

definition r_logLevel ::
  "(gostring \<Rightarrow> gostring) \<Rightarrow> gostring \<Rightarrow> slog_level \<Rightarrow> reader \<Rightarrow> slog_level \<times> reader" where
  "r_logLevel getenv key def r =
     (let (raw, ok) = lookup_env getenv key
      in if \<not> ok then (def, r)
         else case parse_level raw of
           None \<Rightarrow> (def, r_add key [Txt ''must be one of debug, info, warn, error; got '', Quoted raw] r)
         | Some lvl \<Rightarrow> (lvl, r))"

fun nonblank_parts :: "gostring list \<Rightarrow> gostring list" where
  "nonblank_parts [] = []"
| "nonblank_parts (p # ps) =
     (let p' = TrimSpace p in if p' \<noteq> [] then p' # nonblank_parts ps else nonblank_parts ps)"

definition r_strSlice :: "(gostring \<Rightarrow> gostring) \<Rightarrow> gostring \<Rightarrow> gostring list \<Rightarrow> gostring list" where
  "r_strSlice getenv key def =
     (let (raw, ok) = lookup_env getenv key
      in if \<not> ok then def
         else let out = nonblank_parts (split_on CHR '','' raw)
              in if length out = 0 then def else out)"

named_theorems reader_simps \<open>the value read and the errors recorded\<close>

text \<open>A value reads cleanly when it is absent or parses.\<close>

definition env_set :: "(gostring \<Rightarrow> gostring) \<Rightarrow> gostring \<Rightarrow> bool" where
  "env_set getenv key \<longleftrightarrow> TrimSpace (getenv key) \<noteq> []"

definition int_readable :: "(gostring \<Rightarrow> gostring) \<Rightarrow> gostring \<Rightarrow> bool" where
  "int_readable getenv key \<longleftrightarrow> (env_set getenv key \<longrightarrow> Atoi (TrimSpace (getenv key)) \<noteq> None)"

definition duration_readable :: "(gostring \<Rightarrow> gostring) \<Rightarrow> gostring \<Rightarrow> bool" where
  "duration_readable getenv key \<longleftrightarrow>
     (env_set getenv key \<longrightarrow> ParseDuration (TrimSpace (getenv key)) \<noteq> None)"

definition level_readable :: "(gostring \<Rightarrow> gostring) \<Rightarrow> gostring \<Rightarrow> bool" where
  "level_readable getenv key \<longleftrightarrow>
     (env_set getenv key \<longrightarrow> parse_level (TrimSpace (getenv key)) \<noteq> None)"

definition env_int :: "(gostring \<Rightarrow> gostring) \<Rightarrow> gostring \<Rightarrow> int \<Rightarrow> int" where
  "env_int getenv key def = (case Atoi (TrimSpace (getenv key)) of Some n \<Rightarrow> n | None \<Rightarrow> def)"

definition env_duration :: "(gostring \<Rightarrow> gostring) \<Rightarrow> gostring \<Rightarrow> duration \<Rightarrow> duration" where
  "env_duration getenv key def =
     (case ParseDuration (TrimSpace (getenv key)) of Some d \<Rightarrow> d | None \<Rightarrow> def)"

definition env_level :: "(gostring \<Rightarrow> gostring) \<Rightarrow> gostring \<Rightarrow> slog_level \<Rightarrow> slog_level" where
  "env_level getenv key def =
     (case parse_level (TrimSpace (getenv key)) of Some l \<Rightarrow> l | None \<Rightarrow> def)"

lemma Atoi_Nil [simp]: "Atoi [] = None"
  by (simp add: Atoi_def parse_unsigned_def)

lemma ParseDuration_Nil [simp]: "ParseDuration [] = None"
  by (simp add: ParseDuration_def)

lemma parse_level_Nil [simp]: "parse_level [] = None"
  by (simp add: parse_level_def upper_is_def)

lemma errs_new [reader_simps]: "errs new_reader = []"
  by (simp add: new_reader_def)

definition field_error :: "bool \<Rightarrow> gostring \<Rightarrow> piece list \<Rightarrow> FieldError list" where
  "field_error bad key message =
     (if bad then [\<lparr>fe_Variable = key, fe_Message = message\<rparr>] else [])"

lemma field_error_Nil_iff [simp]: "field_error bad k m = [] \<longleftrightarrow> \<not> bad"
  by (simp add: field_error_def)

lemma errs_add [reader_simps]:
  "errs (r_add k m r) = errs r @ [\<lparr>fe_Variable = k, fe_Message = m\<rparr>]"
  by (simp add: r_add_def)

lemma errs_check [reader_simps]:
  "errs (if bad then r_add k m r else r) = errs r @ field_error bad k m"
  by (simp add: r_add_def field_error_def)

lemma requiredStr_simps [reader_simps]:
  "fst (r_requiredStr g k r) = TrimSpace (g k)"
  "errs (snd (r_requiredStr g k r)) = errs r @ field_error (\<not> env_set g k) k [Txt ''is required'']"
  by (simp_all add: r_requiredStr_def lookup_env_def Let_def r_add_def field_error_def env_set_def)

lemma intVal_simps [reader_simps]:
  "fst (r_intVal g k d r) = env_int g k d"
  "errs (snd (r_intVal g k d r)) = errs r @ field_error (\<not> int_readable g k) k
     [Txt ''must be an integer; got '', Quoted (TrimSpace (g k))]"
  by (auto simp: r_intVal_def lookup_env_def Let_def r_add_def field_error_def env_set_def
      env_int_def int_readable_def split: option.splits)

lemma duration_simps [reader_simps]:
  "fst (r_duration g k d r) = env_duration g k d"
  "errs (snd (r_duration g k d r)) = errs r @ field_error (\<not> duration_readable g k) k
     [Txt ''must be a duration such as 15m or 24h; got '', Quoted (TrimSpace (g k))]"
  by (auto simp: r_duration_def lookup_env_def Let_def r_add_def field_error_def env_set_def
      env_duration_def duration_readable_def split: option.splits)

lemma logLevel_simps [reader_simps]:
  "fst (r_logLevel g k d r) = env_level g k d"
  "errs (snd (r_logLevel g k d r)) = errs r @ field_error (\<not> level_readable g k) k
     [Txt ''must be one of debug, info, warn, error; got '', Quoted (TrimSpace (g k))]"
  by (auto simp: r_logLevel_def lookup_env_def Let_def r_add_def field_error_def env_set_def
      env_level_def level_readable_def split: option.splits)

lemma r_str_eq [reader_simps]:
  "r_str g k d = (if env_set g k then TrimSpace (g k) else d)"
  by (simp add: r_str_def lookup_env_def env_set_def Let_def)

lemma nonblank_parts_eq: "nonblank_parts ps = filter (\<lambda>p. p \<noteq> []) (map TrimSpace ps)"
  by (induction ps) (auto simp: Let_def)

text \<open>A list variable is never empty and has no blank or padded entry, if its default has none.\<close>

lemma strSlice_entries:
  assumes "def \<noteq> []" and "\<forall>p \<in> set def. p \<noteq> [] \<and> TrimSpace p = p"
  shows "r_strSlice g k def \<noteq> [] \<and> (\<forall>p \<in> set (r_strSlice g k def). p \<noteq> [] \<and> TrimSpace p = p)"
  using assms by (auto simp: r_strSlice_def lookup_env_def nonblank_parts_eq Let_def)

lemma strSlice_no_comma:
  assumes "env_set g k" and "p \<in> set (r_strSlice g k def)" and "p \<notin> set def"
  shows "CHR '','' \<notin> set p"
proof -
  from assms obtain q where q: "q \<in> set (split_on CHR '','' (TrimSpace (g k)))" "p = TrimSpace q"
    by (auto simp: r_strSlice_def lookup_env_def nonblank_parts_eq env_set_def Let_def split: if_splits)
  then show ?thesis
    using sep_not_in_split_on set_TrimSpace_subset by (metis subsetD)
qed

lemma env_duration_bounds:
  "min_int64 \<le> d \<and> d \<le> max_int64 \<Longrightarrow> min_int64 \<le> env_duration g k d \<and> env_duration g k d \<le> max_int64"
  using ParseDuration_bounds by (auto simp: env_duration_def split: option.splits)

lemma env_int_bounds:
  "min_int64 \<le> d \<and> d \<le> max_int64 \<Longrightarrow> min_int64 \<le> env_int g k d \<and> env_int g k d \<le> max_int64"
  using Atoi_bounds by (auto simp: env_int_def split: option.splits)

end
