(* ===== verification/HTTP_Writer.thy ===== *)
theory HTTP_Writer
  imports Models_Identity Config_Reader
begin

text \<open>
  What the handlers see of \<open>net/http\<close>, and \<open>internal/middleware/recorder.go\<close>. A response is the
  live header map, the cookies added to it, the status line with the headers and cookies that
  were sent with it, and the body. \<open>WriteHeader\<close> sends the status line once, \<open>Write\<close> sends it
  implicitly, and a status that has no body drops what is written. A writer is the server's own
  one or a \<open>responseRecorder\<close> around another writer.

  A handler maps a request, a world (whatever the handler changes, the log first) and a writer to
  an outcome: it returns, or it panics, with the world and the writer as they are then.
\<close>

subsection \<open>Headers and cookies\<close>

type_synonym header = "gostring \<Rightarrow> gostring list"

definition ascii_upper :: "char \<Rightarrow> char" where
  "ascii_upper c = (if 97 \<le> byte_of c \<and> byte_of c \<le> 122 then char_of (byte_of c - 32) else c)"

text \<open>\<open>CanonicalHeaderKey\<close>, for the header names of this program (all of them tokens).\<close>

fun canonical_from :: "bool \<Rightarrow> gostring \<Rightarrow> gostring" where
  "canonical_from up [] = []"
| "canonical_from up (c # s) =
     (if up then ascii_upper c else ascii_lower c) # canonical_from (c = CHR ''-'') s"

definition header_key :: "gostring \<Rightarrow> gostring" where
  "header_key k = canonical_from True k"

definition Header_Get :: "header \<Rightarrow> gostring \<Rightarrow> gostring" where
  "Header_Get h k = (case h (header_key k) of [] \<Rightarrow> [] | v # _ \<Rightarrow> v)"

definition Header_Set :: "gostring \<Rightarrow> gostring \<Rightarrow> header \<Rightarrow> header" where
  "Header_Set k v h = h(header_key k := [v])"

datatype same_site = SameSiteDefault | SameSiteLax | SameSiteStrict | SameSiteNone

record Cookie =
  ck_Name :: gostring
  ck_Value :: gostring
  ck_Path :: gostring
  ck_HttpOnly :: bool
  ck_Secure :: bool
  ck_SameSite :: same_site
  ck_Expires :: "time option"
  ck_MaxAge :: int

subsection \<open>The server's response writer\<close>

record response =
  rp_header :: header
  rp_cookies :: "Cookie list"
  rp_sent :: "(int \<times> header \<times> Cookie list) option"
  rp_body :: gostring
  rp_broken :: bool

definition new_response :: response where
  "new_response = \<lparr>rp_header = (\<lambda>_. []), rp_cookies = [], rp_sent = None, rp_body = [], rp_broken = False\<rparr>"

text \<open>A 1xx status other than 101 is informational and leaves the response open.\<close>

definition base_WriteHeader :: "int \<Rightarrow> response \<Rightarrow> response" where
  "base_WriteHeader status r =
     (if rp_sent r \<noteq> None \<or> 100 \<le> status \<and> status \<le> 199 \<and> status \<noteq> 101 then r
      else r\<lparr>rp_sent := Some (status, rp_header r, rp_cookies r)\<rparr>)"

definition body_allowed :: "int \<Rightarrow> bool" where
  "body_allowed status \<longleftrightarrow> \<not> (100 \<le> status \<and> status \<le> 199) \<and> status \<noteq> 204 \<and> status \<noteq> 304"

definition base_Write :: "gostring \<Rightarrow> response \<Rightarrow> response \<times> nat" where
  "base_Write b r =
     (let r = (if rp_sent r = None then base_WriteHeader 200 r else r)
      in case rp_sent r of
           Some (status, _, _) \<Rightarrow>
             if rp_broken r \<or> \<not> body_allowed status then (r, 0)
             else (r\<lparr>rp_body := rp_body r @ b\<rparr>, length b)
         | None \<Rightarrow> (r, 0))"

subsection \<open>recorder.go\<close>

record recorder =
  rc_status :: int
  rc_bytes :: int
  rc_wroteHeader :: bool

datatype rw = Base response | Recorded rw recorder

definition newResponseRecorder :: "rw \<Rightarrow> rw" where
  "newResponseRecorder w = Recorded w \<lparr>rc_status = 200, rc_bytes = 0, rc_wroteHeader = False\<rparr>"

fun WriteHeader :: "int \<Rightarrow> rw \<Rightarrow> rw" where
  "WriteHeader status (Base r) = Base (base_WriteHeader status r)"
| "WriteHeader status (Recorded w rc) =
     (if rc_wroteHeader rc then Recorded w rc
      else Recorded (WriteHeader status w) (rc\<lparr>rc_status := status, rc_wroteHeader := True\<rparr>))"

fun depth :: "rw \<Rightarrow> nat" where
  "depth (Base r) = 0"
| "depth (Recorded w rc) = Suc (depth w)"

lemma depth_WriteHeader [simp]: "depth (WriteHeader status w) = depth w"
  by (induction w) auto

function (sequential) Write :: "gostring \<Rightarrow> rw \<Rightarrow> rw \<times> nat" where
  "Write b (Base r) = (let (r', n) = base_Write b r in (Base r', n))"
| "Write b (Recorded w rc) =
     (let (w1, rc1) = (if \<not> rc_wroteHeader rc
                       then (WriteHeader 200 w, rc\<lparr>rc_status := 200, rc_wroteHeader := True\<rparr>)
                       else (w, rc));
          (w2, n) = Write b w1
      in (Recorded w2 (rc1\<lparr>rc_bytes := rc_bytes rc1 + int n\<rparr>), n))"
  by pat_completeness auto

termination
  by (relation "measure (\<lambda>(b, w). depth w)") (auto split: if_splits)

text \<open>The dynamic type test \<open>w.(interface{ Written() bool })\<close>: only a recorder passes it.\<close>

fun Written :: "rw \<Rightarrow> bool option" where
  "Written (Base r) = None"
| "Written (Recorded w rc) = Some (rc_wroteHeader rc)"

fun Unwrap :: "rw \<Rightarrow> rw" where
  "Unwrap (Base r) = Base r"
| "Unwrap (Recorded w rc) = w"

fun rw_base :: "rw \<Rightarrow> response" where
  "rw_base (Base r) = r"
| "rw_base (Recorded w rc) = rw_base w"

fun rw_update :: "(response \<Rightarrow> response) \<Rightarrow> rw \<Rightarrow> rw" where
  "rw_update f (Base r) = Base (f r)"
| "rw_update f (Recorded w rc) = Recorded (rw_update f w) rc"

definition set_header :: "gostring \<Rightarrow> gostring \<Rightarrow> rw \<Rightarrow> rw" where
  "set_header k v = rw_update (\<lambda>r. r\<lparr>rp_header := Header_Set k v (rp_header r)\<rparr>)"

definition SetCookie :: "Cookie \<Rightarrow> rw \<Rightarrow> rw" where
  "SetCookie c = rw_update (\<lambda>r. r\<lparr>rp_cookies := rp_cookies r @ [c]\<rparr>)"

text \<open>A recorder agrees with the writer that it wraps: it has seen the status line go out.\<close>

fun rw_ok :: "rw \<Rightarrow> bool" where
  "rw_ok (Base r) = True"
| "rw_ok (Recorded w rc) =
     (rw_ok w \<and> rc_wroteHeader rc = (rp_sent (rw_base w) \<noteq> None)
      \<and> (case rp_sent (rw_base w) of None \<Rightarrow> rc_status rc = 200 | Some (st, _, _) \<Rightarrow> st = rc_status rc))"

definition final_status :: "int \<Rightarrow> bool" where
  "final_status status \<longleftrightarrow> \<not> (100 \<le> status \<and> status \<le> 199) \<or> status = 101"

lemma rw_base_update [simp]: "rw_base (rw_update f w) = f (rw_base w)"
  by (induction w) auto

lemma rw_base_recorder [simp]: "rw_base (newResponseRecorder w) = rw_base w"
  by (simp add: newResponseRecorder_def)

lemma WriteHeader_sent:
  "rw_ok w \<Longrightarrow> final_status status \<Longrightarrow>
     rw_ok (WriteHeader status w) \<and> rw_base (WriteHeader status w) = base_WriteHeader status (rw_base w)"
proof (induction w)
  case (Recorded w rc)
  then show ?case
    by (auto simp: base_WriteHeader_def final_status_def split: option.splits)
qed simp

lemma base_Write_sent: "rp_sent r = Some x \<Longrightarrow> rp_sent (fst (base_Write b r)) = Some x"
  by (auto simp: base_Write_def Let_def split: prod.splits)

lemma base_Write_opens: "rp_sent r = None \<Longrightarrow>
    base_Write b (base_WriteHeader 200 r) = base_Write b r"
  by (simp add: base_Write_def base_WriteHeader_def Let_def)

lemma base_Write_status:
  "rp_sent (fst (base_Write b r)) =
     (case rp_sent r of None \<Rightarrow> Some (200, rp_header r, rp_cookies r) | Some x \<Rightarrow> Some x)"
  by (auto simp: base_Write_def base_WriteHeader_def Let_def split: prod.splits option.splits)

lemma Write_sent:
  "rw_ok w \<Longrightarrow> rw_ok (fst (Write b w)) \<and> rw_base (fst (Write b w)) = fst (base_Write b (rw_base w))
     \<and> snd (Write b w) = snd (base_Write b (rw_base w))"
proof (induction b w rule: Write.induct)
  case (1 b r)
  then show ?case by (simp add: split_beta)
next
  case (2 b w rc)
  have final: "final_status 200" by (simp add: final_status_def)
  show ?case
  proof (cases "rc_wroteHeader rc")
    case True
    with 2 show ?thesis
      by (auto simp: Let_def split_beta base_Write_status split: option.splits)
  next
    case False
    with 2(2) have w: "rw_ok w" "rp_sent (rw_base w) = None"
      by (cases "rp_sent (rw_base w)"; auto)+
    from WriteHeader_sent [OF w(1) final] w False 2
    show ?thesis
      by (auto simp: Let_def split_beta base_Write_status base_Write_opens split: option.splits)
  qed
qed

end
