(* ===== verification/GoURL.thy ===== *)
theory GoURL
  imports GoStrconv
begin

text \<open>
  The part of Go's \<open>net/url\<close> that the configuration uses (Go 1.25.0, the version of \<open>go.mod\<close>):
  \<open>Parse\<close>, \<open>String\<close> and \<open>Redacted\<close>. A parse error keeps what its text prints, since the
  configuration reports it. The query of a URL is stored and printed verbatim.
\<close>

subsection \<open>Escaping\<close>

datatype url_encoding = encodePath | encodeUserPassword | encodeHost | encodeZone | encodeFragment

definition is_alpha :: "char \<Rightarrow> bool" where
  "is_alpha c \<longleftrightarrow> (65 \<le> byte_of c \<and> byte_of c \<le> 90) \<or> (97 \<le> byte_of c \<and> byte_of c \<le> 122)"

definition is_alnum :: "char \<Rightarrow> bool" where
  "is_alnum c \<longleftrightarrow> is_alpha c \<or> is_digit c"

definition shouldEscape :: "char \<Rightarrow> url_encoding \<Rightarrow> bool" where
  "shouldEscape c mode \<longleftrightarrow>
     (if is_alnum c then False
      else if (mode = encodeHost \<or> mode = encodeZone)
              \<and> c \<in> set (CHR 0x27 # CHR 0x22 # ''!$&()*+,;=:[]<>'') then False
      else if c \<in> set ''-_.~'' then False
      else if c \<in> set ''$&+,/:;=?@'' then
        (case mode of
           encodePath \<Rightarrow> c = CHR ''?''
         | encodeUserPassword \<Rightarrow> c = CHR ''@'' \<or> c = CHR ''/'' \<or> c = CHR ''?'' \<or> c = CHR '':''
         | encodeFragment \<Rightarrow> False
         | _ \<Rightarrow> True)
      else if mode = encodeFragment \<and> c \<in> set ''!()*'' then False
      else True)"

definition is_hex :: "char \<Rightarrow> bool" where
  "is_hex c \<longleftrightarrow> is_digit c \<or> (97 \<le> byte_of c \<and> byte_of c \<le> 102) \<or> (65 \<le> byte_of c \<and> byte_of c \<le> 70)"

definition unhex :: "char \<Rightarrow> nat" where
  "unhex c =
     (if is_digit c then byte_of c - 48
      else if 97 \<le> byte_of c then byte_of c - 87
      else byte_of c - 55)"

definition upper_hex :: "nat \<Rightarrow> char" where
  "upper_hex d = (if d < 10 then char_of (48 + d) else char_of (55 + d))"

fun url_escape :: "gostring \<Rightarrow> url_encoding \<Rightarrow> gostring" where
  "url_escape [] mode = []"
| "url_escape (c # s) mode =
     (if shouldEscape c mode
      then CHR ''%'' # upper_hex (byte_of c div 16) # upper_hex (byte_of c mod 16) # url_escape s mode
      else c # url_escape s mode)"

text \<open>The errors of \<open>Parse\<close>, with the text each one prints.\<close>

datatype url_error =
    EscapeError gostring
  | InvalidHostError gostring
  | InvalidControlCharacter
  | MissingScheme
  | ColonInFirstSegment
  | MissingBracket
  | InvalidPort gostring
  | InvalidUserinfo

fun url_unescape :: "gostring \<Rightarrow> url_encoding \<Rightarrow> (url_error, gostring) result" where
  "url_unescape [] mode = Inr []"
| "url_unescape (c # s) mode =
     (if c = CHR ''%'' then
        (case s of
           a # b # t \<Rightarrow>
             if \<not> is_hex a \<or> \<not> is_hex b then Inl (EscapeError [c, a, b])
             else if mode = encodeHost \<and> unhex a < 8 \<and> [a, b] \<noteq> ''25'' then Inl (EscapeError [c, a, b])
             else if mode = encodeZone \<and> [a, b] \<noteq> ''25'' \<and> char_of (unhex a * 16 + unhex b) \<noteq> CHR '' ''
                     \<and> shouldEscape (char_of (unhex a * 16 + unhex b)) encodeHost
               then Inl (EscapeError [c, a, b])
             else rbind (url_unescape t mode) (\<lambda>r. Inr (char_of (unhex a * 16 + unhex b) # r))
         | _ \<Rightarrow> Inl (EscapeError (c # s)))
      else if (mode = encodeHost \<or> mode = encodeZone) \<and> byte_of c < 128 \<and> shouldEscape c mode
        then Inl (InvalidHostError [c])
      else rbind (url_unescape s mode) (\<lambda>r. Inr (c # r)))"

definition validEncoded :: "gostring \<Rightarrow> url_encoding \<Rightarrow> bool" where
  "validEncoded s mode \<longleftrightarrow>
     (\<forall>c \<in> set s. c \<in> set (CHR 0x27 # ''!$&()*+,;=:@[]%'') \<or> \<not> shouldEscape c mode)"

subsection \<open>The URL\<close>

record Userinfo =
  ui_username :: gostring
  ui_password :: "gostring option"

record URL =
  u_Scheme :: gostring
  u_Opaque :: gostring
  u_User :: "Userinfo option"
  u_Host :: gostring
  u_Path :: gostring
  u_RawPath :: gostring
  u_OmitHost :: bool
  u_ForceQuery :: bool
  u_RawQuery :: gostring
  u_Fragment :: gostring
  u_RawFragment :: gostring

definition empty_URL :: URL where
  "empty_URL = \<lparr>u_Scheme = [], u_Opaque = [], u_User = None, u_Host = [], u_Path = [], u_RawPath = [],
     u_OmitHost = False, u_ForceQuery = False, u_RawQuery = [], u_Fragment = [], u_RawFragment = []\<rparr>"

definition before :: "char \<Rightarrow> gostring \<Rightarrow> gostring" where
  "before c s = takeWhile (\<lambda>x. x \<noteq> c) s"

text \<open>What follows the first \<open>c\<close>, if there is one (\<open>strings.Cut\<close>).\<close>

definition after :: "char \<Rightarrow> gostring \<Rightarrow> gostring" where
  "after c s = tl (dropWhile (\<lambda>x. x \<noteq> c) s)"

definition before_last :: "char \<Rightarrow> gostring \<Rightarrow> gostring" where
  "before_last c s = rev (after c (rev s))"

definition after_last :: "char \<Rightarrow> gostring \<Rightarrow> gostring" where
  "after_last c s = rev (before c (rev s))"

fun scheme_loop :: "gostring \<Rightarrow> gostring \<Rightarrow> gostring \<Rightarrow> (url_error, gostring \<times> gostring) result" where
  "scheme_loop seen [] raw = Inr ([], raw)"
| "scheme_loop seen (c # s) raw =
     (if is_alpha c then scheme_loop (seen @ [c]) s raw
      else if is_digit c \<or> c \<in> set ''+-.'' then
        (if seen = [] then Inr ([], raw) else scheme_loop (seen @ [c]) s raw)
      else if c = CHR '':'' then
        (if seen = [] then Inl MissingScheme else Inr (seen, s))
      else Inr ([], raw))"

definition getScheme :: "gostring \<Rightarrow> (url_error, gostring \<times> gostring) result" where
  "getScheme raw = scheme_loop [] raw raw"

definition validOptionalPort :: "gostring \<Rightarrow> bool" where
  "validOptionalPort port \<longleftrightarrow>
     (case port of [] \<Rightarrow> True | c # ds \<Rightarrow> c = CHR '':'' \<and> (\<forall>d \<in> set ds. is_digit d))"

definition validUserinfo :: "gostring \<Rightarrow> bool" where
  "validUserinfo s \<longleftrightarrow> (\<forall>c \<in> set s. is_alnum c \<or> c \<in> set (CHR 0x27 # ''-._:~!$&()*+,;=%@''))"

fun cut_zone :: "gostring \<Rightarrow> gostring \<Rightarrow> (gostring \<times> gostring) option" where
  "cut_zone seen [] = None"
| "cut_zone seen (c # s) =
     (if take 3 (c # s) = ''%25'' then Some (seen, c # s) else cut_zone (seen @ [c]) s)"

definition parseHost :: "gostring \<Rightarrow> (url_error, gostring) result" where
  "parseHost host =
     (if take 1 host = ''['' then
        (if CHR '']'' \<notin> set host then Inl MissingBracket
         else
           let literal = before_last CHR '']'' host; port = after_last CHR '']'' host
           in if \<not> validOptionalPort port then Inl (InvalidPort port)
              else case cut_zone [] literal of
                Some (h1, z) \<Rightarrow>
                  rbind (url_unescape h1 encodeHost) (\<lambda>a.
                  rbind (url_unescape z encodeZone) (\<lambda>b.
                  rbind (url_unescape (CHR '']'' # port) encodeHost) (\<lambda>d. Inr (a @ b @ d))))
              | None \<Rightarrow> url_unescape host encodeHost)
      else if CHR '':'' \<in> set host \<and> \<not> validOptionalPort (CHR '':'' # after_last CHR '':'' host)
        then Inl (InvalidPort (CHR '':'' # after_last CHR '':'' host))
      else url_unescape host encodeHost)"

definition parseAuthority ::
  "gostring \<Rightarrow> (url_error, Userinfo option \<times> gostring) result" where
  "parseAuthority authority =
     (if CHR ''@'' \<notin> set authority then
        rbind (parseHost authority) (\<lambda>host. Inr (None, host))
      else
        rbind (parseHost (after_last CHR ''@'' authority)) (\<lambda>host.
          let userinfo = before_last CHR ''@'' authority
          in if \<not> validUserinfo userinfo then Inl InvalidUserinfo
             else if CHR '':'' \<notin> set userinfo then
               rbind (url_unescape userinfo encodeUserPassword) (\<lambda>u.
                 Inr (Some \<lparr>ui_username = u, ui_password = None\<rparr>, host))
             else
               rbind (url_unescape (before CHR '':'' userinfo) encodeUserPassword) (\<lambda>u.
               rbind (url_unescape (after CHR '':'' userinfo) encodeUserPassword) (\<lambda>p.
                 Inr (Some \<lparr>ui_username = u, ui_password = Some p\<rparr>, host)))))"

definition setPath :: "gostring \<Rightarrow> URL \<Rightarrow> (url_error, URL) result" where
  "setPath p u =
     rbind (url_unescape p encodePath) (\<lambda>path.
       Inr (u\<lparr>u_Path := path, u_RawPath := (if p = url_escape path encodePath then [] else p)\<rparr>))"

definition setFragment :: "gostring \<Rightarrow> URL \<Rightarrow> (url_error, URL) result" where
  "setFragment f u =
     rbind (url_unescape f encodeFragment) (\<lambda>frag.
       Inr (u\<lparr>u_Fragment := frag, u_RawFragment := (if f = url_escape frag encodeFragment then [] else f)\<rparr>))"

definition stringContainsCTLByte :: "gostring \<Rightarrow> bool" where
  "stringContainsCTLByte s \<longleftrightarrow> (\<exists>c \<in> set s. byte_of c < 32 \<or> byte_of c = 127)"

text \<open>The tail of \<open>parse\<close> that runs once the scheme and the query are split off.\<close>

definition parse_hier :: "URL \<Rightarrow> gostring \<Rightarrow> (url_error, URL) result" where
  "parse_hier u rest =
     (if take 1 rest \<noteq> ''/'' \<and> u_Scheme u \<noteq> [] then Inr (u\<lparr>u_Opaque := rest\<rparr>)
      else if take 1 rest \<noteq> ''/'' \<and> CHR '':'' \<in> set (before CHR ''/'' rest) then Inl ColonInFirstSegment
      else if (u_Scheme u \<noteq> [] \<or> take 3 rest \<noteq> ''///'') \<and> take 2 rest = ''//'' then
        (let authority = before CHR ''/'' (drop 2 rest);
             path = dropWhile (\<lambda>x. x \<noteq> CHR ''/'') (drop 2 rest)
         in rbind (parseAuthority authority) (\<lambda>(user, host).
              setPath path (u\<lparr>u_User := user, u_Host := host\<rparr>)))
      else if u_Scheme u \<noteq> [] \<and> take 1 rest = ''/'' then setPath rest (u\<lparr>u_OmitHost := True\<rparr>)
      else setPath rest u)"

definition ascii_lower_all :: "gostring \<Rightarrow> gostring" where
  "ascii_lower_all s = map ascii_lower s"

definition parse_no_fragment :: "gostring \<Rightarrow> (url_error, URL) result" where
  "parse_no_fragment raw =
     (if stringContainsCTLByte raw then Inl InvalidControlCharacter
      else if raw = ''*'' then Inr (empty_URL\<lparr>u_Path := ''*''\<rparr>)
      else
        rbind (getScheme raw) (\<lambda>(scheme, rest).
          let u = empty_URL\<lparr>u_Scheme := ascii_lower_all scheme\<rparr>
          in if rest \<noteq> [] \<and> last rest = CHR ''?'' \<and> CHR ''?'' \<notin> set (butlast rest)
             then parse_hier (u\<lparr>u_ForceQuery := True\<rparr>) (butlast rest)
             else parse_hier (u\<lparr>u_RawQuery := after CHR ''?'' rest\<rparr>) (before CHR ''?'' rest)))"

text \<open>
  \<open>url.Parse\<close>; a failure carries the string that the error prints: everything before the
  first \<open>#\<close>, or the whole input when it is the fragment that is malformed.
\<close>

definition url_Parse :: "gostring \<Rightarrow> (gostring \<times> url_error, URL) result" where
  "url_Parse raw =
     (case parse_no_fragment (before CHR ''#'' raw) of
        Inl e \<Rightarrow> Inl (before CHR ''#'' raw, e)
      | Inr u \<Rightarrow>
          if after CHR ''#'' raw = [] then Inr u
          else case setFragment (after CHR ''#'' raw) u of
            Inl e \<Rightarrow> Inl (raw, e)
          | Inr v \<Rightarrow> Inr v)"

subsection \<open>Printing\<close>

definition Userinfo_String :: "Userinfo \<Rightarrow> gostring" where
  "Userinfo_String ui =
     (case ui_password ui of
        Some p \<Rightarrow> url_escape (ui_username ui) encodeUserPassword @ '':'' @ url_escape p encodeUserPassword
      | None \<Rightarrow> url_escape (ui_username ui) encodeUserPassword)"

definition escaped_as :: "gostring \<Rightarrow> gostring \<Rightarrow> url_encoding \<Rightarrow> gostring" where
  "escaped_as raw value mode =
     (if raw \<noteq> [] \<and> validEncoded raw mode \<and> url_unescape raw mode = Inr value then raw
      else url_escape value mode)"

definition EscapedPath :: "URL \<Rightarrow> gostring" where
  "EscapedPath u =
     (if u_RawPath u \<noteq> [] \<and> validEncoded (u_RawPath u) encodePath
         \<and> url_unescape (u_RawPath u) encodePath = Inr (u_Path u) then u_RawPath u
      else if u_Path u = ''*'' then ''*''
      else url_escape (u_Path u) encodePath)"

definition authority_string :: "URL \<Rightarrow> gostring" where
  "authority_string u =
     (if (u_Scheme u \<noteq> [] \<or> u_Host u \<noteq> [] \<or> u_User u \<noteq> None)
         \<and> \<not> (u_OmitHost u \<and> u_Host u = [] \<and> u_User u = None)
      then (if u_Host u \<noteq> [] \<or> u_Path u \<noteq> [] \<or> u_User u \<noteq> None then ''//'' else [])
           @ (case u_User u of Some ui \<Rightarrow> Userinfo_String ui @ ''@'' | None \<Rightarrow> [])
           @ url_escape (u_Host u) encodeHost
      else [])"

definition path_string :: "URL \<Rightarrow> gostring \<Rightarrow> gostring" where
  "path_string u sofar =
     (let path = EscapedPath u;
          slash = (if path \<noteq> [] \<and> hd path \<noteq> CHR ''/'' \<and> u_Host u \<noteq> [] then ''/'' else [])
      in slash @ (if sofar @ slash = [] \<and> CHR '':'' \<in> set (before CHR ''/'' path) then ''./'' else []) @ path)"

definition URL_String :: "URL \<Rightarrow> gostring" where
  "URL_String u =
     (let scheme = (if u_Scheme u \<noteq> [] then u_Scheme u @ '':'' else []);
          body = (if u_Opaque u \<noteq> [] then u_Opaque u
                  else authority_string u @ path_string u (scheme @ authority_string u))
      in scheme @ body
         @ (if u_ForceQuery u \<or> u_RawQuery u \<noteq> [] then ''?'' @ u_RawQuery u else [])
         @ (if u_Fragment u \<noteq> [] then ''#'' @ escaped_as (u_RawFragment u) (u_Fragment u) encodeFragment
            else []))"

definition Redacted :: "URL \<Rightarrow> gostring" where
  "Redacted u =
     (case u_User u of
        Some ui \<Rightarrow>
          (case ui_password ui of
             Some _ \<Rightarrow> URL_String (u\<lparr>u_User := Some (ui\<lparr>ui_password := Some ''xxxxx''\<rparr>)\<rparr>)
           | None \<Rightarrow> URL_String u)
      | None \<Rightarrow> URL_String u)"

subsection \<open>What the configuration relies on\<close>

text \<open>Two URLs that differ only in a password that is there have the same redacted text.\<close>

definition with_password :: "gostring \<Rightarrow> URL \<Rightarrow> URL" where
  "with_password p u =
     u\<lparr>u_User := map_option (\<lambda>ui. ui\<lparr>ui_password := map_option (\<lambda>_. p) (ui_password ui)\<rparr>) (u_User u)\<rparr>"

lemma Redacted_with_password: "Redacted (with_password p u) = Redacted u"
proof (cases "u_User u")
  case None
  then have "with_password p u = u" by (cases u) (simp add: with_password_def)
  then show ?thesis by simp
next
  case (Some ui)
  show ?thesis
  proof (cases "ui_password ui")
    case None
    then have "ui\<lparr>ui_password := None\<rparr> = ui" by (cases ui) simp
    with Some None have "with_password p u = u" by (cases u) (simp add: with_password_def)
    then show ?thesis by simp
  qed (simp add: Some Redacted_def with_password_def)
qed

lemma shouldEscape_alnum: "is_alnum c \<Longrightarrow> \<not> shouldEscape c mode"
  by (simp add: shouldEscape_def)

lemma upper_hex_facts:
  assumes "d < 16"
  shows "is_hex (upper_hex d)" "unhex (upper_hex d) = d"
  using assms by (auto simp: upper_hex_def is_hex_def unhex_def is_digit_def)

lemma unhex_upper: "char_of (unhex (upper_hex (byte_of c div 16)) * 16 + unhex (upper_hex (byte_of c mod 16))) = c"
proof -
  have "byte_of c div 16 < 16"
    using byte_of_less [of c] by (intro less_mult_imp_div_less) simp
  then show ?thesis by (simp add: upper_hex_facts)
qed

text \<open>Escaping is undone by unescaping, outside the host (whose escapes are restricted).\<close>

lemma percent_escaped: "shouldEscape CHR ''%'' mode"
  by (cases mode) (auto simp: shouldEscape_def is_alnum_def is_alpha_def is_digit_def)

lemma url_unescape_escape:
  assumes "mode \<noteq> encodeHost" and "mode \<noteq> encodeZone"
  shows "url_unescape (url_escape s mode) mode = Inr s"
proof (induction s)
  case (Cons c s)
  have b: "byte_of c div 16 < 16"
    using byte_of_less [of c] by (intro less_mult_imp_div_less) simp
  show ?case
  proof (cases "shouldEscape c mode")
    case True
    then show ?thesis
      using Cons assms by (simp add: upper_hex_facts(1) [OF b] upper_hex_facts(1) unhex_upper)
  next
    case False
    then have "c \<noteq> CHR ''%''" using percent_escaped by blast
    with False Cons assms show ?thesis by simp
  qed
qed simp

end
