(* ===== verification/Config.thy ===== *)
theory Config
  imports Config_Reader GoURL
begin

text \<open>
  \<open>internal/config/config.go\<close> and \<open>internal/config/logging.go\<close>: the configuration, how
  \<open>Load\<close> reads and validates it, and how it is rendered for the log. The reader is threaded
  through in the order in which the source evaluates the fields.
\<close>

subsection \<open>config.go: the types\<close>

definition minJWTSecretLength :: nat where "minJWTSecretLength = 32"
definition DefaultBcryptCost :: int where "DefaultBcryptCost = 12"
definition MinBcryptCost :: int where "MinBcryptCost = 4"
definition MaxBcryptCost :: int where "MaxBcryptCost = 31"
definition maxDatabaseConns :: int where "maxDatabaseConns = 1000"

type_synonym Environment = gostring
type_synonym AIProvider = gostring

record ServerConfig =
  sc_Port :: int
  sc_LogLevel :: slog_level
  sc_ReadTimeout :: duration
  sc_WriteTimeout :: duration
  sc_IdleTimeout :: duration
  sc_ShutdownTimeout :: duration
  sc_CORSOrigins :: "gostring list"

record DatabaseConfig =
  dc_URL :: gostring
  dc_ConnectTimeout :: duration
  dc_MaxConns :: int
  dc_MinConns :: int
  dc_MaxConnLifetime :: duration
  dc_MaxConnIdleTime :: duration

record RedisConfig =
  rc_URL :: gostring
  rc_ConnectTimeout :: duration

record AuthConfig =
  ac_JWTSecret :: gostring
  ac_AccessTokenTTL :: duration
  ac_RefreshTokenTTL :: duration
  ac_BcryptCost :: int

record AIConfig =
  ai_Provider :: AIProvider
  ai_OpenAIAPIKey :: gostring
  ai_AnalysisModel :: gostring
  ai_PostmortemModel :: gostring
  ai_EmbeddingModel :: gostring
  ai_EmbeddingDimensions :: int
  ai_RequestTimeout :: duration

record Config =
  cfg_Env :: Environment
  cfg_Server :: ServerConfig
  cfg_Database :: DatabaseConfig
  cfg_Redis :: RedisConfig
  cfg_Auth :: AuthConfig
  cfg_AI :: AIConfig

definition EnvDevelopment :: Environment where "EnvDevelopment = ''development''"
definition EnvTest :: Environment where "EnvTest = ''test''"
definition EnvProduction :: Environment where "EnvProduction = ''production''"

definition IsProduction :: "Environment \<Rightarrow> bool" where
  "IsProduction e \<longleftrightarrow> e = EnvProduction"

definition ProviderOpenAI :: AIProvider where "ProviderOpenAI = ''openai''"
definition ProviderMock :: AIProvider where "ProviderMock = ''mock''"

subsection \<open>config.go: validation\<close>

text \<open>The text of a URL error, with what it prints through \<open>%q\<close> kept as quoted pieces.\<close>

fun url_error_text :: "url_error \<Rightarrow> piece list" where
  "url_error_text (EscapeError s) = [Txt ''invalid URL escape '', Quoted s]"
| "url_error_text (InvalidHostError s) = [Txt ''invalid character '', Quoted s, Txt '' in host name'']"
| "url_error_text InvalidControlCharacter = [Txt ''net/url: invalid control character in URL'']"
| "url_error_text MissingScheme = [Txt ''missing protocol scheme'']"
| "url_error_text ColonInFirstSegment = [Txt ''first path segment in URL cannot contain colon'']"
| "url_error_text MissingBracket = [Txt ''missing ']' in host'']"
| "url_error_text (InvalidPort s) = [Txt ''invalid port '', Quoted s, Txt '' after host'']"
| "url_error_text InvalidUserinfo = [Txt ''net/url: invalid userinfo'']"

definition checkURLScheme :: "gostring \<Rightarrow> gostring list \<Rightarrow> piece list option" where
  "checkURLScheme raw allowed =
     (case url_Parse raw of
        Inl (shown, e) \<Rightarrow>
          Some ([Txt ''must be a valid URL: parse '', Quoted shown, Txt '': ''] @ url_error_text e)
      | Inr u \<Rightarrow>
          if u_Scheme u \<in> set allowed then None
          else Some [Txt (''scheme must be one of '' @ join '', '' allowed @ ''; got ''), Quoted (u_Scheme u)])"

definition validateDatabase :: "Config \<Rightarrow> reader \<Rightarrow> reader" where
  "validateDatabase c r =
     (let d = cfg_Database c;
          r = (if dc_URL d \<noteq> [] then
                 (case checkURLScheme (dc_URL d) [''postgres'', ''postgresql''] of
                    Some err \<Rightarrow> r_add ''FLOWCAST_DATABASE_URL'' err r
                  | None \<Rightarrow> r)
               else r);
          r = (if dc_ConnectTimeout d \<le> 0
               then r_add ''FLOWCAST_DATABASE_CONNECT_TIMEOUT'' [Txt ''must be a positive duration''] r else r);
          r = (if dc_MaxConns d < 1 \<or> dc_MaxConns d > maxDatabaseConns
               then r_add ''FLOWCAST_DATABASE_MAX_CONNS''
                 [Txt (''must be between 1 and '' @ show_int maxDatabaseConns @ ''; got '' @ show_int (dc_MaxConns d))] r
               else r);
          r = (if dc_MinConns d < 0
               then r_add ''FLOWCAST_DATABASE_MIN_CONNS''
                 [Txt (''must not be negative; got '' @ show_int (dc_MinConns d))] r
               else r);
          r = (if dc_MinConns d > dc_MaxConns d
               then r_add ''FLOWCAST_DATABASE_MIN_CONNS''
                 [Txt (''must not exceed FLOWCAST_DATABASE_MAX_CONNS ('' @ show_int (dc_MaxConns d)
                       @ ''); got '' @ show_int (dc_MinConns d))] r
               else r)
      in r)"

definition validateRedis :: "Config \<Rightarrow> reader \<Rightarrow> reader" where
  "validateRedis c r =
     (let d = cfg_Redis c;
          r = (if rc_ConnectTimeout d \<le> 0
               then r_add ''FLOWCAST_REDIS_CONNECT_TIMEOUT'' [Txt ''must be a positive duration''] r else r)
      in if rc_URL d = [] then r
         else case checkURLScheme (rc_URL d) [''redis'', ''rediss''] of
                Some err \<Rightarrow> r_add ''FLOWCAST_REDIS_URL'' err r
              | None \<Rightarrow> r)"

definition validateAuth :: "Config \<Rightarrow> reader \<Rightarrow> reader" where
  "validateAuth c r =
     (let a = cfg_Auth c;
          r = (if ac_JWTSecret a \<noteq> [] \<and> length (ac_JWTSecret a) < minJWTSecretLength
               then r_add ''FLOWCAST_JWT_SECRET''
                 [Txt (''must be at least '' @ show_int (int minJWTSecretLength) @ '' characters; got ''
                       @ show_int (int (length (ac_JWTSecret a))))] r
               else r);
          r = (if ac_AccessTokenTTL a \<le> 0
               then r_add ''FLOWCAST_ACCESS_TOKEN_TTL'' [Txt ''must be a positive duration''] r else r);
          r = (if ac_RefreshTokenTTL a \<le> 0
               then r_add ''FLOWCAST_REFRESH_TOKEN_TTL'' [Txt ''must be a positive duration''] r else r);
          r = (if ac_AccessTokenTTL a > 0 \<and> ac_RefreshTokenTTL a > 0
                  \<and> ac_AccessTokenTTL a \<ge> ac_RefreshTokenTTL a
               then r_add ''FLOWCAST_ACCESS_TOKEN_TTL'' [Txt ''must be shorter than FLOWCAST_REFRESH_TOKEN_TTL''] r
               else r);
          r = (if ac_BcryptCost a < MinBcryptCost \<or> ac_BcryptCost a > MaxBcryptCost
               then r_add ''FLOWCAST_BCRYPT_COST''
                 [Txt (''must be between '' @ show_int MinBcryptCost @ '' and '' @ show_int MaxBcryptCost
                       @ ''; got '' @ show_int (ac_BcryptCost a))] r
               else r)
      in r)"

text \<open>The loop over the three model names of the OpenAI provider.\<close>

fun require_models :: "(gostring \<times> gostring) list \<Rightarrow> reader \<Rightarrow> reader" where
  "require_models [] r = r"
| "require_models ((key, value) # ms) r =
     require_models ms
       (if value = [] then r_add key [Txt ''is required when FLOWCAST_AI_PROVIDER=openai''] r else r)"

definition validateAI :: "Config \<Rightarrow> reader \<Rightarrow> reader" where
  "validateAI c r =
     (let a = cfg_AI c;
          r = (if ai_Provider a = ProviderMock then r
               else if ai_Provider a = ProviderOpenAI then
                 require_models
                   [(''FLOWCAST_ANALYSIS_MODEL'', ai_AnalysisModel a),
                    (''FLOWCAST_POSTMORTEM_MODEL'', ai_PostmortemModel a),
                    (''FLOWCAST_EMBEDDING_MODEL'', ai_EmbeddingModel a)]
                   (if ai_OpenAIAPIKey a = []
                    then r_add ''OPENAI_API_KEY'' [Txt ''is required when FLOWCAST_AI_PROVIDER=openai''] r
                    else r)
               else r_add ''FLOWCAST_AI_PROVIDER''
                      [Txt ''must be one of openai, mock; got '', Quoted (ai_Provider a)] r);
          r = (if ai_EmbeddingDimensions a < 1
               then r_add ''FLOWCAST_EMBEDDING_DIMENSIONS''
                 [Txt (''must be at least 1; got '' @ show_int (ai_EmbeddingDimensions a))] r
               else r);
          r = (if ai_RequestTimeout a \<le> 0
               then r_add ''FLOWCAST_AI_REQUEST_TIMEOUT'' [Txt ''must be a positive duration''] r else r)
      in r)"

definition validate :: "Config \<Rightarrow> reader \<Rightarrow> reader" where
  "validate c r =
     (let r = (if cfg_Env c = EnvDevelopment \<or> cfg_Env c = EnvTest \<or> cfg_Env c = EnvProduction then r
               else r_add ''FLOWCAST_ENV''
                      [Txt ''must be one of development, test, production; got '', Quoted (cfg_Env c)] r);
          r = (if sc_Port (cfg_Server c) < 1 \<or> sc_Port (cfg_Server c) > 65535
               then r_add ''FLOWCAST_HTTP_PORT''
                 [Txt (''must be between 1 and 65535; got '' @ show_int (sc_Port (cfg_Server c)))] r
               else r);
          r = validateDatabase c r;
          r = validateRedis c r;
          r = validateAuth c r
      in validateAI c r)"

subsection \<open>config.go: Load\<close>

definition read_server :: "(gostring \<Rightarrow> gostring) \<Rightarrow> reader \<Rightarrow> ServerConfig \<times> reader" where
  "read_server g r =
     (let (port, r) = r_intVal g ''FLOWCAST_HTTP_PORT'' 8080 r;
          (level, r) = r_logLevel g ''FLOWCAST_LOG_LEVEL'' LevelInfo r;
          (rd, r) = r_duration g ''FLOWCAST_HTTP_READ_TIMEOUT'' (15 * second) r;
          (wr, r) = r_duration g ''FLOWCAST_HTTP_WRITE_TIMEOUT'' (30 * second) r;
          (idle, r) = r_duration g ''FLOWCAST_HTTP_IDLE_TIMEOUT'' (60 * second) r;
          (shut, r) = r_duration g ''FLOWCAST_SHUTDOWN_TIMEOUT'' (15 * second) r;
          origins = r_strSlice g ''FLOWCAST_CORS_ORIGINS'' [''http://localhost:3000'']
      in (\<lparr>sc_Port = port, sc_LogLevel = level, sc_ReadTimeout = rd, sc_WriteTimeout = wr,
           sc_IdleTimeout = idle, sc_ShutdownTimeout = shut, sc_CORSOrigins = origins\<rparr>, r))"

definition read_database :: "(gostring \<Rightarrow> gostring) \<Rightarrow> reader \<Rightarrow> DatabaseConfig \<times> reader" where
  "read_database g r =
     (let (url, r) = r_requiredStr g ''FLOWCAST_DATABASE_URL'' r;
          (conn, r) = r_duration g ''FLOWCAST_DATABASE_CONNECT_TIMEOUT'' (15 * second) r;
          (mx, r) = r_intVal g ''FLOWCAST_DATABASE_MAX_CONNS'' 10 r;
          (mn, r) = r_intVal g ''FLOWCAST_DATABASE_MIN_CONNS'' 2 r;
          (life, r) = r_duration g ''FLOWCAST_DATABASE_MAX_CONN_LIFETIME'' hour r;
          (idle, r) = r_duration g ''FLOWCAST_DATABASE_MAX_CONN_IDLE_TIME'' (30 * minute) r
      in (\<lparr>dc_URL = url, dc_ConnectTimeout = conn, dc_MaxConns = mx, dc_MinConns = mn,
           dc_MaxConnLifetime = life, dc_MaxConnIdleTime = idle\<rparr>, r))"

definition read_redis :: "(gostring \<Rightarrow> gostring) \<Rightarrow> reader \<Rightarrow> RedisConfig \<times> reader" where
  "read_redis g r =
     (let (url, r) = r_requiredStr g ''FLOWCAST_REDIS_URL'' r;
          (conn, r) = r_duration g ''FLOWCAST_REDIS_CONNECT_TIMEOUT'' (10 * second) r
      in (\<lparr>rc_URL = url, rc_ConnectTimeout = conn\<rparr>, r))"

definition read_auth :: "(gostring \<Rightarrow> gostring) \<Rightarrow> reader \<Rightarrow> AuthConfig \<times> reader" where
  "read_auth g r =
     (let (secret, r) = r_requiredStr g ''FLOWCAST_JWT_SECRET'' r;
          (access, r) = r_duration g ''FLOWCAST_ACCESS_TOKEN_TTL'' (15 * minute) r;
          (refresh, r) = r_duration g ''FLOWCAST_REFRESH_TOKEN_TTL'' (720 * hour) r;
          (cost, r) = r_intVal g ''FLOWCAST_BCRYPT_COST'' DefaultBcryptCost r
      in (\<lparr>ac_JWTSecret = secret, ac_AccessTokenTTL = access, ac_RefreshTokenTTL = refresh,
           ac_BcryptCost = cost\<rparr>, r))"

definition read_ai :: "(gostring \<Rightarrow> gostring) \<Rightarrow> reader \<Rightarrow> AIConfig \<times> reader" where
  "read_ai g r =
     (let provider = r_str g ''FLOWCAST_AI_PROVIDER'' ProviderMock;
          key = r_str g ''OPENAI_API_KEY'' [];
          analysis = r_str g ''FLOWCAST_ANALYSIS_MODEL'' [];
          postmortem = r_str g ''FLOWCAST_POSTMORTEM_MODEL'' [];
          embedding = r_str g ''FLOWCAST_EMBEDDING_MODEL'' [];
          (dims, r) = r_intVal g ''FLOWCAST_EMBEDDING_DIMENSIONS'' 1536 r;
          (timeout, r) = r_duration g ''FLOWCAST_AI_REQUEST_TIMEOUT'' (60 * second) r
      in (\<lparr>ai_Provider = provider, ai_OpenAIAPIKey = key, ai_AnalysisModel = analysis,
           ai_PostmortemModel = postmortem, ai_EmbeddingModel = embedding,
           ai_EmbeddingDimensions = dims, ai_RequestTimeout = timeout\<rparr>, r))"

definition read_config :: "(gostring \<Rightarrow> gostring) \<Rightarrow> reader \<Rightarrow> Config \<times> reader" where
  "read_config g r =
     (let env = r_str g ''FLOWCAST_ENV'' EnvDevelopment;
          (server, r) = read_server g r;
          (database, r) = read_database g r;
          (redis, r) = read_redis g r;
          (auth, r) = read_auth g r;
          (ai, r) = read_ai g r
      in (\<lparr>cfg_Env = env, cfg_Server = server, cfg_Database = database, cfg_Redis = redis,
           cfg_Auth = auth, cfg_AI = ai\<rparr>, r))"

definition Load :: "(gostring \<Rightarrow> gostring) \<Rightarrow> (ConfigValidationError, Config) result" where
  "Load g =
     (let (cfg, r) = read_config g new_reader;
          r = validate cfg r
      in if length (errs r) > 0 then Inl \<lparr>cve_Fields = errs r\<rparr> else Inr cfg)"

subsection \<open>What Load accepts\<close>

definition scheme_ok :: "gostring \<Rightarrow> gostring list \<Rightarrow> bool" where
  "scheme_ok raw allowed \<longleftrightarrow>
     (case url_Parse raw of Inl _ \<Rightarrow> False | Inr u \<Rightarrow> u_Scheme u \<in> set allowed)"

definition database_ok :: "DatabaseConfig \<Rightarrow> bool" where
  "database_ok d \<longleftrightarrow> scheme_ok (dc_URL d) [''postgres'', ''postgresql''] \<and> 0 < dc_ConnectTimeout d
     \<and> 1 \<le> dc_MaxConns d \<and> dc_MaxConns d \<le> 1000 \<and> 0 \<le> dc_MinConns d \<and> dc_MinConns d \<le> dc_MaxConns d"

definition redis_ok :: "RedisConfig \<Rightarrow> bool" where
  "redis_ok d \<longleftrightarrow> scheme_ok (rc_URL d) [''redis'', ''rediss''] \<and> 0 < rc_ConnectTimeout d"

definition auth_ok :: "AuthConfig \<Rightarrow> bool" where
  "auth_ok a \<longleftrightarrow> 32 \<le> length (ac_JWTSecret a) \<and> 0 < ac_AccessTokenTTL a
     \<and> ac_AccessTokenTTL a < ac_RefreshTokenTTL a \<and> 4 \<le> ac_BcryptCost a \<and> ac_BcryptCost a \<le> 31"

definition ai_ok :: "AIConfig \<Rightarrow> bool" where
  "ai_ok a \<longleftrightarrow>
     (ai_Provider a = ''mock''
      \<or> ai_Provider a = ''openai'' \<and> ai_OpenAIAPIKey a \<noteq> [] \<and> ai_AnalysisModel a \<noteq> []
          \<and> ai_PostmortemModel a \<noteq> [] \<and> ai_EmbeddingModel a \<noteq> [])
     \<and> 1 \<le> ai_EmbeddingDimensions a \<and> 0 < ai_RequestTimeout a"

definition config_ok :: "Config \<Rightarrow> bool" where
  "config_ok c \<longleftrightarrow> cfg_Env c \<in> {''development'', ''test'', ''production''}
     \<and> 1 \<le> sc_Port (cfg_Server c) \<and> sc_Port (cfg_Server c) \<le> 65535
     \<and> database_ok (cfg_Database c) \<and> redis_ok (cfg_Redis c) \<and> auth_ok (cfg_Auth c) \<and> ai_ok (cfg_AI c)"

text \<open>The variables whose value has to parse, and those that have to be there.\<close>

definition int_variables :: "gostring list" where
  "int_variables = [''FLOWCAST_HTTP_PORT'', ''FLOWCAST_DATABASE_MAX_CONNS'', ''FLOWCAST_DATABASE_MIN_CONNS'',
     ''FLOWCAST_BCRYPT_COST'', ''FLOWCAST_EMBEDDING_DIMENSIONS'']"

definition duration_variables :: "gostring list" where
  "duration_variables = [''FLOWCAST_HTTP_READ_TIMEOUT'', ''FLOWCAST_HTTP_WRITE_TIMEOUT'',
     ''FLOWCAST_HTTP_IDLE_TIMEOUT'', ''FLOWCAST_SHUTDOWN_TIMEOUT'', ''FLOWCAST_DATABASE_CONNECT_TIMEOUT'',
     ''FLOWCAST_DATABASE_MAX_CONN_LIFETIME'', ''FLOWCAST_DATABASE_MAX_CONN_IDLE_TIME'',
     ''FLOWCAST_REDIS_CONNECT_TIMEOUT'', ''FLOWCAST_ACCESS_TOKEN_TTL'', ''FLOWCAST_REFRESH_TOKEN_TTL'',
     ''FLOWCAST_AI_REQUEST_TIMEOUT'']"

definition required_variables :: "gostring list" where
  "required_variables = [''FLOWCAST_DATABASE_URL'', ''FLOWCAST_REDIS_URL'', ''FLOWCAST_JWT_SECRET'']"

definition env_readable :: "(gostring \<Rightarrow> gostring) \<Rightarrow> bool" where
  "env_readable g \<longleftrightarrow> list_all (int_readable g) int_variables
     \<and> list_all (duration_readable g) duration_variables \<and> level_readable g ''FLOWCAST_LOG_LEVEL''
     \<and> list_all (env_set g) required_variables"

subsection \<open>What Load reports\<close>

primrec blame :: "(gostring \<times> bool) list \<Rightarrow> gostring list" where
  "blame [] = []"
| "blame (kb # kbs) = (if snd kb then [fst kb] else []) @ blame kbs"

lemma set_blame: "k \<in> set (blame kbs) \<longleftrightarrow> (k, True) \<in> set kbs"
proof (induction kbs)
  case (Cons kb kbs)
  then show ?case by (cases kb) simp
qed simp

lemma blame_append: "blame (xs @ ys) = blame xs @ blame ys"
  by (induction xs) auto

lemma blame_Nil_iff: "blame kbs = [] \<longleftrightarrow> list_all (\<lambda>kb. \<not> snd kb) kbs"
  by (induction kbs) auto

text \<open>Every rule on the resolved values, with the variable that a violation is reported under.\<close>

definition database_rules :: "DatabaseConfig \<Rightarrow> (gostring \<times> bool) list" where
  "database_rules d =
     [(''FLOWCAST_DATABASE_URL'', dc_URL d \<noteq> [] \<and> \<not> scheme_ok (dc_URL d) [''postgres'', ''postgresql'']),
      (''FLOWCAST_DATABASE_CONNECT_TIMEOUT'', dc_ConnectTimeout d \<le> 0),
      (''FLOWCAST_DATABASE_MAX_CONNS'', dc_MaxConns d < 1 \<or> 1000 < dc_MaxConns d),
      (''FLOWCAST_DATABASE_MIN_CONNS'', dc_MinConns d < 0),
      (''FLOWCAST_DATABASE_MIN_CONNS'', dc_MaxConns d < dc_MinConns d)]"

definition redis_rules :: "RedisConfig \<Rightarrow> (gostring \<times> bool) list" where
  "redis_rules d =
     [(''FLOWCAST_REDIS_CONNECT_TIMEOUT'', rc_ConnectTimeout d \<le> 0),
      (''FLOWCAST_REDIS_URL'', rc_URL d \<noteq> [] \<and> \<not> scheme_ok (rc_URL d) [''redis'', ''rediss''])]"

definition auth_rules :: "AuthConfig \<Rightarrow> (gostring \<times> bool) list" where
  "auth_rules a =
     [(''FLOWCAST_JWT_SECRET'', ac_JWTSecret a \<noteq> [] \<and> length (ac_JWTSecret a) < 32),
      (''FLOWCAST_ACCESS_TOKEN_TTL'', ac_AccessTokenTTL a \<le> 0),
      (''FLOWCAST_REFRESH_TOKEN_TTL'', ac_RefreshTokenTTL a \<le> 0),
      (''FLOWCAST_ACCESS_TOKEN_TTL'', 0 < ac_AccessTokenTTL a \<and> 0 < ac_RefreshTokenTTL a
         \<and> ac_RefreshTokenTTL a \<le> ac_AccessTokenTTL a),
      (''FLOWCAST_BCRYPT_COST'', ac_BcryptCost a < 4 \<or> 31 < ac_BcryptCost a)]"

definition ai_rules :: "AIConfig \<Rightarrow> (gostring \<times> bool) list" where
  "ai_rules a =
     (let openai = (ai_Provider a = ''openai'')
      in [(''FLOWCAST_AI_PROVIDER'', ai_Provider a \<notin> {''mock'', ''openai''}),
          (''OPENAI_API_KEY'', openai \<and> ai_OpenAIAPIKey a = []),
          (''FLOWCAST_ANALYSIS_MODEL'', openai \<and> ai_AnalysisModel a = []),
          (''FLOWCAST_POSTMORTEM_MODEL'', openai \<and> ai_PostmortemModel a = []),
          (''FLOWCAST_EMBEDDING_MODEL'', openai \<and> ai_EmbeddingModel a = []),
          (''FLOWCAST_EMBEDDING_DIMENSIONS'', ai_EmbeddingDimensions a < 1),
          (''FLOWCAST_AI_REQUEST_TIMEOUT'', ai_RequestTimeout a \<le> 0)])"

definition config_rules :: "Config \<Rightarrow> (gostring \<times> bool) list" where
  "config_rules c =
     [(''FLOWCAST_ENV'', cfg_Env c \<notin> {''development'', ''test'', ''production''}),
      (''FLOWCAST_HTTP_PORT'', sc_Port (cfg_Server c) < 1 \<or> 65535 < sc_Port (cfg_Server c))]
     @ database_rules (cfg_Database c) @ redis_rules (cfg_Redis c) @ auth_rules (cfg_Auth c)
     @ ai_rules (cfg_AI c)"

text \<open>The reader's own complaints, in reading order: a value that is missing or does not parse.\<close>

definition reader_rules :: "(gostring \<Rightarrow> gostring) \<Rightarrow> (gostring \<times> bool) list" where
  "reader_rules g =
     (let int_bad = (\<lambda>k. (k, \<not> int_readable g k)); duration_bad = (\<lambda>k. (k, \<not> duration_readable g k));
          missing = (\<lambda>k. (k, \<not> env_set g k))
      in [int_bad ''FLOWCAST_HTTP_PORT'', (''FLOWCAST_LOG_LEVEL'', \<not> level_readable g ''FLOWCAST_LOG_LEVEL''),
          duration_bad ''FLOWCAST_HTTP_READ_TIMEOUT'', duration_bad ''FLOWCAST_HTTP_WRITE_TIMEOUT'',
          duration_bad ''FLOWCAST_HTTP_IDLE_TIMEOUT'', duration_bad ''FLOWCAST_SHUTDOWN_TIMEOUT'',
          missing ''FLOWCAST_DATABASE_URL'', duration_bad ''FLOWCAST_DATABASE_CONNECT_TIMEOUT'',
          int_bad ''FLOWCAST_DATABASE_MAX_CONNS'', int_bad ''FLOWCAST_DATABASE_MIN_CONNS'',
          duration_bad ''FLOWCAST_DATABASE_MAX_CONN_LIFETIME'',
          duration_bad ''FLOWCAST_DATABASE_MAX_CONN_IDLE_TIME'',
          missing ''FLOWCAST_REDIS_URL'', duration_bad ''FLOWCAST_REDIS_CONNECT_TIMEOUT'',
          missing ''FLOWCAST_JWT_SECRET'', duration_bad ''FLOWCAST_ACCESS_TOKEN_TTL'',
          duration_bad ''FLOWCAST_REFRESH_TOKEN_TTL'', int_bad ''FLOWCAST_BCRYPT_COST'',
          int_bad ''FLOWCAST_EMBEDDING_DIMENSIONS'', duration_bad ''FLOWCAST_AI_REQUEST_TIMEOUT''])"

definition reported_vars :: "reader \<Rightarrow> gostring list" where
  "reported_vars r = map fe_Variable (errs r)"

lemma reported_add: "reported_vars (r_add k m r) = reported_vars r @ [k]"
  by (simp add: reported_vars_def r_add_def)

lemma reported_check:
  "reported_vars (if bad then r_add k m r else r) = reported_vars r @ (if bad then [k] else [])"
  by (simp add: reported_add)

lemma reported_scheme_check:
  "reported_vars (case checkURLScheme raw allowed of Some e \<Rightarrow> r_add k e r | None \<Rightarrow> r) =
     reported_vars r @ (if scheme_ok raw allowed then [] else [k])"
  by (auto simp: checkURLScheme_def scheme_ok_def reported_add split: sum.splits)

lemma reported_validateDatabase:
  "reported_vars (validateDatabase c r) = reported_vars r @ blame (database_rules (cfg_Database c))"
  unfolding validateDatabase_def Let_def reported_check
  by (simp add: reported_scheme_check database_rules_def maxDatabaseConns_def)

lemma reported_validateRedis:
  "reported_vars (validateRedis c r) = reported_vars r @ blame (redis_rules (cfg_Redis c))"
  by (simp add: validateRedis_def Let_def reported_scheme_check reported_add redis_rules_def)

lemma reported_validateAuth:
  "reported_vars (validateAuth c r) = reported_vars r @ blame (auth_rules (cfg_Auth c))"
  unfolding validateAuth_def Let_def reported_check
  by (simp add: auth_rules_def minJWTSecretLength_def MinBcryptCost_def MaxBcryptCost_def not_le)

lemma reported_require_models:
  "reported_vars (require_models ms r) = reported_vars r @ blame (map (\<lambda>(k, v). (k, v = [])) ms)"
  by (induction ms r rule: require_models.induct) (auto simp: reported_add)

lemma reported_validateAI:
  "reported_vars (validateAI c r) = reported_vars r @ blame (ai_rules (cfg_AI c))"
  unfolding validateAI_def Let_def reported_check
  by (simp add: reported_add reported_require_models ai_rules_def ProviderMock_def ProviderOpenAI_def)

lemma reported_validate: "reported_vars (validate c r) = reported_vars r @ blame (config_rules c)"
  by (simp add: validate_def Let_def reported_validateAI reported_validateAuth reported_validateRedis
      reported_validateDatabase reported_add config_rules_def blame_append
      EnvDevelopment_def EnvTest_def EnvProduction_def)

lemma reported_reads [reader_simps]:
  "reported_vars (snd (r_requiredStr g k r)) = reported_vars r @ (if \<not> env_set g k then [k] else [])"
  "reported_vars (snd (r_intVal g k n r)) = reported_vars r @ (if \<not> int_readable g k then [k] else [])"
  "reported_vars (snd (r_duration g k d r)) = reported_vars r @ (if \<not> duration_readable g k then [k] else [])"
  "reported_vars (snd (r_logLevel g k l r)) = reported_vars r @ (if \<not> level_readable g k then [k] else [])"
  by (simp_all add: reported_vars_def reader_simps field_error_def)

lemma reported_read_config: "reported_vars (snd (read_config g r)) = reported_vars r @ blame (reader_rules g)"
  by (simp only: read_config_def read_server_def read_database_def read_redis_def read_auth_def read_ai_def
      reader_rules_def blame.simps Let_def split_beta reported_reads append_assoc
      fst_conv snd_conv append_Nil2)

lemma errs_Nil_iff: "errs r = [] \<longleftrightarrow> reported_vars r = []"
  by (simp add: reported_vars_def)

text \<open>The error of \<open>Load\<close> lists, for every rule broken, the variable to fix.\<close>

lemma Load_reports:
  "Load g = Inl e \<longleftrightarrow>
     (let (c, r) = read_config g new_reader in errs (validate c r) \<noteq> [] \<and> cve_Fields e = errs (validate c r))"
  by (cases e) (auto simp: Load_def Let_def split_beta)

lemma reported_new: "reported_vars new_reader = []"
  by (simp add: reported_vars_def reader_simps)

lemma Load_names:
  assumes "Load g = Inl e"
  shows "map fe_Variable (cve_Fields e) =
     blame (reader_rules g) @ blame (config_rules (fst (read_config g new_reader)))"
proof -
  from assms have "map fe_Variable (cve_Fields e) =
      reported_vars (validate (fst (read_config g new_reader)) (snd (read_config g new_reader)))"
    by (simp add: Load_reports Let_def split_beta reported_vars_def)
  then show ?thesis by (simp add: reported_validate reported_read_config reported_new)
qed

subsection \<open>Exactly what Load accepts\<close>

lemma not_scheme_ok_Nil [simp]: "[] \<notin> set allowed \<Longrightarrow> \<not> scheme_ok [] allowed"
  by (simp add: scheme_ok_def url_Parse_def parse_no_fragment_def stringContainsCTLByte_def getScheme_def
      parse_hier_def setPath_def before_def after_def ascii_lower_all_def empty_URL_def)

lemma config_rules_ok:
  assumes "dc_URL (cfg_Database c) \<noteq> []" "rc_URL (cfg_Redis c) \<noteq> []" "ac_JWTSecret (cfg_Auth c) \<noteq> []"
  shows "blame (config_rules c) = [] \<longleftrightarrow> config_ok c"
  using assms
  by (auto simp: config_rules_def database_rules_def redis_rules_def auth_rules_def ai_rules_def
      blame_Nil_iff Let_def config_ok_def database_ok_def redis_ok_def auth_ok_def ai_ok_def)

lemma reader_rules_ok: "blame (reader_rules g) = [] \<longleftrightarrow> env_readable g"
  by (auto simp: reader_rules_def blame_Nil_iff Let_def env_readable_def int_variables_def
      duration_variables_def required_variables_def)

lemma read_config_required:
  "dc_URL (cfg_Database (fst (read_config g r))) = TrimSpace (g ''FLOWCAST_DATABASE_URL'')"
  "rc_URL (cfg_Redis (fst (read_config g r))) = TrimSpace (g ''FLOWCAST_REDIS_URL'')"
  "ac_JWTSecret (cfg_Auth (fst (read_config g r))) = TrimSpace (g ''FLOWCAST_JWT_SECRET'')"
  by (simp_all add: read_config_def read_server_def read_database_def read_redis_def read_auth_def
      read_ai_def Let_def split_beta reader_simps)

lemma Load_accepts:
  "Load g = Inr c \<longleftrightarrow> env_readable g \<and> config_ok c \<and> c = fst (read_config g new_reader)"
proof -
  define c' where "c' = fst (read_config g new_reader)"
  have req: "dc_URL (cfg_Database c') \<noteq> []" "rc_URL (cfg_Redis c') \<noteq> []" "ac_JWTSecret (cfg_Auth c') \<noteq> []"
    if "env_readable g"
    using that by (simp_all add: c'_def read_config_required env_readable_def required_variables_def env_set_def)
  have "Load g = Inr c \<longleftrightarrow> blame (reader_rules g) = [] \<and> blame (config_rules c') = [] \<and> c = c'"
    by (auto simp: Load_def Let_def split_beta c'_def errs_Nil_iff reported_validate reported_read_config
        reported_new)
  then show ?thesis
    using config_rules_ok [OF req] reader_rules_ok [of g] by (auto simp: c'_def)
qed

end
