(* ===== verification/Auth_Token.thy ===== *)
theory Auth_Token
  imports Config
begin

text \<open>
  \<open>internal/auth/token.go\<close>: issuing and verifying the JWTs. The JWT library
  (\<open>golang-jwt/jwt/v5\<close>) and the UUID library (\<open>google/uuid\<close>) are parameters: a record of the
  functions the code calls. \<open>jwt_laws\<close> and \<open>uuid_laws\<close> state what they promise: a token signed
  with a secret parses, with that secret, to its claims, if these survive their JSON, when the registered claims are in order
  for the parser's options, and is refused as expired when it is; what a parse accepts is in order;
  the claims that a token parses to do not depend on the options; the text of a UUID parses back.

  The claims of a token hold whole seconds (\<open>jwt.NewNumericDate\<close> truncates).
\<close>

subsection \<open>The libraries\<close>

record claims =
  cl_Subject :: gostring
  cl_Issuer :: gostring
  cl_Audience :: "gostring list"
  cl_ID :: gostring
  cl_IssuedAt :: "time option"
  cl_NotBefore :: "time option"
  cl_ExpiresAt :: "time option"
  cl_TeamID :: uuid
  cl_Kind :: gostring

datatype jwt_method = HS256

record parser_options =
  po_ValidMethods :: "jwt_method list"
  po_Issuer :: gostring
  po_Audience :: gostring
  po_ExpirationRequired :: bool
  po_Now :: time

text \<open>A failed parse: whether \<open>errors.Is(err, jwt.ErrTokenExpired)\<close> holds, and its text.\<close>

record jwt_error =
  je_Expired :: bool
  je_Text :: gostring

record jwt_lib =
  SignedString :: "jwt_method \<Rightarrow> claims \<Rightarrow> gostring \<Rightarrow> (gostring, gostring) result"
  ParseWithClaims :: "parser_options \<Rightarrow> gostring \<Rightarrow> gostring \<Rightarrow> (jwt_error, claims) result"

record uuid_lib =
  uuid_String :: "uuid \<Rightarrow> gostring"
  uuid_Parse :: "gostring \<Rightarrow> (gostring, uuid) result"

definition uuid_laws :: "uuid_lib \<Rightarrow> bool" where
  "uuid_laws ul \<longleftrightarrow> (\<forall>u. uuid_Parse ul (uuid_String ul u) = Inr u \<and> is_ascii (uuid_String ul u))"

definition not_expired :: "parser_options \<Rightarrow> claims \<Rightarrow> bool" where
  "not_expired po c = (case cl_ExpiresAt c of None \<Rightarrow> \<not> po_ExpirationRequired po | Some e \<Rightarrow> po_Now po < e)"

definition registered_ok :: "parser_options \<Rightarrow> claims \<Rightarrow> bool" where
  "registered_ok po c \<longleftrightarrow>
     (case cl_NotBefore c of None \<Rightarrow> True | Some n \<Rightarrow> n \<le> po_Now po)
     \<and> po_Audience po \<in> set (cl_Audience c) \<and> cl_Issuer c = po_Issuer po"

definition NewNumericDate :: "time \<Rightarrow> time" where
  "NewNumericDate t = t - t mod second"

text \<open>Claims that survive their JSON: texts in ASCII and instants of whole seconds.\<close>

definition portable :: "claims \<Rightarrow> bool" where
  "portable c \<longleftrightarrow>
     list_all is_ascii (cl_Subject c # cl_Issuer c # cl_ID c # cl_Kind c # cl_Audience c)
     \<and> list_all (\<lambda>x. case x of None \<Rightarrow> True | Some t \<Rightarrow> NewNumericDate t = t)
         [cl_IssuedAt c, cl_NotBefore c, cl_ExpiresAt c]"

definition jwt_laws :: "jwt_lib \<Rightarrow> bool" where
  "jwt_laws jl \<longleftrightarrow>
     (\<forall>m c secret tok po. SignedString jl m c secret = Inr tok \<longrightarrow> portable c \<longrightarrow> m \<in> set (po_ValidMethods po) \<longrightarrow>
        not_expired po c \<longrightarrow> registered_ok po c \<longrightarrow> ParseWithClaims jl po secret tok = Inr c)
     \<and> (\<forall>m c secret tok po. SignedString jl m c secret = Inr tok \<longrightarrow> portable c \<longrightarrow> m \<in> set (po_ValidMethods po) \<longrightarrow>
        cl_ExpiresAt c \<noteq> None \<longrightarrow> \<not> not_expired po c \<longrightarrow>
        (\<exists>e. ParseWithClaims jl po secret tok = Inl e \<and> je_Expired e))
     \<and> (\<forall>po secret raw c. ParseWithClaims jl po secret raw = Inr c \<longrightarrow>
        not_expired po c \<and> registered_ok po c)
     \<and> (\<forall>po po' secret raw c c'. ParseWithClaims jl po secret raw = Inr c \<longrightarrow>
        ParseWithClaims jl po' secret raw = Inr c' \<longrightarrow> c' = c)"

lemmas jwt_law = jwt_laws_def [THEN iffD1]

lemma jwt_accepts:
  "jwt_laws jl \<Longrightarrow> SignedString jl m c secret = Inr tok \<Longrightarrow> portable c \<Longrightarrow> m \<in> set (po_ValidMethods po) \<Longrightarrow>
     not_expired po c \<Longrightarrow> registered_ok po c \<Longrightarrow> ParseWithClaims jl po secret tok = Inr c"
  by (rule jwt_law [THEN conjunct1, rule_format])

lemma jwt_expires:
  "jwt_laws jl \<Longrightarrow> SignedString jl m c secret = Inr tok \<Longrightarrow> portable c \<Longrightarrow> m \<in> set (po_ValidMethods po) \<Longrightarrow>
     cl_ExpiresAt c \<noteq> None \<Longrightarrow> \<not> not_expired po c \<Longrightarrow>
     \<exists>e. ParseWithClaims jl po secret tok = Inl e \<and> je_Expired e"
  by (rule jwt_law [THEN conjunct2, THEN conjunct1, rule_format])

lemma jwt_checked:
  "jwt_laws jl \<Longrightarrow> ParseWithClaims jl po secret raw = Inr c \<Longrightarrow> not_expired po c \<and> registered_ok po c"
  by (rule jwt_law [THEN conjunct2, THEN conjunct2, THEN conjunct1, rule_format])

lemma jwt_same:
  "jwt_laws jl \<Longrightarrow> ParseWithClaims jl po secret raw = Inr c \<Longrightarrow>
     ParseWithClaims jl po' secret raw = Inr c' \<Longrightarrow> c' = c"
  by (rule jwt_law [THEN conjunct2, THEN conjunct2, THEN conjunct2, rule_format])

subsection \<open>token.go\<close>

definition tokenIssuer :: gostring where "tokenIssuer = ''flowcast''"
definition tokenAudience :: gostring where "tokenAudience = ''flowcast-api''"
definition signingMethod :: jwt_method where "signingMethod = HS256"
definition TokenAccess :: gostring where "TokenAccess = ''access''"
definition TokenRefresh :: gostring where "TokenRefresh = ''refresh''"
definition minSecretLength :: nat where "minSecretLength = 32"

datatype token_error =
    ErrTokenInvalid gostring
  | ErrTokenExpired
  | ErrWrongTokenKind gostring gostring
  | SecretTooShort
  | LifetimesNotPositive
  | AccessNotShorter
  | IdsRequired
  | SigningToken gostring

fun token_Error :: "token_error \<Rightarrow> gostring" where
  "token_Error (ErrTokenInvalid text) = ''token invalid: '' @ text"
| "token_Error ErrTokenExpired = ''token expired''"
| "token_Error (ErrWrongTokenKind want got) =
     ''token is of the wrong kind: expected '' @ want @ '', got '' @ got"
| "token_Error SecretTooShort = ''jwt secret must be at least 32 bytes''"
| "token_Error LifetimesNotPositive = ''token lifetimes must be positive''"
| "token_Error AccessNotShorter = ''access token must be shorter lived than the refresh token''"
| "token_Error IdsRequired = ''user and team ids are required to issue a token''"
| "token_Error (SigningToken e) = ''signing token: '' @ e"

record TokenPair =
  tp_AccessToken :: gostring
  tp_RefreshToken :: gostring
  tp_AccessExpiresAt :: time
  tp_RefreshExpiresAt :: time
  tp_RefreshID :: uuid

text \<open>The clock of a \<open>Tokens\<close> is the argument \<open>now\<close> of the operations that read it.\<close>

record Tokens =
  tk_secret :: gostring
  tk_accessTTL :: duration
  tk_refreshTTL :: duration

definition UserID :: "uuid_lib \<Rightarrow> claims \<Rightarrow> (gostring, uuid) result" where
  "UserID ul c =
     (case uuid_Parse ul (cl_Subject c) of
        Inl e \<Rightarrow> Inl (''token subject is not a uuid: '' @ e)
      | Inr u \<Rightarrow> Inr u)"

definition NewTokens :: "AuthConfig \<Rightarrow> (token_error, Tokens) result" where
  "NewTokens cfg =
     (if length (ac_JWTSecret cfg) < minSecretLength then Inl SecretTooShort
      else if ac_AccessTokenTTL cfg \<le> 0 \<or> ac_RefreshTokenTTL cfg \<le> 0 then Inl LifetimesNotPositive
      else if ac_AccessTokenTTL cfg \<ge> ac_RefreshTokenTTL cfg then Inl AccessNotShorter
      else Inr \<lparr>tk_secret = ac_JWTSecret cfg, tk_accessTTL = ac_AccessTokenTTL cfg,
                tk_refreshTTL = ac_RefreshTokenTTL cfg\<rparr>)"

definition newClaims ::
  "uuid_lib \<Rightarrow> uuid \<Rightarrow> uuid \<Rightarrow> gostring \<Rightarrow> uuid \<Rightarrow> time \<Rightarrow> time \<Rightarrow> claims" where
  "newClaims ul userID teamID kind jti issuedAt expiry =
     \<lparr>cl_Subject = uuid_String ul userID, cl_Issuer = tokenIssuer, cl_Audience = [tokenAudience],
      cl_ID = uuid_String ul jti, cl_IssuedAt = Some (NewNumericDate issuedAt),
      cl_NotBefore = Some (NewNumericDate issuedAt), cl_ExpiresAt = Some (NewNumericDate expiry),
      cl_TeamID = teamID, cl_Kind = kind\<rparr>"

definition sign :: "jwt_lib \<Rightarrow> Tokens \<Rightarrow> claims \<Rightarrow> (token_error, gostring) result" where
  "sign jl t c =
     (case SignedString jl signingMethod c (tk_secret t) of
        Inl e \<Rightarrow> Inl (SigningToken e)
      | Inr s \<Rightarrow> Inr s)"

text \<open>The two ids that \<open>uuid.New\<close> draws are arguments: the refresh id first, then the access id.\<close>

definition IssuePair ::
  "jwt_lib \<Rightarrow> uuid_lib \<Rightarrow> Tokens \<Rightarrow> time \<Rightarrow> uuid \<times> uuid \<Rightarrow> uuid \<Rightarrow> uuid \<Rightarrow> (token_error, TokenPair) result" where
  "IssuePair jl ul t now ids userID teamID =
     (if userID = uuid_nil \<or> teamID = uuid_nil then Inl IdsRequired
      else
        let issuedAt = now;
            accessExpiry = issuedAt + tk_accessTTL t;
            refreshExpiry = issuedAt + tk_refreshTTL t;
            (refreshID, accessID) = ids
        in rbind (sign jl t (newClaims ul userID teamID TokenAccess accessID issuedAt accessExpiry)) (\<lambda>access.
           rbind (sign jl t (newClaims ul userID teamID TokenRefresh refreshID issuedAt refreshExpiry)) (\<lambda>refresh.
             Inr \<lparr>tp_AccessToken = access, tp_RefreshToken = refresh, tp_AccessExpiresAt = accessExpiry,
                  tp_RefreshExpiresAt = refreshExpiry, tp_RefreshID = refreshID\<rparr>)))"

definition parser_for :: "time \<Rightarrow> parser_options" where
  "parser_for now = \<lparr>po_ValidMethods = [signingMethod], po_Issuer = tokenIssuer,
     po_Audience = tokenAudience, po_ExpirationRequired = True, po_Now = now\<rparr>"

definition parse :: "jwt_lib \<Rightarrow> uuid_lib \<Rightarrow> Tokens \<Rightarrow> time \<Rightarrow> gostring \<Rightarrow> gostring \<Rightarrow> (token_error, claims) result" where
  "parse jl ul t now raw want =
     (case ParseWithClaims jl (parser_for now) (tk_secret t) raw of
        Inl e \<Rightarrow> if je_Expired e then Inl ErrTokenExpired else Inl (ErrTokenInvalid (je_Text e))
      | Inr c \<Rightarrow>
          if cl_Kind c \<noteq> want then Inl (ErrWrongTokenKind want (cl_Kind c))
          else if cl_TeamID c = uuid_nil then Inl (ErrTokenInvalid ''missing team'')
          else case UserID ul c of
            Inl e \<Rightarrow> Inl (ErrTokenInvalid e)
          | Inr _ \<Rightarrow> Inr c)"

definition ParseAccess :: "jwt_lib \<Rightarrow> uuid_lib \<Rightarrow> Tokens \<Rightarrow> time \<Rightarrow> gostring \<Rightarrow> (token_error, claims) result" where
  "ParseAccess jl ul t now raw = parse jl ul t now raw TokenAccess"

definition ParseRefresh :: "jwt_lib \<Rightarrow> uuid_lib \<Rightarrow> Tokens \<Rightarrow> time \<Rightarrow> gostring \<Rightarrow> (token_error, claims) result" where
  "ParseRefresh jl ul t now raw = parse jl ul t now raw TokenRefresh"

subsection \<open>Issuer construction\<close>

definition tokens_ok :: "Tokens \<Rightarrow> bool" where
  "tokens_ok t \<longleftrightarrow> 32 \<le> length (tk_secret t) \<and> 0 < tk_accessTTL t \<and> tk_accessTTL t < tk_refreshTTL t"

lemma NewTokens_Inr [result_iff]:
  "NewTokens cfg = Inr t \<longleftrightarrow>
     32 \<le> length (ac_JWTSecret cfg) \<and> 0 < ac_AccessTokenTTL cfg \<and> ac_AccessTokenTTL cfg < ac_RefreshTokenTTL cfg
     \<and> t = \<lparr>tk_secret = ac_JWTSecret cfg, tk_accessTTL = ac_AccessTokenTTL cfg,
            tk_refreshTTL = ac_RefreshTokenTTL cfg\<rparr>"
  by (auto simp: NewTokens_def minSecretLength_def)

lemma NewTokens_ok: "NewTokens cfg = Inr t \<Longrightarrow> tokens_ok t"
  by (auto simp: result_iff tokens_ok_def)

subsection \<open>Parsing\<close>

lemma parse_Inr [result_iff]:
  "parse jl ul t now raw want = Inr c \<longleftrightarrow>
     ParseWithClaims jl (parser_for now) (tk_secret t) raw = Inr c \<and> cl_Kind c = want
     \<and> cl_TeamID c \<noteq> uuid_nil \<and> (\<exists>u. UserID ul c = Inr u)"
  by (auto simp: parse_def split: sum.splits)

text \<open>What a verified token says of itself.\<close>

definition claims_verified :: "uuid_lib \<Rightarrow> time \<Rightarrow> gostring \<Rightarrow> claims \<Rightarrow> bool" where
  "claims_verified ul now kind c \<longleftrightarrow>
     cl_Kind c = kind \<and> cl_TeamID c \<noteq> uuid_nil \<and> (\<exists>u. UserID ul c = Inr u)
     \<and> cl_Issuer c = ''flowcast'' \<and> ''flowcast-api'' \<in> set (cl_Audience c)
     \<and> (\<exists>e. cl_ExpiresAt c = Some e \<and> now < e) \<and> (\<forall>n. cl_NotBefore c = Some n \<longrightarrow> n \<le> now)"

lemma parse_verified:
  assumes "jwt_laws jl" and "parse jl ul t now raw kind = Inr c"
  shows "claims_verified ul now kind c"
proof -
  from assms(2) have c: "ParseWithClaims jl (parser_for now) (tk_secret t) raw = Inr c"
    "cl_Kind c = kind" "cl_TeamID c \<noteq> uuid_nil" "\<exists>u. UserID ul c = Inr u"
    by (simp_all add: result_iff)
  from jwt_checked [OF assms(1) c(1)] have "not_expired (parser_for now) c" "registered_ok (parser_for now) c"
    by simp_all
  with c show ?thesis
    by (auto simp: claims_verified_def not_expired_def registered_ok_def parser_for_def
        tokenIssuer_def tokenAudience_def split: option.splits)
qed

lemma parse_deterministic:
  assumes "jwt_laws jl" "parse jl ul t now raw kind = Inr c" "parse jl ul t now' raw kind' = Inr c'"
  shows "c' = c"
proof -
  from assms(2,3) have "ParseWithClaims jl (parser_for now) (tk_secret t) raw = Inr c"
    "ParseWithClaims jl (parser_for now') (tk_secret t) raw = Inr c'"
    by (simp_all add: result_iff)
  then show ?thesis by (rule jwt_same [OF assms(1)])
qed

lemma parse_kinds_disjoint:
  "ParseAccess jl ul t now raw = Inr c \<Longrightarrow>
     ParseRefresh jl ul t now' raw \<noteq> Inr c \<and> ParseRefresh jl ul t now raw = Inl (ErrWrongTokenKind ''refresh'' ''access'')"
  by (auto simp: ParseAccess_def ParseRefresh_def result_iff TokenAccess_def TokenRefresh_def)
    (simp add: parse_def)

subsection \<open>Issue and parse\<close>

lemma NewNumericDate_bounds: "NewNumericDate t \<le> t" "t < NewNumericDate t + second"
  by (simp_all add: NewNumericDate_def second_def)

lemma NewNumericDate_mono: "s \<le> t \<Longrightarrow> NewNumericDate s \<le> NewNumericDate t"
proof -
  have "NewNumericDate x = second * (x div second)" for x
    by (simp add: NewNumericDate_def minus_mod_eq_mult_div)
  then show "s \<le> t \<Longrightarrow> NewNumericDate s \<le> NewNumericDate t"
    by (simp add: second_def zdiv_mono1)
qed

lemma IssuePair_Inr:
  "IssuePair jl ul t now (rid, aid) u tm = Inr pair \<longleftrightarrow>
     u \<noteq> uuid_nil \<and> tm \<noteq> uuid_nil
     \<and> SignedString jl HS256 (newClaims ul u tm TokenAccess aid now (now + tk_accessTTL t)) (tk_secret t) = Inr (tp_AccessToken pair)
     \<and> SignedString jl HS256 (newClaims ul u tm TokenRefresh rid now (now + tk_refreshTTL t)) (tk_secret t) = Inr (tp_RefreshToken pair)
     \<and> tp_AccessExpiresAt pair = now + tk_accessTTL t \<and> tp_RefreshExpiresAt pair = now + tk_refreshTTL t
     \<and> tp_RefreshID pair = rid"
  by (cases pair) (auto simp: IssuePair_def Let_def rbind_Inr_iff sign_def signingMethod_def split: sum.splits)

lemma jwt_roundtrip:
  assumes "jwt_laws jl" "SignedString jl HS256 c secret = Inr tok" "portable c"
    and "not_expired (parser_for now) c" "registered_ok (parser_for now) c"
  shows "ParseWithClaims jl (parser_for now) secret tok = Inr c"
proof -
  have "HS256 \<in> set (po_ValidMethods (parser_for now))"
    by (simp add: parser_for_def signingMethod_def)
  from jwt_accepts [OF assms(1-3) this assms(4,5)] show ?thesis .
qed

lemma jwt_expiry:
  assumes "jwt_laws jl" "SignedString jl HS256 c secret = Inr tok" "portable c"
    and "cl_ExpiresAt c = Some e" "e \<le> now"
  shows "\<exists>e. ParseWithClaims jl (parser_for now) secret tok = Inl e \<and> je_Expired e"
proof -
  have "HS256 \<in> set (po_ValidMethods (parser_for now))"
    by (simp add: parser_for_def signingMethod_def)
  moreover have "\<not> not_expired (parser_for now) c"
    using assms(4,5) by (simp add: not_expired_def parser_for_def)
  ultimately show ?thesis using jwt_expires [OF assms(1-3)] assms(4) by simp
qed

lemma portable_newClaims:
  "uuid_laws ul \<Longrightarrow> is_ascii kind \<Longrightarrow> portable (newClaims ul u tm kind jti issued expiry)"
  by (simp add: portable_def newClaims_def uuid_laws_def NewNumericDate_def tokenIssuer_def tokenAudience_def)
    (simp add: is_ascii_def)

text \<open>Signed claims of one kind, later: accepted as that kind, refused as any other, then expired.\<close>

lemma parse_signed:
  assumes laws: "jwt_laws jl" "uuid_laws ul"
    and signed: "SignedString jl HS256 (newClaims ul u tm kind jti issued expiry) (tk_secret t) = Inr tok"
    and "is_ascii kind" and "tm \<noteq> uuid_nil" and "NewNumericDate issued \<le> now"
  shows "parse jl ul t now tok want =
    (if NewNumericDate expiry \<le> now then Inl ErrTokenExpired
     else if want \<noteq> kind then Inl (ErrWrongTokenKind want kind)
     else Inr (newClaims ul u tm kind jti issued expiry))"
proof (cases "NewNumericDate expiry \<le> now")
  note portable = portable_newClaims [OF laws(2) assms(4)]
  case True
  with jwt_expiry [OF laws(1) signed portable, of "NewNumericDate expiry" now]
  show ?thesis by (auto simp: newClaims_def parse_def)
next
  note portable = portable_newClaims [OF laws(2) assms(4)]
  case False
  with assms(6) have "ParseWithClaims jl (parser_for now) (tk_secret t) tok = Inr (newClaims ul u tm kind jti issued expiry)"
    by (intro jwt_roundtrip [OF laws(1) signed portable])
      (simp_all add: not_expired_def registered_ok_def newClaims_def parser_for_def)
  moreover have "UserID ul (newClaims ul u tm kind jti issued expiry) = Inr u"
    using laws(2) by (simp add: UserID_def newClaims_def uuid_laws_def)
  ultimately show ?thesis
    using False assms(5) by (simp add: parse_def) (simp add: newClaims_def)
qed

lemma IssuePair_parse:
  assumes "jwt_laws jl" "uuid_laws ul" and "IssuePair jl ul t issued (rid, aid) u tm = Inr pair"
    and "issued \<le> now"
  shows "parse jl ul t now (tp_AccessToken pair) want =
      (if NewNumericDate (tp_AccessExpiresAt pair) \<le> now then Inl ErrTokenExpired
       else if want \<noteq> TokenAccess then Inl (ErrWrongTokenKind want TokenAccess)
       else Inr (newClaims ul u tm TokenAccess aid issued (tp_AccessExpiresAt pair)))"
    and "parse jl ul t now (tp_RefreshToken pair) want =
      (if NewNumericDate (tp_RefreshExpiresAt pair) \<le> now then Inl ErrTokenExpired
       else if want \<noteq> TokenRefresh then Inl (ErrWrongTokenKind want TokenRefresh)
       else Inr (newClaims ul u tm TokenRefresh rid issued (tp_RefreshExpiresAt pair)))"
proof -
  have "NewNumericDate issued \<le> now"
    using NewNumericDate_bounds(1) [of issued] assms(4) by linarith
  with assms(3) show
    "parse jl ul t now (tp_AccessToken pair) want =
      (if NewNumericDate (tp_AccessExpiresAt pair) \<le> now then Inl ErrTokenExpired
       else if want \<noteq> TokenAccess then Inl (ErrWrongTokenKind want TokenAccess)
       else Inr (newClaims ul u tm TokenAccess aid issued (tp_AccessExpiresAt pair)))"
    "parse jl ul t now (tp_RefreshToken pair) want =
      (if NewNumericDate (tp_RefreshExpiresAt pair) \<le> now then Inl ErrTokenExpired
       else if want \<noteq> TokenRefresh then Inl (ErrWrongTokenKind want TokenRefresh)
       else Inr (newClaims ul u tm TokenRefresh rid issued (tp_RefreshExpiresAt pair)))"
    by (auto simp: IssuePair_Inr parse_signed [OF assms(1,2)] TokenAccess_def TokenRefresh_def is_ascii_def)
qed

end
