(* ===== verification/Auth_Password.thy ===== *)
theory Auth_Password
  imports Models_Identity
begin

text \<open>
  \<open>internal/auth/password.go\<close>: the password policy and the bcrypt hasher. bcrypt
  (\<open>golang.org/x/crypto/bcrypt\<close>) is a parameter: a record of its two functions, the first one
  also taking the salt it draws. \<open>bcrypt_laws\<close> states what its documentation promises.
\<close>

definition MinPasswordLength :: nat where "MinPasswordLength = 12"
definition MaxPasswordBytes :: nat where "MaxPasswordBytes = 72"

datatype password_error =
    ErrInvalidCredentials
  | BadCost int
  | PreparingHasher gostring
  | HashingPassword gostring
  | ComparingHash gostring
  | InvalidPassword ValidationError

datatype compare_result = Match | MismatchedHashAndPassword | CompareError gostring

record bcrypt =
  GenerateFromPassword :: "nat \<Rightarrow> gostring \<Rightarrow> int \<Rightarrow> (gostring, gostring) result"
  CompareHashAndPassword :: "gostring \<Rightarrow> gostring \<Rightarrow> compare_result"

definition bcrypt_MinCost :: int where "bcrypt_MinCost = 4"
definition bcrypt_MaxCost :: int where "bcrypt_MaxCost = 31"

definition bcrypt_laws :: "bcrypt \<Rightarrow> bool" where
  "bcrypt_laws b \<longleftrightarrow>
     (\<forall>salt plain cost. bcrypt_MinCost \<le> cost \<and> cost \<le> bcrypt_MaxCost \<and> length plain \<le> 72 \<longrightarrow>
        (\<exists>hash. GenerateFromPassword b salt plain cost = Inr hash \<and> hash \<noteq> []))
     \<and> (\<forall>salt plain cost hash. GenerateFromPassword b salt plain cost = Inr hash \<longrightarrow>
        CompareHashAndPassword b hash plain = Match)
     \<and> (\<forall>salt plain cost. 72 < length plain \<longrightarrow> (\<exists>e. GenerateFromPassword b salt plain cost = Inl e))"

record Hasher =
  hs_cost :: int
  hs_dummyHash :: gostring

definition NewHasher :: "bcrypt \<Rightarrow> nat \<Rightarrow> int \<Rightarrow> (password_error, Hasher) result" where
  "NewHasher b salt cost =
     (if cost < bcrypt_MinCost \<or> cost > bcrypt_MaxCost then Inl (BadCost cost)
      else case GenerateFromPassword b salt ''flowcast-timing-equalizer'' cost of
        Inl e \<Rightarrow> Inl (PreparingHasher e)
      | Inr dummy \<Rightarrow> Inr \<lparr>hs_cost = cost, hs_dummyHash = dummy\<rparr>)"

definition Cost :: "Hasher \<Rightarrow> int" where
  "Cost h = hs_cost h"

definition ValidatePassword :: "gostring \<Rightarrow> ValidationError option" where
  "ValidatePassword plain =
     (let v = [];
          v = (if plain = [] then v @ [\<lparr>fi_Field = ''password'', fi_Message = ''is required''\<rparr>]
               else if rune_count plain < MinPasswordLength then
                 v @ [\<lparr>fi_Field = ''password'',
                       fi_Message = ''must be at least '' @ show_int (int MinPasswordLength) @ '' characters''\<rparr>]
               else v);
          v = (if length plain > MaxPasswordBytes then
                 v @ [\<lparr>fi_Field = ''password'',
                       fi_Message = ''must be at most '' @ show_int (int MaxPasswordBytes) @ '' bytes''\<rparr>]
               else v)
      in if length v = 0 then None else Some \<lparr>ve_Issues = v\<rparr>)"

definition Hash :: "bcrypt \<Rightarrow> nat \<Rightarrow> Hasher \<Rightarrow> gostring \<Rightarrow> (password_error, gostring) result" where
  "Hash b salt h plain =
     (case ValidatePassword plain of
        Some err \<Rightarrow> Inl (InvalidPassword err)
      | None \<Rightarrow>
          (case GenerateFromPassword b salt plain (hs_cost h) of
             Inl e \<Rightarrow> Inl (HashingPassword e)
           | Inr hashed \<Rightarrow> Inr hashed))"

text \<open>
  The comparisons take the time, so \<open>Verify\<close> and \<open>VerifyDummy\<close> also return the hashes that they
  compared against.
\<close>

definition Verify :: "bcrypt \<Rightarrow> gostring \<Rightarrow> gostring \<Rightarrow> password_error option \<times> gostring list" where
  "Verify b hash plain =
     (case CompareHashAndPassword b hash plain of
        Match \<Rightarrow> (None, [hash])
      | MismatchedHashAndPassword \<Rightarrow> (Some ErrInvalidCredentials, [hash])
      | CompareError e \<Rightarrow> (Some (ComparingHash e), [hash]))"

definition VerifyDummy :: "Hasher \<Rightarrow> password_error \<times> gostring list" where
  "VerifyDummy h = (ErrInvalidCredentials, [hs_dummyHash h])"

subsection \<open>The policy\<close>

definition password_ok :: "gostring \<Rightarrow> bool" where
  "password_ok plain \<longleftrightarrow> 12 \<le> rune_count plain \<and> length plain \<le> 72"

lemma rune_count_Nil [simp]: "rune_count [] = 0"
  by simp

lemma ValidatePassword_None: "ValidatePassword plain = None \<longleftrightarrow> password_ok plain"
  by (auto simp: ValidatePassword_def password_ok_def Let_def MinPasswordLength_def MaxPasswordBytes_def)

lemma ValidatePassword_Some:
  "ValidatePassword plain = Some e \<Longrightarrow> \<not> password_ok plain \<and> ve_Issues e \<noteq> [] \<and>
     (\<forall>i \<in> set (ve_Issues e). fi_Field i = ''password'')"
  by (auto simp: ValidatePassword_def password_ok_def Let_def MinPasswordLength_def MaxPasswordBytes_def
      split: if_splits)

subsection \<open>Hashing\<close>

definition hasher_ok :: "bcrypt \<Rightarrow> Hasher \<Rightarrow> bool" where
  "hasher_ok b h \<longleftrightarrow> bcrypt_MinCost \<le> hs_cost h \<and> hs_cost h \<le> bcrypt_MaxCost
     \<and> CompareHashAndPassword b (hs_dummyHash h) ''flowcast-timing-equalizer'' = Match"

lemma bcrypt_generates:
  assumes "bcrypt_laws b" and "bcrypt_MinCost \<le> cost" "cost \<le> bcrypt_MaxCost" "length plain \<le> 72"
  obtains hash where "GenerateFromPassword b salt plain cost = Inr hash" and "hash \<noteq> []"
  using assms unfolding bcrypt_laws_def by blast

lemma bcrypt_matches:
  "bcrypt_laws b \<Longrightarrow> GenerateFromPassword b salt plain cost = Inr hash \<Longrightarrow>
     CompareHashAndPassword b hash plain = Match"
  unfolding bcrypt_laws_def by blast

lemma NewHasher_succeeds:
  assumes "bcrypt_laws b"
  shows "(\<exists>h. NewHasher b salt cost = Inr h) \<longleftrightarrow> 4 \<le> cost \<and> cost \<le> 31"
proof -
  have "\<exists>hash. GenerateFromPassword b salt ''flowcast-timing-equalizer'' cost = Inr hash"
    if "bcrypt_MinCost \<le> cost" "cost \<le> bcrypt_MaxCost"
    by (rule bcrypt_generates [OF assms that, of "''flowcast-timing-equalizer''" salt]) auto
  then show ?thesis
    by (auto simp: NewHasher_def bcrypt_MinCost_def bcrypt_MaxCost_def not_less split: sum.splits)
qed

lemma NewHasher_ok: "bcrypt_laws b \<Longrightarrow> NewHasher b salt cost = Inr h \<Longrightarrow> hasher_ok b h \<and> Cost h = cost"
  by (auto simp: NewHasher_def hasher_ok_def Cost_def bcrypt_matches split: sum.splits if_splits)

lemma Hash_succeeds:
  assumes "bcrypt_laws b" and "hasher_ok b h"
  shows "(\<exists>hash. Hash b salt h plain = Inr hash) \<longleftrightarrow> password_ok plain"
proof (cases "password_ok plain")
  case True
  then have len: "length plain \<le> 72" by (simp add: password_ok_def)
  from assms(2) obtain hash where "GenerateFromPassword b salt plain (hs_cost h) = Inr hash"
    using bcrypt_generates [OF assms(1) _ _ len] unfolding hasher_ok_def by metis
  with True show ?thesis by (simp add: Hash_def ValidatePassword_None [symmetric])
next
  case False
  then show ?thesis by (auto simp: Hash_def ValidatePassword_None [symmetric])
qed

lemma Hash_result:
  assumes "bcrypt_laws b" and "hasher_ok b h" and "Hash b salt h plain = Inr hash"
  shows "Verify b hash plain = (None, [hash])" and "hash \<noteq> []"
proof -
  from assms(3) have gen: "GenerateFromPassword b salt plain (hs_cost h) = Inr hash"
    and "ValidatePassword plain = None"
    by (simp_all add: Hash_def split: option.splits sum.splits)
  then have "length plain \<le> 72" by (simp add: ValidatePassword_None password_ok_def)
  with gen assms(1,2) show "hash \<noteq> []"
    unfolding hasher_ok_def using bcrypt_generates [OF assms(1), of "hs_cost h" plain salt] by auto
  show "Verify b hash plain = (None, [hash])"
    by (simp add: Verify_def bcrypt_matches [OF assms(1) gen])
qed

end
