(* ===== verification/API.thy ===== *)
theory API
  imports HTTP_Writer Auth_Token Auth_Password
begin

text \<open>
  \<open>internal/api\<close>: request ids, the caller's identity, the shape of responses and errors, and the
  decoding of request bodies.

  A request carries its context: the request id and the identity that middleware attaches to it.
  The world starts with the log. The libraries are one record, \<open>lib\<close>: the bytes that
  \<open>encoding/json\<close> makes of a value (none when it fails to marshal, and the error then), the media type that
  \<open>mime.ParseMediaType\<close> reads, the non-ASCII rows of \<open>unicode.ToLower\<close> and \<open>unicode.IsPrint\<close>,
  and the UUID, JWT and bcrypt libraries.
\<close>

subsection \<open>Requests, worlds, handlers\<close>

record Identity =
  id_UserID :: uuid
  id_TeamID :: uuid

record request =
  rq_Method :: gostring
  rq_Path :: gostring
  rq_Header :: header
  rq_Cookies :: "(gostring \<times> gostring) list"
  rq_Body :: gostring
  rq_RemoteAddr :: gostring
  rq_ctx_id :: "gostring option"
  rq_ctx_identity :: "Identity option"

datatype attr = AString gostring | AInt int | AId uuid

record log_entry =
  le_Level :: slog_level
  le_Msg :: gostring
  le_Attrs :: "(gostring \<times> attr) list"

record world =
  w_log :: "log_entry list"

definition emit :: "slog_level \<Rightarrow> gostring \<Rightarrow> (gostring \<times> attr) list \<Rightarrow> 'z world_scheme \<Rightarrow> 'z world_scheme" where
  "emit level msg attrs w = w\<lparr>w_log := w_log w @ [\<lparr>le_Level = level, le_Msg = msg, le_Attrs = attrs\<rparr>]\<rparr>"

datatype panic_value = ErrAbortHandler | PanicValue gostring

datatype 'w outcome = Returned 'w rw | Panicked panic_value 'w rw

type_synonym 'w handler = "request \<Rightarrow> 'w \<Rightarrow> rw \<Rightarrow> 'w outcome"

record lib =
  lb_encode :: "json \<Rightarrow> gostring option"
  lb_encode_error :: "json \<Rightarrow> gostring"
  lb_media :: "gostring \<Rightarrow> gostring option"
  lb_ulower :: "nat \<Rightarrow> nat"
  lb_uprint :: "nat \<Rightarrow> bool"
  lb_uuid :: uuid_lib
  lb_jwt :: jwt_lib
  lb_bcrypt :: bcrypt

subsection \<open>requestid.go\<close>

definition RequestIDHeader :: gostring where "RequestIDHeader = ''X-Request-ID''"
definition MaxRequestIDLen :: nat where "MaxRequestIDLen = 64"

definition ContextWithRequestID :: "request \<Rightarrow> gostring \<Rightarrow> request" where
  "ContextWithRequestID r i = r\<lparr>rq_ctx_id := Some i\<rparr>"

definition RequestID_of :: "request \<Rightarrow> gostring" where
  "RequestID_of r = (case rq_ctx_id r of Some i \<Rightarrow> i | None \<Rightarrow> [])"

definition id_rune :: "nat \<Rightarrow> bool" where
  "id_rune r \<longleftrightarrow> (97 \<le> r \<and> r \<le> 122) \<or> (65 \<le> r \<and> r \<le> 90) \<or> (48 \<le> r \<and> r \<le> 57)
     \<or> r = 45 \<or> r = 95 \<or> r = 46"

definition ValidRequestID :: "gostring \<Rightarrow> bool" where
  "ValidRequestID s \<longleftrightarrow>
     (if length s = 0 \<or> length s > MaxRequestIDLen then False
      else list_all (\<lambda>(_, r). id_rune r) (runes_from 0 s))"

text \<open>The characters of an accepted id: no control character, no quote, no space.\<close>

definition id_char :: "char \<Rightarrow> bool" where
  "id_char c \<longleftrightarrow> is_digit c \<or> (97 \<le> byte_of c \<and> byte_of c \<le> 122) \<or> (65 \<le> byte_of c \<and> byte_of c \<le> 90)
     \<or> c = CHR ''-'' \<or> c = CHR ''_'' \<or> c = CHR ''.''"

lemma id_char_iff: "byte_of c < 128 \<Longrightarrow> id_char c \<longleftrightarrow> id_rune (byte_of c)"
proof -
  have "c = CHR ''-'' \<longleftrightarrow> byte_of c = 45" "c = CHR ''_'' \<longleftrightarrow> byte_of c = 95" "c = CHR ''.'' \<longleftrightarrow> byte_of c = 46"
    by (simp_all flip: byte_of_eq_iff)
  then show ?thesis by (auto simp: id_char_def id_rune_def is_digit_def)
qed

lemma runes_id_chars: "list_all (\<lambda>(_, r). id_rune r) (runes_from i s) \<longleftrightarrow> list_all id_char s"
proof (induction i s rule: runes_from.induct)
  case (1 i s)
  show ?case
  proof (cases s)
    case (Cons c t)
    show ?thesis
    proof (cases "byte_of c < 128")
      case True
      have "decode_rune (c # t) = (byte_of c, 1)" by (rule decode_rune_ascii [OF True])
      with 1 Cons True show ?thesis
        by (simp add: runes_from_ascii id_char_iff)
    next
      case False
      then have "128 \<le> fst (decode_rune (c # t))"
        using decode_rune_high [of c t] by auto
      then have "\<not> id_rune (fst (decode_rune s))" by (simp add: id_rune_def Cons)
      moreover have "\<not> id_char c"
        using False by (auto simp: id_char_def is_digit_def)
      ultimately show ?thesis
        by (simp add: Cons runes_from.simps split_beta)
    qed
  qed simp
qed

lemma ValidRequestID_iff: "ValidRequestID s \<longleftrightarrow> s \<noteq> [] \<and> length s \<le> 64 \<and> list_all id_char s"
  by (auto simp: ValidRequestID_def MaxRequestIDLen_def runes_id_chars)

subsection \<open>identity.go\<close>

definition ContextWithIdentity :: "request \<Rightarrow> Identity \<Rightarrow> request" where
  "ContextWithIdentity r i = r\<lparr>rq_ctx_identity := Some i\<rparr>"

definition IdentityFrom :: "request \<Rightarrow> Identity \<times> bool" where
  "IdentityFrom r =
     (case rq_ctx_identity r of
        Some i \<Rightarrow> (i, True)
      | None \<Rightarrow> (\<lparr>id_UserID = 0, id_TeamID = 0\<rparr>, False))"

subsection \<open>response.go\<close>

type_synonym ErrorCode = gostring

definition CodeBadRequest :: ErrorCode where "CodeBadRequest = ''bad_request''"
definition CodeValidationFailed :: ErrorCode where "CodeValidationFailed = ''validation_failed''"
definition CodeUnauthorized :: ErrorCode where "CodeUnauthorized = ''unauthorized''"
definition CodeTokenExpired :: ErrorCode where "CodeTokenExpired = ''token_expired''"
definition CodeForbidden :: ErrorCode where "CodeForbidden = ''forbidden''"
definition CodeNotFound :: ErrorCode where "CodeNotFound = ''not_found''"
definition CodeMethodNotAllowed :: ErrorCode where "CodeMethodNotAllowed = ''method_not_allowed''"
definition CodeConflict :: ErrorCode where "CodeConflict = ''conflict''"
definition CodeRateLimited :: ErrorCode where "CodeRateLimited = ''rate_limited''"
definition CodeInternal :: ErrorCode where "CodeInternal = ''internal_error''"
definition CodeUnavailable :: ErrorCode where "CodeUnavailable = ''service_unavailable''"

record ErrorResponse =
  er_Error :: ErrorCode
  er_Message :: gostring
  er_RequestID :: gostring
  er_Fields :: "FieldIssue list"

definition ErrorResponse_json :: "ErrorResponse \<Rightarrow> json" where
  "ErrorResponse_json e = JObject
     ([(''error'', JString (er_Error e)), (''message'', JString (er_Message e))]
      @ (if er_RequestID e = [] then [] else [(''request_id'', JString (er_RequestID e))])
      @ (if er_Fields e = [] then []
         else [(''fields'', JArray (map (\<lambda>f. JObject [(''field'', JString (fi_Field f)),
                                                     (''message'', JString (fi_Message f))]) (er_Fields e)))]))"

definition genericInternalMessage :: gostring where
  "genericInternalMessage = ''An unexpected error occurred. Please try again.''"

definition writeRaw :: "int \<Rightarrow> gostring \<Rightarrow> rw \<Rightarrow> rw" where
  "writeRaw status body w =
     (let w = set_header ''Content-Type'' ''application/json; charset=utf-8'' w;
          w = set_header ''X-Content-Type-Options'' ''nosniff'' w;
          w = WriteHeader status w
      in fst (Write body w))"

definition mustEncodeFallback :: "lib \<Rightarrow> ErrorResponse \<Rightarrow> gostring" where
  "mustEncodeFallback lb resp =
     (case lb_encode lb (ErrorResponse_json resp) of
        None \<Rightarrow> ''{'' @ CHR 0x22 # ''error'' @ CHR 0x22 # '':'' @ CHR 0x22 # ''internal_error'' @ CHR 0x22 # ''}''
      | Some b \<Rightarrow> b)"

text \<open>\<open>Encode\<close> ends the value with a newline.\<close>

definition WriteJSON ::
  "lib \<Rightarrow> request \<Rightarrow> int \<Rightarrow> json \<Rightarrow> 'z world_scheme \<Rightarrow> rw \<Rightarrow> 'z world_scheme \<times> rw" where
  "WriteJSON lb r status payload w rw =
     (case lb_encode lb payload of
        None \<Rightarrow>
          (emit LevelError ''encoding response body''
             [(''error'', AString (lb_encode_error lb payload)), (''request_id'', AString (RequestID_of r))] w,
           writeRaw 500 (mustEncodeFallback lb
             \<lparr>er_Error = CodeInternal, er_Message = genericInternalMessage,
              er_RequestID = RequestID_of r, er_Fields = []\<rparr>) rw)
      | Some b \<Rightarrow> (w, writeRaw status (b @ [CHR 0x0A]) rw))"

definition WriteError ::
  "lib \<Rightarrow> request \<Rightarrow> int \<Rightarrow> ErrorCode \<Rightarrow> gostring \<Rightarrow> 'z world_scheme \<Rightarrow> rw \<Rightarrow> 'z world_scheme \<times> rw" where
  "WriteError lb r status code message =
     WriteJSON lb r status (ErrorResponse_json
       \<lparr>er_Error = code, er_Message = message, er_RequestID = RequestID_of r, er_Fields = []\<rparr>)"

definition WriteInternalError ::
  "lib \<Rightarrow> request \<Rightarrow> gostring \<Rightarrow> 'z world_scheme \<Rightarrow> rw \<Rightarrow> 'z world_scheme \<times> rw" where
  "WriteInternalError lb r cause w =
     WriteError lb r 500 CodeInternal genericInternalMessage
       (emit LevelError ''request failed''
          [(''error'', AString cause), (''request_id'', AString (RequestID_of r)),
           (''method'', AString (rq_Method r)), (''path'', AString (rq_Path r))] w)"

text \<open>The error is a validation error (\<open>Inr\<close>) or some other one.\<close>

definition WriteValidationError ::
  "lib \<Rightarrow> request \<Rightarrow> (gostring, ValidationError) result \<Rightarrow> 'z world_scheme \<Rightarrow> rw \<Rightarrow> 'z world_scheme \<times> rw" where
  "WriteValidationError lb r err =
     (case err of
        Inl _ \<Rightarrow> WriteError lb r 400 CodeBadRequest ''The request could not be processed.''
      | Inr verr \<Rightarrow>
          WriteJSON lb r 422 (ErrorResponse_json
            \<lparr>er_Error = CodeValidationFailed, er_Message = ''The request contains invalid fields.'',
             er_RequestID = RequestID_of r, er_Fields = ve_Issues verr\<rparr>))"

subsection \<open>request.go\<close>

definition MaxRequestBodyBytes :: nat where "MaxRequestBodyBytes = 1048576"

datatype json_error =
    JsonEOF
  | MaxBytesError
  | JsonSyntaxError gostring
  | UnmarshalTypeError gostring
  | OtherJsonError gostring

text \<open>
  A body behind \<open>http.MaxBytesReader\<close>: the bytes that can be read, and whether reading further
  fails because there are more. A decoder reads one JSON value off it.
\<close>

record body_reader =
  br_bytes :: gostring
  br_exceeded :: bool

definition MaxBytesReader :: "gostring \<Rightarrow> nat \<Rightarrow> body_reader" where
  "MaxBytesReader body n = \<lparr>br_bytes = take n body, br_exceeded = (n < length body)\<rparr>"

text \<open>A decoder that rejects unknown fields, for one type, and one for \<open>struct{}\<close>.\<close>

record 'a json_decoder =
  jd_Decode :: "body_reader \<Rightarrow> (json_error, 'a \<times> body_reader) result"
  jd_DecodeEmpty :: "body_reader \<Rightarrow> json_error option"

definition unknown_field_prefix :: gostring where
  "unknown_field_prefix = ''json: unknown field ''"

definition decodeError :: "(nat \<Rightarrow> bool) \<Rightarrow> json_error \<Rightarrow> gostring" where
  "decodeError uprint err =
     (case err of
        JsonEOF \<Rightarrow> ''request body must not be empty''
      | MaxBytesError \<Rightarrow> ''request body must not exceed '' @ show_int (int MaxRequestBodyBytes) @ '' bytes''
      | JsonSyntaxError _ \<Rightarrow> ''request body is not valid JSON''
      | UnmarshalTypeError field \<Rightarrow> ''field '' @ go_quote uprint field @ '' has the wrong type''
      | OtherJsonError text \<Rightarrow>
          if take (length unknown_field_prefix) text = unknown_field_prefix
          then ''unknown field '' @ drop (length unknown_field_prefix) text
          else ''request body is not valid JSON'')"

definition requireJSONContentType :: "lib \<Rightarrow> request \<Rightarrow> gostring option" where
  "requireJSONContentType lb r =
     (let raw = Header_Get (rq_Header r) ''Content-Type''
      in if raw = [] then Some ''Content-Type must be application/json''
         else case lb_media lb raw of
           None \<Rightarrow> Some ''Content-Type must be application/json''
         | Some mediaType \<Rightarrow>
             if mediaType \<noteq> ''application/json'' then Some ''Content-Type must be application/json'' else None)"

definition DecodeJSON ::
  "lib \<Rightarrow> 'a json_decoder \<Rightarrow> request \<Rightarrow> (gostring, 'a) result" where
  "DecodeJSON lb dec r =
     (case requireJSONContentType lb r of
        Some e \<Rightarrow> Inl e
      | None \<Rightarrow>
          (case jd_Decode dec (MaxBytesReader (rq_Body r) MaxRequestBodyBytes) of
             Inl err \<Rightarrow> Inl (decodeError (lb_uprint lb) err)
           | Inr (dst, rest) \<Rightarrow>
               if jd_DecodeEmpty dec rest \<noteq> Some JsonEOF
               then Inl ''request body must contain a single JSON object''
               else Inr dst))"

lemma DecodeJSON_Inr [result_iff]:
  "DecodeJSON lb dec r = Inr x \<longleftrightarrow>
     lb_media lb (Header_Get (rq_Header r) ''Content-Type'') = Some ''application/json''
     \<and> Header_Get (rq_Header r) ''Content-Type'' \<noteq> []
     \<and> (\<exists>rest. jd_Decode dec (MaxBytesReader (rq_Body r) MaxRequestBodyBytes) = Inr (x, rest)
          \<and> jd_DecodeEmpty dec rest = Some JsonEOF)"
  by (auto simp: DecodeJSON_def requireJSONContentType_def Let_def split: option.splits sum.splits if_splits)

subsection \<open>What a response looks like once written\<close>

text \<open>The status line, the headers and the cookies that went out, and the body.\<close>

definition response_status :: "rw \<Rightarrow> int option" where
  "response_status w = map_option fst (rp_sent (rw_base w))"

definition sent_header :: "rw \<Rightarrow> gostring \<Rightarrow> gostring" where
  "sent_header w k = (case rp_sent (rw_base w) of None \<Rightarrow> [] | Some (_, h, _) \<Rightarrow> Header_Get h k)"

definition sent_cookies :: "rw \<Rightarrow> Cookie list" where
  "sent_cookies w = (case rp_sent (rw_base w) of None \<Rightarrow> [] | Some (_, _, cs) \<Rightarrow> cs)"

text \<open>A writer on which nothing has been sent.\<close>

definition unsent :: "rw \<Rightarrow> bool" where
  "unsent w \<longleftrightarrow> rw_ok w \<and> rp_sent (rw_base w) = None"

lemma rw_ok_update [simp]:
  "(\<And>r. rp_sent (f r) = rp_sent r) \<Longrightarrow> rw_ok (rw_update f w) = rw_ok w"
  by (induction w) auto

lemma unsent_set_header [simp]: "unsent (set_header k v w) = unsent w"
  by (simp add: unsent_def set_header_def)

lemma unsent_SetCookie [simp]: "unsent (SetCookie c w) = unsent w"
  by (simp add: unsent_def SetCookie_def)

lemma writeRaw_sent [http_simps]:
  assumes "unsent w" and "final_status status"
  shows "response_status (writeRaw status body w) = Some status"
    and "sent_cookies (writeRaw status body w) = rp_cookies (rw_base w)"
    and "sent_header (writeRaw status body w) ''Content-Type'' = ''application/json; charset=utf-8''"
    and "rp_body (rw_base (writeRaw status body w)) =
      (if body_allowed status \<and> \<not> rp_broken (rw_base w) then rp_body (rw_base w) @ body else rp_body (rw_base w))"
    and "rw_ok (writeRaw status body w)"
    and "header_key k \<noteq> header_key ''Content-Type'' \<Longrightarrow> header_key k \<noteq> header_key ''X-Content-Type-Options'' \<Longrightarrow>
      sent_header (writeRaw status body w) k = Header_Get (rp_header (rw_base w)) k"
proof -
  define w1 where "w1 = set_header ''X-Content-Type-Options'' ''nosniff''
    (set_header ''Content-Type'' ''application/json; charset=utf-8'' w)"
  have w1: "unsent w1" "rp_cookies (rw_base w1) = rp_cookies (rw_base w)"
    "rp_body (rw_base w1) = rp_body (rw_base w)" "rp_broken (rw_base w1) = rp_broken (rw_base w)"
    "Header_Get (rp_header (rw_base w1)) ''Content-Type'' = ''application/json; charset=utf-8''"
    using assms(1)
    by (simp_all add: w1_def) (simp_all add: set_header_def Header_Get_def Header_Set_def header_key_def
        ascii_upper_def ascii_lower_def)
  define w2 where "w2 = WriteHeader status w1"
  from WriteHeader_sent [of w1 status] w1(1) assms(2)
  have w2: "rw_ok w2" "rw_base w2 = base_WriteHeader status (rw_base w1)"
    by (simp_all add: w2_def unsent_def)
  have sent: "rp_sent (rw_base w2) = Some (status, rp_header (rw_base w1), rp_cookies (rw_base w1))"
    using w1(1) assms(2) w2(2) by (simp add: base_WriteHeader_def unsent_def final_status_def)
  have eq: "writeRaw status body w = fst (Write body w2)"
    by (simp add: writeRaw_def Let_def w2_def w1_def)
  note base = Write_sent [OF w2(1), of body]
  have sent': "rp_sent (rw_base (writeRaw status body w)) =
      Some (status, rp_header (rw_base w1), rp_cookies (rw_base w1))"
    by (simp add: eq base base_Write_status sent)
  from sent' w1 show "response_status (writeRaw status body w) = Some status"
    "sent_cookies (writeRaw status body w) = rp_cookies (rw_base w)"
    "sent_header (writeRaw status body w) ''Content-Type'' = ''application/json; charset=utf-8''"
    by (simp_all add: response_status_def sent_cookies_def sent_header_def)
  show "rp_body (rw_base (writeRaw status body w)) =
      (if body_allowed status \<and> \<not> rp_broken (rw_base w) then rp_body (rw_base w) @ body else rp_body (rw_base w))"
    using w1 w2(2) sent
    by (auto simp: eq base base_Write_def base_WriteHeader_def split: if_splits)
  show "rw_ok (writeRaw status body w)" by (simp add: eq base)
  show "header_key k \<noteq> header_key ''Content-Type'' \<Longrightarrow> header_key k \<noteq> header_key ''X-Content-Type-Options'' \<Longrightarrow>
      sent_header (writeRaw status body w) k = Header_Get (rp_header (rw_base w)) k"
    by (simp add: sent_header_def sent' w1_def) (simp add: set_header_def Header_Get_def Header_Set_def)
qed

text \<open>Every status that the program answers with.\<close>

lemma final_statuses [simp]:
  "final_status 200" "final_status 201" "final_status 204" "final_status 400" "final_status 401"
  "final_status 404" "final_status 405" "final_status 409" "final_status 422" "final_status 500" "final_status 503"
  by (simp_all add: final_status_def)

lemma body_allowed_statuses [simp]:
  "body_allowed 200" "body_allowed 201" "body_allowed 400" "body_allowed 401" "body_allowed 404"
  "body_allowed 405" "body_allowed 409" "body_allowed 422" "body_allowed 500" "body_allowed 503"
  by (simp_all add: body_allowed_def)

end
