(* ===== verification/Middleware.thy ===== *)
theory Middleware
  imports API
begin

text \<open>
  \<open>internal/middleware\<close>: the request id, the request log, panic recovery, CORS and
  authentication. A middleware maps a handler to a handler. What it draws (a fresh request id, the
  time a request takes, the clock) is an argument; \<open>cors.Handler\<close> of \<open>go-chi/cors\<close> is a parameter.
\<close>

subsection \<open>requestid.go\<close>

definition RequestID :: "gostring \<Rightarrow> 'w handler \<Rightarrow> 'w handler" where
  "RequestID fresh next r w rw =
     (let i = Header_Get (rq_Header r) RequestIDHeader;
          i = (if \<not> ValidRequestID i then fresh else i)
      in next (ContextWithRequestID r i) w (set_header RequestIDHeader i rw))"

subsection \<open>logging.go\<close>

definition levelForStatus :: "int \<Rightarrow> slog_level" where
  "levelForStatus status =
     (if status \<ge> 500 then LevelError else if status \<ge> 400 then LevelWarn else LevelInfo)"

text \<open>The host of \<open>net.SplitHostPort\<close>, \<open>None\<close> for each of its errors.\<close>

definition split_host :: "gostring \<Rightarrow> gostring option" where
  "split_host hp =
     (if CHR '':'' \<notin> set hp then None
      else if take 1 hp = ''['' then
        (let inside = before CHR '']'' hp; rest = after CHR '']'' hp
         in if CHR '']'' \<notin> set hp then None
            else if take 1 rest \<noteq> '':'' \<or> CHR '':'' \<in> set (drop 1 rest) then None
            else if CHR ''['' \<in> set (drop 1 hp) then None
            else if CHR '']'' \<in> set rest then None
            else Some (drop 1 inside))
      else
        (let host = before_last CHR '':'' hp
         in if CHR '':'' \<in> set host then None
            else if CHR ''['' \<in> set hp \<or> CHR '']'' \<in> set hp then None
            else Some host))"

definition remoteIP :: "request \<Rightarrow> gostring" where
  "remoteIP r = (case split_host (rq_RemoteAddr r) of None \<Rightarrow> rq_RemoteAddr r | Some host \<Rightarrow> host)"

definition request_attrs :: "request \<Rightarrow> recorder \<Rightarrow> duration \<Rightarrow> (gostring \<times> attr) list" where
  "request_attrs r rc elapsed =
     [(''request_id'', AString (RequestID_of r)), (''method'', AString (rq_Method r)),
      (''path'', AString (rq_Path r)), (''status'', AInt (rc_status rc)), (''bytes'', AInt (rc_bytes rc)),
      (''duration_ms'', AInt (Milliseconds elapsed)), (''remote_ip'', AString (remoteIP r))]"

definition Logger :: "duration \<Rightarrow> 'z world_scheme handler \<Rightarrow> 'z world_scheme handler" where
  "Logger elapsed next r w rw =
     (case next r w (newResponseRecorder rw) of
        Returned w' (Recorded rw' rc) \<Rightarrow>
          Returned (emit (levelForStatus (rc_status rc)) ''http request'' (request_attrs r rc elapsed) w') rw'
      | Returned w' (Base rp) \<Rightarrow> Returned w' (Base rp)
      | Panicked p w' rw' \<Rightarrow> Panicked p w' (Unwrap rw'))"

subsection \<open>recovery.go\<close>

definition Recoverer :: "lib \<Rightarrow> (request \<Rightarrow> gostring) \<Rightarrow> 'z world_scheme handler \<Rightarrow> 'z world_scheme handler" where
  "Recoverer lb stack next r w rw =
     (case next r w rw of
        Returned w' rw' \<Rightarrow> Returned w' rw'
      | Panicked ErrAbortHandler w' rw' \<Rightarrow> Panicked ErrAbortHandler w' rw'
      | Panicked (PanicValue v) w' rw' \<Rightarrow>
          (let w' = emit LevelError ''panic recovered''
                 [(''request_id'', AString (RequestID_of r)), (''method'', AString (rq_Method r)),
                  (''path'', AString (rq_Path r)), (''panic'', AString v), (''stack'', AString (stack r))] w'
           in if Written rw' = Some True then Returned w' rw'
              else
                let (w', rw') = WriteError lb r 500 CodeInternal
                       ''An unexpected error occurred. Please try again.'' w' rw'
                in Returned w' rw'))"

subsection \<open>cors.go\<close>

record cors_options =
  co_AllowedOrigins :: "gostring list"
  co_AllowedMethods :: "gostring list"
  co_AllowedHeaders :: "gostring list"
  co_ExposedHeaders :: "gostring list"
  co_AllowCredentials :: bool
  co_MaxAge :: int

definition corsMaxAgeSeconds :: int where "corsMaxAgeSeconds = 300"

definition cors_config :: "gostring list \<Rightarrow> cors_options" where
  "cors_config allowedOrigins =
     \<lparr>co_AllowedOrigins = allowedOrigins,
      co_AllowedMethods = [''GET'', ''POST'', ''PATCH'', ''PUT'', ''DELETE'', ''OPTIONS''],
      co_AllowedHeaders = [''Accept'', ''Authorization'', ''Content-Type'', ''X-Request-ID''],
      co_ExposedHeaders = [''X-Request-ID''],
      co_AllowCredentials = (''*'' \<notin> set allowedOrigins),
      co_MaxAge = corsMaxAgeSeconds\<rparr>"

definition CORS :: "(cors_options \<Rightarrow> 'w handler \<Rightarrow> 'w handler) \<Rightarrow> gostring list \<Rightarrow> 'w handler \<Rightarrow> 'w handler" where
  "CORS cors_Handler allowedOrigins = cors_Handler (cors_config allowedOrigins)"

subsection \<open>auth.go\<close>

definition bearerPrefix :: gostring where "bearerPrefix = ''bearer ''"

definition bearerToken :: "request \<Rightarrow> gostring option" where
  "bearerToken r =
     (let header = Header_Get (rq_Header r) ''Authorization''
      in if length header < length bearerPrefix
            \<or> \<not> equal_fold_ascii (take (length bearerPrefix) header) bearerPrefix then None
         else
           let token = TrimSpace (drop (length bearerPrefix) header)
           in if token \<noteq> [] then Some token else None)"

definition challenge :: gostring where
  "challenge = ''Bearer realm='' @ CHR 0x22 # ''flowcast'' @ CHR 0x22 # '', error='' @ CHR 0x22 #
     ''invalid_token'' @ [CHR 0x22]"

definition unauthorized ::
  "lib \<Rightarrow> ErrorCode \<Rightarrow> gostring \<Rightarrow> gostring \<Rightarrow> request \<Rightarrow> 'z world_scheme \<Rightarrow> rw \<Rightarrow> 'z world_scheme \<times> rw" where
  "unauthorized lb code message reason r w rw =
     (let w = emit LevelWarn ''request not authenticated''
            [(''reason'', AString reason), (''method'', AString (rq_Method r)),
             (''path'', AString (rq_Path r)), (''request_id'', AString (RequestID_of r))] w;
          rw = set_header ''WWW-Authenticate'' challenge rw
      in WriteError lb r 401 code message w rw)"

definition returned :: "'w \<times> rw \<Rightarrow> 'w outcome" where
  "returned wr = Returned (fst wr) (snd wr)"

definition Authenticate ::
  "lib \<Rightarrow> Tokens \<Rightarrow> time \<Rightarrow> 'z world_scheme handler \<Rightarrow> 'z world_scheme handler" where
  "Authenticate lb tokens now next r w rw =
     (case bearerToken r of
        None \<Rightarrow> returned (unauthorized lb CodeUnauthorized ''Authentication is required.''
                  ''missing or malformed authorization header'' r w rw)
      | Some raw \<Rightarrow>
          (case ParseAccess (lb_jwt lb) (lb_uuid lb) tokens now raw of
             Inl ErrTokenExpired \<Rightarrow>
               returned (unauthorized lb CodeTokenExpired ''Your access token has expired.''
                  ''expired access token'' r w rw)
           | Inl err \<Rightarrow>
               returned (unauthorized lb CodeUnauthorized ''Authentication is required.''
                  (''invalid access token: '' @ token_Error err) r w rw)
           | Inr claims \<Rightarrow>
               (case UserID (lb_uuid lb) claims of
                  Inl _ \<Rightarrow> returned (unauthorized lb CodeUnauthorized ''Authentication is required.''
                             ''token subject is unusable'' r w rw)
                | Inr userID \<Rightarrow>
                    next (ContextWithIdentity r \<lparr>id_UserID = userID, id_TeamID = cl_TeamID claims\<rparr>) w rw)))"

subsection \<open>Facts about responses\<close>

lemma WriteJSON_status [http_simps]:
  assumes "unsent rw" and "final_status status"
  shows "response_status (snd (WriteJSON lb r status payload w rw)) =
      Some (if lb_encode lb payload = None then 500 else status)"
    and "sent_cookies (snd (WriteJSON lb r status payload w rw)) = rp_cookies (rw_base rw)"
    and "rw_ok (snd (WriteJSON lb r status payload w rw))"
  using assms by (auto simp: WriteJSON_def writeRaw_sent split: option.splits)

definition encodes_errors :: "lib \<Rightarrow> bool" where
  "encodes_errors lb \<longleftrightarrow> (\<forall>e. lb_encode lb (ErrorResponse_json e) \<noteq> None)"

lemma WriteError_status [http_simps]:
  assumes "encodes_errors lb" and "unsent rw" and "final_status status"
  shows "response_status (snd (WriteError lb r status code msg w rw)) = Some status"
    and "sent_cookies (snd (WriteError lb r status code msg w rw)) = rp_cookies (rw_base rw)"
    and "rw_ok (snd (WriteError lb r status code msg w rw))"
proof -
  note enc = assms(1) [unfolded encodes_errors_def, rule_format]
  note json = WriteJSON_status [OF assms(2,3)]
  show "response_status (snd (WriteError lb r status code msg w rw)) = Some status"
    by (simp add: WriteError_def json(1) enc)
  show "sent_cookies (snd (WriteError lb r status code msg w rw)) = rp_cookies (rw_base rw)"
    by (simp add: WriteError_def json(2))
  show "rw_ok (snd (WriteError lb r status code msg w rw))"
    unfolding WriteError_def by (rule json(3))
qed

text \<open>What is written does not depend on the world.\<close>

lemma snd_WriteJSON:
  "snd (WriteJSON lb r status payload w rw) =
     (case lb_encode lb payload of
        None \<Rightarrow> writeRaw 500 (mustEncodeFallback lb \<lparr>er_Error = CodeInternal,
           er_Message = genericInternalMessage, er_RequestID = RequestID_of r, er_Fields = []\<rparr>) rw
      | Some b \<Rightarrow> writeRaw status (b @ [CHR 0x0A]) rw)"
  by (simp add: WriteJSON_def split: option.split)

lemma WriteError_world: "snd (WriteError lb r status code msg w rw) = snd (WriteError lb r status code msg w' rw)"
  by (simp add: WriteError_def snd_WriteJSON)

lemma WriteInternalError_response:
  "snd (WriteInternalError lb r cause w rw) = snd (WriteError lb r 500 CodeInternal genericInternalMessage w' rw)"
  unfolding WriteInternalError_def by (rule WriteError_world)

subsection \<open>Facts about the middleware\<close>

lemma RequestID_adopts:
  assumes "ValidRequestID fresh"
  obtains i where "ValidRequestID i"
    and "ValidRequestID (Header_Get (rq_Header r) RequestIDHeader) \<longrightarrow> i = Header_Get (rq_Header r) RequestIDHeader"
    and "RequestID fresh next r w rw = next (ContextWithRequestID r i) w (set_header RequestIDHeader i rw)"
  using assms by (cases "ValidRequestID (Header_Get (rq_Header r) RequestIDHeader)")
    (auto simp: RequestID_def Let_def intro: that)

text \<open>The record of a request names the status that went out.\<close>

lemma Logger_records:
  assumes "next r w (newResponseRecorder rw) = Returned w' (Recorded rw' rc)" and "rw_ok (Recorded rw' rc)"
  shows "Logger elapsed next r w rw = Returned
     (emit (levelForStatus (case response_status rw' of Some s \<Rightarrow> s | None \<Rightarrow> 200)) ''http request''
        (request_attrs r rc elapsed) w') rw'"
    and "rc_status rc = (case response_status rw' of Some s \<Rightarrow> s | None \<Rightarrow> 200)"
  using assms by (auto simp: Logger_def response_status_def split: option.splits prod.splits)

text \<open>What a panicking handler gets: nothing more than the constant error, if that is still possible.\<close>

lemma Recoverer_panic:
  "next r w rw = Panicked (PanicValue v) w' rw' \<Longrightarrow>
     \<exists>w''. Recoverer lb stack next r w rw = Returned w''
       (if Written rw' = Some True then rw'
        else snd (WriteError lb r 500 CodeInternal genericInternalMessage w' rw'))"
  using WriteError_world [of lb r 500 CodeInternal genericInternalMessage _ rw' w']
  by (auto simp: Recoverer_def Let_def split_beta genericInternalMessage_def)

lemma Recoverer_total:
  "Recoverer lb stack next r w rw = Panicked p w' rw' \<longleftrightarrow>
     p = ErrAbortHandler \<and> next r w rw = Panicked ErrAbortHandler w' rw'"
  by (auto simp: Recoverer_def Let_def split: outcome.splits panic_value.splits prod.splits)

text \<open>The next handler runs exactly when the token verifies, and with the identity it states.\<close>

definition authenticated :: "lib \<Rightarrow> Tokens \<Rightarrow> time \<Rightarrow> request \<Rightarrow> Identity \<Rightarrow> bool" where
  "authenticated lb tokens now r who \<longleftrightarrow>
     (\<exists>raw claims. bearerToken r = Some raw \<and> ParseAccess (lb_jwt lb) (lb_uuid lb) tokens now raw = Inr claims
        \<and> UserID (lb_uuid lb) claims = Inr (id_UserID who) \<and> id_TeamID who = cl_TeamID claims)"

lemma Authenticate_cases:
  obtains (verified) who where "authenticated lb tokens now r who"
      "\<And>next (w :: 'z world_scheme) rw. Authenticate lb tokens now next r w rw = next (ContextWithIdentity r who) w rw"
  | (expired) reason where "\<nexists>who. authenticated lb tokens now r who"
      "\<And>next (w :: 'z world_scheme) rw. Authenticate lb tokens now next r w rw =
         returned (unauthorized lb CodeTokenExpired ''Your access token has expired.'' reason r w rw)"
  | (rejected) reason where "\<nexists>who. authenticated lb tokens now r who"
      "\<And>next (w :: 'z world_scheme) rw. Authenticate lb tokens now next r w rw =
         returned (unauthorized lb CodeUnauthorized ''Authentication is required.'' reason r w rw)"
proof (cases "\<exists>who. authenticated lb tokens now r who")
  case True
  then obtain who where who: "authenticated lb tokens now r who" ..
  then show thesis
    by (intro verified [OF who]) (cases who, auto simp: Authenticate_def authenticated_def)
next
  case False
  show thesis
  proof (cases "\<exists>raw. bearerToken r = Some raw \<and> ParseAccess (lb_jwt lb) (lb_uuid lb) tokens now raw = Inl ErrTokenExpired")
    case True
    with False show thesis by (intro expired) (auto simp: Authenticate_def)
  next
    case not_expired: False
    have "\<exists>reason. \<forall>next (w :: 'z world_scheme) rw. Authenticate lb tokens now next r w rw =
        returned (unauthorized lb CodeUnauthorized ''Authentication is required.'' reason r w rw)"
    proof (cases "bearerToken r")
      case None
      then show ?thesis by (auto simp: Authenticate_def)
    next
      case raw: (Some raw)
      show ?thesis
      proof (cases "ParseAccess (lb_jwt lb) (lb_uuid lb) tokens now raw")
        case (Inl err)
        with not_expired raw show ?thesis
          by (cases err) (auto simp: Authenticate_def)
      next
        case (Inr claims)
        then obtain u where u: "UserID (lb_uuid lb) claims = Inr u"
          by (auto simp: ParseAccess_def result_iff)
        with False raw Inr have "\<not> authenticated lb tokens now r \<lparr>id_UserID = u, id_TeamID = cl_TeamID claims\<rparr>"
          by blast
        with raw Inr u show ?thesis by (auto simp: authenticated_def)
      qed
    qed
    then obtain reason where "\<And>next (w :: 'z world_scheme) rw. Authenticate lb tokens now next r w rw =
        returned (unauthorized lb CodeUnauthorized ''Authentication is required.'' reason r w rw)"
      by blast
    with False show thesis by (rule rejected)
  qed
qed

lemma unauthorized_response:
  assumes "encodes_errors lb" and "unsent rw"
  shows "response_status (snd (unauthorized lb code msg reason r w rw)) = Some 401"
    and "snd (unauthorized lb code msg reason r w rw) = snd (unauthorized lb code msg reason' r w' rw)"
proof -
  have "unsent (set_header ''WWW-Authenticate'' challenge rw)" using assms(2) by simp
  then show "response_status (snd (unauthorized lb code msg reason r w rw)) = Some 401"
    unfolding unauthorized_def Let_def by (intro WriteError_status(1) [OF assms(1)]) simp_all
  show "snd (unauthorized lb code msg reason r w rw) = snd (unauthorized lb code msg reason' r w' rw)"
    unfolding unauthorized_def Let_def by (rule WriteError_world)
qed

text \<open>A token is what follows the scheme, in whatever case the scheme is written.\<close>

lemma runes_ascii: "list_all (\<lambda>(_, r). r < 128) (runes_from i s) \<Longrightarrow> is_ascii s"
proof (induction i s rule: runes_from.induct)
  case (1 i s)
  show ?case
  proof (cases s)
    case (Cons c t)
    show ?thesis
    proof (cases "byte_of c < 128")
      case True
      with 1 Cons decode_rune_ascii [OF True, of t] show ?thesis
        by (simp add: runes_from_ascii is_ascii_def)
    next
      case False
      then have "128 \<le> fst (decode_rune (c # t))"
        using decode_rune_high [of c t] by auto
      with 1(2) Cons show ?thesis by (simp add: runes_from.simps split_beta)
    qed
  qed (simp add: is_ascii_def)
qed

lemma fold_bearer: "fold_rune r \<in> {98, 101, 97, 114, 32} \<Longrightarrow> r < 128"
  by (auto simp: fold_rune_def split: if_splits)

lemma equal_fold_bearer: "equal_fold_ascii s bearerPrefix \<longleftrightarrow> map ascii_lower s = bearerPrefix"
proof -
  have lower: "fold_rune (byte_of c) = byte_of (ascii_lower c)" if "byte_of c < 128" for c
    using that by (simp add: fold_rune_def byte_of_ascii_lower)
  have b: "map (\<lambda>c. fold_rune (byte_of c)) bearerPrefix = map byte_of bearerPrefix"
    by (simp add: bearerPrefix_def fold_rune_def)
  have inj: "map byte_of xs = map byte_of ys \<longleftrightarrow> xs = ys" for xs ys :: gostring
    by (rule inj_map_eq_map) (simp add: inj_def)
  have ascii: "equal_fold_ascii s bearerPrefix \<longleftrightarrow> map ascii_lower s = bearerPrefix" if "is_ascii s"
  proof -
    have "map (\<lambda>c. fold_rune (byte_of c)) s = map byte_of (map ascii_lower s)"
      using that lower by (simp add: is_ascii_def list_all_iff)
    then show ?thesis by (simp only: equal_fold_ascii_iff [OF that] b inj)
  qed
  moreover have "is_ascii s" if "equal_fold_ascii s bearerPrefix"
  proof -
    have "fold_rune r \<in> {98, 101, 97, 114, 32}" if "(i, r) \<in> set (runes_from 0 s)" for i r
    proof -
      have "fold_rune r \<in> set (map (\<lambda>(_, r). fold_rune r) (runes_from 0 s))"
        using that by force
      also have "\<dots> = set (map byte_of bearerPrefix)"
        using \<open>equal_fold_ascii s bearerPrefix\<close> b by (simp add: equal_fold_ascii_def)
      finally show ?thesis by (auto simp: bearerPrefix_def)
    qed
    then show ?thesis using fold_bearer by (intro runes_ascii [of 0]) (auto simp: list_all_iff)
  qed
  moreover have "is_ascii s" if "map ascii_lower s = bearerPrefix"
  proof -
    have "is_ascii (map ascii_lower s)" by (simp add: that bearerPrefix_def is_ascii_def)
    then show ?thesis by simp
  qed
  ultimately show ?thesis by blast
qed

lemma bearerToken_Some:
  "bearerToken r = Some tok \<longleftrightarrow>
     (let h = Header_Get (rq_Header r) ''Authorization''
      in map ascii_lower (take 7 h) = ''bearer '' \<and> tok = TrimSpace (drop 7 h) \<and> tok \<noteq> [])"
proof -
  have len: "length bearerPrefix = 7" by (simp add: bearerPrefix_def)
  have "map ascii_lower (take 7 h) = ''bearer '' \<Longrightarrow> 7 \<le> length h" for h
    by (drule arg_cong [of _ _ length]) simp
  then show ?thesis
    by (auto simp: bearerToken_def Let_def len equal_fold_bearer) (auto simp: bearerPrefix_def)
qed

end
