(* ===== verification/User_Interface.thy ===== *)
theory User_Interface
  imports Models_Identity
begin

text \<open>
  The interface \<open>UserStore\<close> of \<open>internal/handlers/auth.go\<close>: the three operations that the
  authentication handlers call, and what they rely on. \<open>accounts\<close> is the set of users that the
  store holds, \<open>norm\<close> the canonical form of an address, \<open>inv\<close> the store's own invariant.

  A failed creation may still have happened, when it is the acknowledgement that got lost; but a
  conflict leaves the accounts as they were.
\<close>

datatype store_error = NotFound | Conflict | StoreFailure gostring

record 'u user_ops =
  uo_Create :: "gostring \<Rightarrow> User \<Rightarrow> 'u \<Rightarrow> (store_error, Team \<times> User) result \<times> 'u"
  uo_FindByEmail :: "gostring \<Rightarrow> 'u \<Rightarrow> (store_error, User) result"
  uo_FindByID :: "uuid \<Rightarrow> 'u \<Rightarrow> (store_error, User) result"

locale user_store =
  fixes ops :: "'u user_ops"
    and norm :: "gostring \<Rightarrow> gostring"
    and inv :: "'u \<Rightarrow> bool"
    and accounts :: "'u \<Rightarrow> User set"
  assumes create_inv: "inv s \<Longrightarrow> inv (snd (uo_Create ops tn u s))"
    and create_ok: "inv s \<Longrightarrow> uo_Create ops tn u s = (Inr (t, v), s') \<Longrightarrow>
      accounts s' = insert v (accounts s) \<and> user_Email v = norm (user_Email u)
      \<and> user_PasswordHash v = user_PasswordHash u \<and> user_TeamID v = team_ID t
      \<and> user_ID v \<noteq> uuid_nil \<and> team_ID t \<noteq> uuid_nil"
    and create_new: "inv s \<Longrightarrow> uo_Create ops tn u s = (Inr (t, v), s') \<Longrightarrow> w \<in> accounts s \<Longrightarrow>
      user_Email w \<noteq> user_Email v \<and> user_ID w \<noteq> user_ID v"
    and create_conflict: "inv s \<Longrightarrow> uo_Create ops tn u s = (Inl Conflict, s') \<Longrightarrow>
      accounts s' = accounts s"
    and create_grows: "inv s \<Longrightarrow> accounts s \<subseteq> accounts (snd (uo_Create ops tn u s))"
    and email_found: "inv s \<Longrightarrow> uo_FindByEmail ops e s = Inr u \<Longrightarrow> u \<in> accounts s \<and> user_Email u = norm e"
    and email_missing: "inv s \<Longrightarrow> uo_FindByEmail ops e s = Inl NotFound \<Longrightarrow> u \<in> accounts s \<Longrightarrow>
      user_Email u \<noteq> norm e"
    and email_unique: "inv s \<Longrightarrow> u \<in> accounts s \<Longrightarrow> v \<in> accounts s \<Longrightarrow> user_Email u = user_Email v \<Longrightarrow> u = v"
    and id_found: "inv s \<Longrightarrow> uo_FindByID ops i s = Inr u \<Longrightarrow> u \<in> accounts s \<and> user_ID u = i"
    and id_missing: "inv s \<Longrightarrow> uo_FindByID ops i s = Inl NotFound \<Longrightarrow> u \<in> accounts s \<Longrightarrow> user_ID u \<noteq> i"
begin

text \<open>Looking up an address of an account finds that account, if the store answers.\<close>

lemma find_existing:
  assumes "inv s" and "u \<in> accounts s" and "norm e = user_Email u"
  shows "uo_FindByEmail ops e s = Inr u \<or> (\<exists>err. err \<noteq> NotFound \<and> uo_FindByEmail ops e s = Inl err)"
proof (cases "uo_FindByEmail ops e s")
  case (Inl err)
  with email_missing [OF assms(1) _ assms(2), of e] assms(3) have "err \<noteq> NotFound" by metis
  with Inl show ?thesis by simp
next
  case (Inr v)
  with email_found [OF assms(1) Inr] email_unique [OF assms(1) _ assms(2)] assms(3) show ?thesis by auto
qed

text \<open>What was created can be found, and cannot be created again.\<close>

lemma created_found:
  assumes "inv s" and "uo_Create ops tn u s = (Inr (t, v), s')" and "norm e = norm (user_Email u)"
  shows "uo_FindByEmail ops e s' = Inr v \<or> (\<exists>err. err \<noteq> NotFound \<and> uo_FindByEmail ops e s' = Inl err)"
proof -
  have "inv s'" using create_inv [OF assms(1), of tn u] assms(2) by simp
  moreover have "v \<in> accounts s'" "norm e = user_Email v"
    using create_ok [OF assms(1,2)] assms(3) by auto
  ultimately show ?thesis by (rule find_existing)
qed

lemma no_second_account:
  assumes "inv s" and "w \<in> accounts s" and "user_Email w = norm (user_Email u)"
  shows "\<exists>err. fst (uo_Create ops tn u s) = Inl err"
proof (cases "uo_Create ops tn u s")
  case (Pair res s')
  show ?thesis
  proof (cases res)
    case (Inr tv)
    then obtain t v where "uo_Create ops tn u s = (Inr (t, v), s')" using Pair by (cases tv) auto
    with create_ok [OF assms(1) this] create_new [OF assms(1) this assms(2)] assms(3)
    show ?thesis by simp
  qed (simp add: Pair)
qed

end

end
