(* ===== verification/Repository_User.thy ===== *)
theory Repository_User
  imports User_Interface
begin

text \<open>
  \<open>internal/repository/user.go\<close> over the tables of \<open>migrations/0002_identity.sql\<close>. A table is the
  list of its rows; a statement either fails, with a unique violation or another error, or gives
  the row that it returns and the new tables. Statements can also fail for reasons of their own:
  \<open>ud_fault\<close> gives the error at each call site, and \<open>ud_kept\<close> says whether a commit whose
  acknowledgement is lost was carried out. \<open>ud_uuid\<close> is the sequence that \<open>gen_random_uuid\<close> draws
  from, \<open>ud_lower\<close> the server's \<open>lower\<close>.
\<close>

subsection \<open>The tables\<close>

datatype user_site =
  AtBegin | AtInsertTeam | AtInsertUser | AtCommit | AtFindByEmail | AtFindByID | AtFindTeamByID

record user_db =
  ud_teams :: "Team list"
  ud_users :: "User list"
  ud_uuid :: "nat \<Rightarrow> uuid"
  ud_next :: nat
  ud_now :: time
  ud_lower :: "gostring \<Rightarrow> gostring"
  ud_fault :: "user_site \<Rightarrow> gostring option"
  ud_kept :: bool

datatype sql_error = UniqueViolation | SqlError gostring

text \<open>What the type \<open>text\<close> accepts: valid UTF-8 without a zero byte.\<close>

definition valid_utf8 :: "gostring \<Rightarrow> bool" where
  "valid_utf8 s \<longleftrightarrow> list_all (\<lambda>(i, _). decode_rune (drop i s) \<noteq> (rune_error, 1)) (runes_from 0 s)"

definition pg_text :: "gostring \<Rightarrow> bool" where
  "pg_text s \<longleftrightarrow> CHR 0x00 \<notin> set s \<and> valid_utf8 s"

definition btrim :: "gostring \<Rightarrow> gostring" where
  "btrim s = rev (dropWhile (\<lambda>c. c = CHR '' '') (rev (dropWhile (\<lambda>c. c = CHR '' '') s)))"

definition team_checks :: "gostring \<Rightarrow> bool" where
  "team_checks name \<longleftrightarrow> 1 \<le> rune_count (btrim name) \<and> rune_count (btrim name) \<le> 200"

definition user_checks :: "gostring \<Rightarrow> gostring \<Rightarrow> bool" where
  "user_checks email name \<longleftrightarrow> 3 \<le> rune_count email \<and> rune_count email \<le> 320
     \<and> 1 \<le> rune_count (btrim name) \<and> rune_count (btrim name) \<le> 200"

definition insertTeam :: "gostring \<Rightarrow> user_db \<Rightarrow> (sql_error, Team \<times> user_db) result" where
  "insertTeam name db =
     (case ud_fault db AtInsertTeam of
        Some e \<Rightarrow> Inl (SqlError e)
      | None \<Rightarrow>
          if \<not> pg_text name then Inl (SqlError ''invalid byte sequence for encoding'')
          else if \<not> team_checks name then Inl (SqlError ''violates check constraint'')
          else
            let i = ud_uuid db (ud_next db);
                t = \<lparr>team_ID = i, team_Name = name, team_CreatedAt = ud_now db, team_UpdatedAt = ud_now db\<rparr>
            in if i \<in> team_ID ` set (ud_teams db) then Inl UniqueViolation
               else Inr (t, db\<lparr>ud_teams := ud_teams db @ [t], ud_next := Suc (ud_next db)\<rparr>))"

definition insertUser ::
  "uuid \<Rightarrow> gostring \<Rightarrow> gostring \<Rightarrow> gostring \<Rightarrow> user_db \<Rightarrow> (sql_error, User \<times> user_db) result" where
  "insertUser team email hash name db =
     (case ud_fault db AtInsertUser of
        Some e \<Rightarrow> Inl (SqlError e)
      | None \<Rightarrow>
          if \<not> (pg_text email \<and> pg_text hash \<and> pg_text name) then Inl (SqlError ''invalid byte sequence for encoding'')
          else if \<not> user_checks email name then Inl (SqlError ''violates check constraint'')
          else
            let i = ud_uuid db (ud_next db);
                u = \<lparr>user_ID = i, user_TeamID = team, user_Email = email, user_PasswordHash = hash,
                     user_Name = name, user_CreatedAt = ud_now db, user_UpdatedAt = ud_now db\<rparr>
            in if i \<in> user_ID ` set (ud_users db)
                  \<or> ud_lower db email \<in> (\<lambda>v. ud_lower db (user_Email v)) ` set (ud_users db)
               then Inl UniqueViolation
               else if team \<notin> team_ID ` set (ud_teams db) then Inl (SqlError ''violates foreign key constraint'')
               else Inr (u, db\<lparr>ud_users := ud_users db @ [u], ud_next := Suc (ud_next db)\<rparr>))"

subsection \<open>user.go\<close>

definition NormalizeEmail :: "(nat \<Rightarrow> nat) \<Rightarrow> gostring \<Rightarrow> gostring" where
  "NormalizeEmail ulower email = ToLower ulower (TrimSpace email)"

definition isUniqueViolation :: "sql_error \<Rightarrow> bool" where
  "isUniqueViolation e \<longleftrightarrow> e = UniqueViolation"

fun sql_error_text :: "sql_error \<Rightarrow> gostring" where
  "sql_error_text UniqueViolation = ''duplicate key value violates unique constraint''"
| "sql_error_text (SqlError e) = e"

text \<open>The deferred rollback restores the tables unless the commit went through.\<close>

definition CreateTeamWithOwner ::
  "(nat \<Rightarrow> nat) \<Rightarrow> gostring \<Rightarrow> User \<Rightarrow> user_db \<Rightarrow> (store_error, Team \<times> User) result \<times> user_db" where
  "CreateTeamWithOwner ulower teamName user db =
     (case ud_fault db AtBegin of
        Some e \<Rightarrow> (Inl (StoreFailure (''starting registration transaction: '' @ e)), db)
      | None \<Rightarrow>
          (case insertTeam (TrimSpace teamName) db of
             Inl e \<Rightarrow> (Inl (StoreFailure (''creating team: '' @ sql_error_text e)), db)
           | Inr (team, tx) \<Rightarrow>
               (case insertUser (team_ID team) (NormalizeEmail ulower (user_Email user))
                       (user_PasswordHash user) (TrimSpace (user_Name user)) tx of
                  Inl e \<Rightarrow>
                    if isUniqueViolation e then (Inl Conflict, db)
                    else (Inl (StoreFailure (''creating user: '' @ sql_error_text e)), db)
                | Inr (created, tx') \<Rightarrow>
                    (case ud_fault db AtCommit of
                       Some e \<Rightarrow> (Inl (StoreFailure (''committing registration: '' @ e)),
                                  if ud_kept db then tx' else db)
                     | None \<Rightarrow> (Inr (team, created), tx')))))"

text \<open>\<open>QueryRow\<close>: the first row that matches, or \<open>pgx.ErrNoRows\<close>.\<close>

definition FindByEmail :: "(nat \<Rightarrow> nat) \<Rightarrow> gostring \<Rightarrow> user_db \<Rightarrow> (store_error, User) result" where
  "FindByEmail ulower email db =
     (case ud_fault db AtFindByEmail of
        Some e \<Rightarrow> Inl (StoreFailure (''finding user by email: '' @ e))
      | None \<Rightarrow>
          let wanted = NormalizeEmail ulower email
          in if \<not> pg_text wanted
             then Inl (StoreFailure ''finding user by email: invalid byte sequence for encoding'')
             else case find (\<lambda>u. ud_lower db (user_Email u) = wanted) (ud_users db) of
               None \<Rightarrow> Inl NotFound
             | Some u \<Rightarrow> Inr u)"

definition FindByID :: "uuid \<Rightarrow> user_db \<Rightarrow> (store_error, User) result" where
  "FindByID i db =
     (case ud_fault db AtFindByID of
        Some e \<Rightarrow> Inl (StoreFailure (''finding user by id: '' @ e))
      | None \<Rightarrow> (case find (\<lambda>u. user_ID u = i) (ud_users db) of None \<Rightarrow> Inl NotFound | Some u \<Rightarrow> Inr u))"

definition FindTeamByID :: "uuid \<Rightarrow> user_db \<Rightarrow> (store_error, Team) result" where
  "FindTeamByID i db =
     (case ud_fault db AtFindTeamByID of
        Some e \<Rightarrow> Inl (StoreFailure (''finding team by id: '' @ e))
      | None \<Rightarrow> (case find (\<lambda>t. team_ID t = i) (ud_teams db) of None \<Rightarrow> Inl NotFound | Some t \<Rightarrow> Inr t))"

definition NewUserRepository :: "(nat \<Rightarrow> nat) \<Rightarrow> user_db user_ops" where
  "NewUserRepository ulower =
     \<lparr>uo_Create = CreateTeamWithOwner ulower, uo_FindByEmail = FindByEmail ulower, uo_FindByID = FindByID\<rparr>"

subsection \<open>The invariant of the tables\<close>

text \<open>
  The ids that the server draws are not nil, and its \<open>lower\<close> leaves a normalized address alone.
  Teams and users have ids of their own; every user has a normalized address of its own and an
  existing team. A drawn id may collide with one in use: the primary key refuses the row.
\<close>

definition identity_inv :: "(nat \<Rightarrow> nat) \<Rightarrow> user_db \<Rightarrow> bool" where
  "identity_inv ulower db \<longleftrightarrow>
     (\<forall>n. ud_uuid db n \<noteq> uuid_nil)
     \<and> (\<forall>e. ud_lower db (NormalizeEmail ulower e) = NormalizeEmail ulower e)
     \<and> distinct (map team_ID (ud_teams db)) \<and> distinct (map user_ID (ud_users db))
     \<and> distinct (map user_Email (ud_users db))
     \<and> (\<forall>u \<in> set (ud_users db). user_TeamID u \<in> team_ID ` set (ud_teams db)
          \<and> (\<exists>e. user_Email u = NormalizeEmail ulower e))"

text \<open>A transaction that reaches its commit has appended one team and one user.\<close>

lemma create_tables:
  assumes "insertTeam name db = Inr (t, tx)" and "insertUser (team_ID t) email hash uname tx = Inr (u, tx')"
  shows "tx' = db\<lparr>ud_teams := ud_teams db @ [t], ud_users := ud_users db @ [u], ud_next := Suc (Suc (ud_next db))\<rparr>"
    and "t = \<lparr>team_ID = ud_uuid db (ud_next db), team_Name = name, team_CreatedAt = ud_now db, team_UpdatedAt = ud_now db\<rparr>"
    and "u = \<lparr>user_ID = ud_uuid db (Suc (ud_next db)), user_TeamID = team_ID t, user_Email = email,
              user_PasswordHash = hash, user_Name = uname, user_CreatedAt = ud_now db, user_UpdatedAt = ud_now db\<rparr>"
    and "team_ID t \<notin> team_ID ` set (ud_teams db)"
    and "user_ID u \<notin> user_ID ` set (ud_users db)"
    and "ud_lower db email \<notin> (\<lambda>v. ud_lower db (user_Email v)) ` set (ud_users db)"
proof -
  from assms(1) have team: "t = \<lparr>team_ID = ud_uuid db (ud_next db), team_Name = name,
        team_CreatedAt = ud_now db, team_UpdatedAt = ud_now db\<rparr>"
    "tx = db\<lparr>ud_teams := ud_teams db @ [t], ud_next := Suc (ud_next db)\<rparr>"
    "team_ID t \<notin> team_ID ` set (ud_teams db)"
    by (auto simp: insertTeam_def Let_def split: option.splits if_splits)
  show "t = \<lparr>team_ID = ud_uuid db (ud_next db), team_Name = name, team_CreatedAt = ud_now db, team_UpdatedAt = ud_now db\<rparr>"
    "team_ID t \<notin> team_ID ` set (ud_teams db)"
    by (fact team)+
  from assms(2) show "tx' = db\<lparr>ud_teams := ud_teams db @ [t], ud_users := ud_users db @ [u], ud_next := Suc (Suc (ud_next db))\<rparr>"
    "u = \<lparr>user_ID = ud_uuid db (Suc (ud_next db)), user_TeamID = team_ID t, user_Email = email,
              user_PasswordHash = hash, user_Name = uname, user_CreatedAt = ud_now db, user_UpdatedAt = ud_now db\<rparr>"
    "user_ID u \<notin> user_ID ` set (ud_users db)"
    "ud_lower db email \<notin> (\<lambda>v. ud_lower db (user_Email v)) ` set (ud_users db)"
    unfolding team(2) insertUser_def Let_def by (auto split: option.splits if_splits)
qed

lemma create_tables_users:
  "insertTeam name db = Inr (t, tx) \<Longrightarrow> insertUser (team_ID t) email hash uname tx = Inr (u, tx') \<Longrightarrow>
     ud_users tx' = ud_users db @ [u]"
  by (drule (1) create_tables(1)) simp

lemma create_tables_row:
  assumes "insertTeam name db = Inr (t, tx)" "insertUser (team_ID t) email hash uname tx = Inr (u, tx')"
  shows "user_Email u = email" "user_PasswordHash u = hash" "user_TeamID u = team_ID t"
    "user_ID u = ud_uuid db (Suc (ud_next db))" "team_ID t = ud_uuid db (ud_next db)"
    "user_ID u \<notin> user_ID ` set (ud_users db)"
  using create_tables(2,3) [OF assms] create_tables(5) [OF assms] by simp_all

lemma create_tables_inv:
  assumes inv: "identity_inv ulower db"
    and ins: "insertTeam name db = Inr (t, tx)" "insertUser (team_ID t) (NormalizeEmail ulower e) hash uname tx = Inr (u, tx')"
  shows "identity_inv ulower tx'" and "user_Email u \<notin> user_Email ` set (ud_users db)"
proof -
  note tab = create_tables [OF ins]
  have lower: "ud_lower db (user_Email v) = user_Email v" if "v \<in> set (ud_users db)" for v
    using inv that unfolding identity_inv_def by metis
  have lower_e: "ud_lower db (NormalizeEmail ulower e) = NormalizeEmail ulower e"
    using inv by (simp add: identity_inv_def)
  show email: "user_Email u \<notin> user_Email ` set (ud_users db)"
    using tab(6) lower lower_e by (force simp: tab(3))
  have rows: "\<forall>v \<in> set (ud_users tx'). user_TeamID v \<in> team_ID ` set (ud_teams tx')
      \<and> (\<exists>e. user_Email v = NormalizeEmail ulower e)"
    using inv by (auto simp: tab(1) identity_inv_def tab(3))
  show "identity_inv ulower tx'"
    using inv rows tab(4,5) email unfolding identity_inv_def
    by (simp add: tab(1))
qed

subsection \<open>The repository keeps the handlers' interface\<close>

lemma CreateTeamWithOwner_cases:
  obtains (failed) e where "CreateTeamWithOwner ulower tn u db = (Inl (StoreFailure e), db)"
  | (conflict) t tx where "CreateTeamWithOwner ulower tn u db = (Inl Conflict, db)"
      "insertTeam (TrimSpace tn) db = Inr (t, tx)"
      "insertUser (team_ID t) (NormalizeEmail ulower (user_Email u)) (user_PasswordHash u) (TrimSpace (user_Name u)) tx
         = Inl UniqueViolation"
  | (created) res t v tx tx' where "CreateTeamWithOwner ulower tn u db = (res, tx')"
      "res = Inr (t, v) \<or> (\<exists>e. res = Inl (StoreFailure e))"
      "insertTeam (TrimSpace tn) db = Inr (t, tx)"
      "insertUser (team_ID t) (NormalizeEmail ulower (user_Email u)) (user_PasswordHash u) (TrimSpace (user_Name u)) tx
         = Inr (v, tx')"
proof (cases "ud_fault db AtBegin")
  case None
  show thesis
  proof (cases "insertTeam (TrimSpace tn) db")
    case (Inl e)
    with None show thesis by (intro failed) (simp add: CreateTeamWithOwner_def)
  next
    case (Inr ttx)
    obtain t tx where team: "insertTeam (TrimSpace tn) db = Inr (t, tx)" using Inr by (cases ttx) auto
    show thesis
    proof (cases "insertUser (team_ID t) (NormalizeEmail ulower (user_Email u)) (user_PasswordHash u) (TrimSpace (user_Name u)) tx")
      case (Inl e)
      with None team show thesis
        by (cases e) (auto simp: CreateTeamWithOwner_def isUniqueViolation_def intro: failed conflict)
    next
      case (Inr vtx)
      then obtain v tx' where user: "insertUser (team_ID t) (NormalizeEmail ulower (user_Email u))
          (user_PasswordHash u) (TrimSpace (user_Name u)) tx = Inr (v, tx')" by (cases vtx) auto
      note eq = CreateTeamWithOwner_def [of ulower tn u db, simplified None team user, simplified]
      show thesis
      proof (cases "ud_fault db AtCommit")
        case None
        with eq team user show thesis by (intro created) auto
      next
        case (Some e)
        with eq team user show thesis
          by (cases "ud_kept db") (auto intro: failed created)
      qed
    qed
  qed
qed (auto simp: CreateTeamWithOwner_def intro: failed)

lemma identity_inv_lower:
  "identity_inv ulower db \<Longrightarrow> u \<in> set (ud_users db) \<Longrightarrow> ud_lower db (user_Email u) = user_Email u"
  unfolding identity_inv_def by metis

lemma CreateTeamWithOwner_Inr:
  assumes inv: "identity_inv ulower db" and ok: "CreateTeamWithOwner ulower tn u db = (Inr (t, v), db')"
  shows "set (ud_users db') = insert v (set (ud_users db))" "user_Email v = NormalizeEmail ulower (user_Email u)"
    "user_PasswordHash v = user_PasswordHash u" "user_TeamID v = team_ID t"
    "user_ID v \<noteq> uuid_nil" "team_ID t \<noteq> uuid_nil"
    "w \<in> set (ud_users db) \<Longrightarrow> user_Email w \<noteq> user_Email v \<and> user_ID w \<noteq> user_ID v"
proof -
  obtain tx where ins: "insertTeam (TrimSpace tn) db = Inr (t, tx)"
    "insertUser (team_ID t) (NormalizeEmail ulower (user_Email u)) (user_PasswordHash u)
       (TrimSpace (user_Name u)) tx = Inr (v, db')"
    using ok by (cases rule: CreateTeamWithOwner_cases [of ulower tn u db]) auto
  note row = create_tables_row [OF ins]
  show "set (ud_users db') = insert v (set (ud_users db))"
    by (simp add: create_tables_users [OF ins])
  show "user_Email v = NormalizeEmail ulower (user_Email u)" "user_PasswordHash v = user_PasswordHash u"
    "user_TeamID v = team_ID t"
    by (fact row)+
  have "ud_uuid db n \<noteq> uuid_nil" for n
    using inv by (simp add: identity_inv_def)
  then show "user_ID v \<noteq> uuid_nil" "team_ID t \<noteq> uuid_nil"
    by (simp_all add: row)
  show "w \<in> set (ud_users db) \<Longrightarrow> user_Email w \<noteq> user_Email v \<and> user_ID w \<noteq> user_ID v"
    using row(6) create_tables_inv(2) [OF inv ins] by (metis imageI)
qed

interpretation user_repository: user_store "NewUserRepository ulower" "NormalizeEmail ulower"
  "identity_inv ulower" "\<lambda>db. set (ud_users db)" for ulower
proof
  fix s s' :: user_db and tn :: gostring and u v w :: User and t :: Team and e :: gostring and i :: uuid
  note ops = NewUserRepository_def
  assume inv: "identity_inv ulower s"
  show "identity_inv ulower (snd (uo_Create (NewUserRepository ulower) tn u s))"
    using inv by (cases rule: CreateTeamWithOwner_cases [of ulower tn u s])
      (auto simp: ops dest: create_tables_inv(1))
  show "set (ud_users s) \<subseteq> set (ud_users (snd (uo_Create (NewUserRepository ulower) tn u s)))"
    by (cases rule: CreateTeamWithOwner_cases [of ulower tn u s]) (auto simp: ops create_tables_users)
  show "uo_FindByEmail (NewUserRepository ulower) e s = Inr u \<Longrightarrow>
      u \<in> set (ud_users s) \<and> user_Email u = NormalizeEmail ulower e"
    using identity_inv_lower [OF inv]
    by (auto simp: ops FindByEmail_def Let_def find_Some_iff nth_mem split: option.splits if_splits)
  show "uo_FindByEmail (NewUserRepository ulower) e s = Inl NotFound \<Longrightarrow> u \<in> set (ud_users s) \<Longrightarrow>
      user_Email u \<noteq> NormalizeEmail ulower e"
    using identity_inv_lower [OF inv]
    by (auto simp: ops FindByEmail_def Let_def find_None_iff split: option.splits if_splits)
  show "u \<in> set (ud_users s) \<Longrightarrow> v \<in> set (ud_users s) \<Longrightarrow> user_Email u = user_Email v \<Longrightarrow> u = v"
    using inv by (auto simp: identity_inv_def distinct_map inj_on_def)
  show "uo_FindByID (NewUserRepository ulower) i s = Inr u \<Longrightarrow> u \<in> set (ud_users s) \<and> user_ID u = i"
    by (auto simp: ops FindByID_def find_Some_iff nth_mem split: option.splits)
  show "uo_FindByID (NewUserRepository ulower) i s = Inl NotFound \<Longrightarrow> u \<in> set (ud_users s) \<Longrightarrow> user_ID u \<noteq> i"
    by (auto simp: ops FindByID_def find_None_iff split: option.splits)
  show "uo_Create (NewUserRepository ulower) tn u s = (Inr (t, v), s') \<Longrightarrow>
      set (ud_users s') = insert v (set (ud_users s)) \<and> user_Email v = NormalizeEmail ulower (user_Email u)
      \<and> user_PasswordHash v = user_PasswordHash u \<and> user_TeamID v = team_ID t
      \<and> user_ID v \<noteq> uuid_nil \<and> team_ID t \<noteq> uuid_nil"
    using CreateTeamWithOwner_Inr(1-6) [OF inv, of tn u t v s'] by (simp add: ops)
  show "uo_Create (NewUserRepository ulower) tn u s = (Inr (t, v), s') \<Longrightarrow> w \<in> set (ud_users s) \<Longrightarrow>
      user_Email w \<noteq> user_Email v \<and> user_ID w \<noteq> user_ID v"
    using CreateTeamWithOwner_Inr(7) [OF inv, of tn u t v s' w] by (simp add: ops)
  show "uo_Create (NewUserRepository ulower) tn u s = (Inl Conflict, s') \<Longrightarrow> set (ud_users s') = set (ud_users s)"
    by (cases rule: CreateTeamWithOwner_cases [of ulower tn u s]) (auto simp: ops)
qed

end
