(* ===== verification/Session_Interface.thy ===== *)
theory Session_Interface
  imports GoTime
begin

text \<open>
  The interface \<open>SessionStore\<close> of \<open>internal/handlers/auth.go\<close>: what the authentication handlers
  call, and what they rely on. An implementation has a state, with a clock; \<open>Revoke\<close> returns an
  error or nothing and the state after it, \<open>IsRevoked\<close> only reads. \<open>environment s s'\<close> is whatever
  happens to the store between two calls: time passes, a connection goes down or comes back.

  \<open>withdrawn id t s\<close> says that the store holds a withdrawal of \<open>id\<close> that lasts until \<open>t\<close>; a
  withdrawal may end a millisecond early, the resolution of the store.
\<close>

record 's session_ops =
  so_Revoke :: "uuid \<Rightarrow> duration \<Rightarrow> 's \<Rightarrow> gostring option \<times> 's"
  so_IsRevoked :: "uuid \<Rightarrow> 's \<Rightarrow> (gostring, bool) result"

text \<open>What can happen to a store: tokens are revoked, as \<open>allowed\<close> has it, and the environment moves.\<close>

inductive evolves ::
  "'s session_ops \<Rightarrow> ('s \<Rightarrow> 's \<Rightarrow> bool) \<Rightarrow> (uuid \<Rightarrow> duration \<Rightarrow> 's \<Rightarrow> bool) \<Rightarrow> 's \<Rightarrow> 's \<Rightarrow> bool"
  for ops environment allowed where
  here: "evolves ops environment allowed s s"
| moved: "evolves ops environment allowed s s' \<Longrightarrow> environment s' s'' \<Longrightarrow> evolves ops environment allowed s s''"
| revoked: "evolves ops environment allowed s s' \<Longrightarrow> allowed j ttl s' \<Longrightarrow>
    evolves ops environment allowed s (snd (so_Revoke ops j ttl s'))"

locale session_store =
  fixes ops :: "'s session_ops"
    and now_of :: "'s \<Rightarrow> time"
    and environment :: "'s \<Rightarrow> 's \<Rightarrow> bool"
    and withdrawn :: "uuid \<Rightarrow> time \<Rightarrow> 's \<Rightarrow> bool"
    and known :: "uuid \<Rightarrow> 's \<Rightarrow> bool"
  assumes revoke_withdraws: "so_Revoke ops i ttl s = (None, s') \<Longrightarrow> 0 < ttl \<Longrightarrow>
      withdrawn i (now_of s + ttl - millisecond) s'"
    and withdrawn_reported: "withdrawn i t s \<Longrightarrow> now_of s < t \<Longrightarrow> so_IsRevoked ops i s \<noteq> Inr False"
    and withdrawn_mono: "withdrawn i t s \<Longrightarrow> t' \<le> t \<Longrightarrow> withdrawn i t' s"
    and withdrawn_environment: "withdrawn i t s \<Longrightarrow> environment s s' \<Longrightarrow> withdrawn i t s'"
    and withdrawn_other: "withdrawn i t s \<Longrightarrow> j \<noteq> i \<Longrightarrow> withdrawn i t (snd (so_Revoke ops j ttl s))"
    and withdrawn_failed: "withdrawn i t s \<Longrightarrow> so_Revoke ops i ttl s = (Some e, s') \<Longrightarrow> withdrawn i t s'"
    and clock_revoke: "now_of (snd (so_Revoke ops j ttl s)) = now_of s"
    and clock_environment: "environment s s' \<Longrightarrow> now_of s \<le> now_of s'"
    and unknown_accepted: "\<not> known i s \<Longrightarrow> so_IsRevoked ops i s \<noteq> Inr True"
    and known_revoke: "known i (snd (so_Revoke ops j ttl s)) \<Longrightarrow> i = j \<or> known i s"
    and known_environment: "environment s s' \<Longrightarrow> known i s' \<Longrightarrow> known i s"
begin

lemma evolves_clock: "evolves ops environment allowed s s' \<Longrightarrow> now_of s \<le> now_of s'"
  by (induction rule: evolves.induct) (auto simp: clock_revoke dest: clock_environment)

lemma withdrawn_again:
  assumes "withdrawn i t s" and "t \<le> now_of s + ttl - millisecond" and "0 < ttl"
  shows "withdrawn i t (snd (so_Revoke ops i ttl s))"
proof (cases "so_Revoke ops i ttl s")
  case (Pair res s')
  then show ?thesis
    using assms(1) withdrawn_failed withdrawn_mono [OF revoke_withdraws assms(2)] assms(3) by (cases res) auto
qed

text \<open>A withdrawal outlasts whatever happens, if that token is only revoked for as long again.\<close>

lemma evolves_withdrawn:
  assumes "evolves ops environment allowed s s'" and "withdrawn i t s" and "now_of s' < t"
    and again: "\<And>ttl u. allowed i ttl u \<Longrightarrow> t \<le> now_of u + ttl - millisecond"
  shows "withdrawn i t s'"
  using assms(1-3)
proof (induction rule: evolves.induct)
  case (moved s s' s'')
  with clock_environment show ?case by (fastforce intro: withdrawn_environment)
next
  case (revoked s s' j ttl)
  then have s': "now_of s' < t" "withdrawn i t s'" by (simp_all add: clock_revoke)
  show ?case
  proof (cases "j = i")
    case True
    then have "t \<le> now_of s' + ttl - millisecond" using revoked.hyps(2) again by simp
    moreover from this s'(1) have "0 < ttl" by (simp add: millisecond_def)
    ultimately show ?thesis using withdrawn_again [OF s'(2)] True by simp
  qed (rule withdrawn_other [OF s'(2)])
qed simp

lemma evolves_unknown:
  "evolves ops environment allowed s s' \<Longrightarrow> \<forall>ttl u. \<not> allowed i ttl u \<Longrightarrow> \<not> known i s \<Longrightarrow> \<not> known i s'"
  by (induction rule: evolves.induct) (auto dest: known_environment known_revoke)

text \<open>
  Once a token is revoked it is not reported as good again before the withdrawal ends, whatever
  happens to other tokens and however often it is revoked again until then; and a token nobody
  revoked is never reported as revoked.
\<close>

lemma stays_revoked:
  assumes "so_Revoke ops i ttl s = (None, s1)" and "evolves ops environment allowed s1 s2"
    and again: "\<And>ttl' u. allowed i ttl' u \<Longrightarrow> now_of s + ttl \<le> now_of u + ttl'"
    and "now_of s2 + millisecond < now_of s + ttl"
  shows "so_IsRevoked ops i s2 \<noteq> Inr False"
proof -
  have "now_of s1 = now_of s"
    using clock_revoke [of i ttl s] assms(1) by simp
  moreover have "now_of s1 \<le> now_of s2" by (rule evolves_clock [OF assms(2)])
  ultimately have "0 < ttl" using assms(4) by (simp add: millisecond_def)
  have "withdrawn i (now_of s + ttl - millisecond) s2"
    by (rule evolves_withdrawn [OF assms(2) revoke_withdraws [OF assms(1) \<open>0 < ttl\<close>]])
      (use assms(4) again in force)+
  with assms(4) show ?thesis by (intro withdrawn_reported) auto
qed

lemma stays_good:
  "evolves ops environment allowed s s' \<Longrightarrow> \<forall>ttl u. \<not> allowed i ttl u \<Longrightarrow> \<not> known i s \<Longrightarrow>
     so_IsRevoked ops i s' \<noteq> Inr True"
  using evolves_unknown unknown_accepted by blast

end

end
