(* ===== verification/Handlers_Auth.thy ===== *)
theory Handlers_Auth
  imports Middleware Repository_User Session_Interface
begin

text \<open>
  \<open>internal/handlers/auth.go\<close>: registration, login, refresh and logout, over any implementation of
  the two stores. The world of these handlers is the log, the state of the two stores, and the
  hashes that passwords were compared against (the expensive part of a login). What a request
  draws is an argument: the salt, the two token ids, and the clock at each of its readings.
\<close>

subsection \<open>State\<close>

record ('u, 's) auth_world = world +
  aw_users :: 'u
  aw_sessions :: 's
  aw_compared :: "gostring list"

record ('u, 's) AuthHandler =
  ah_users :: "'u user_ops"
  ah_sessions :: "'s session_ops"
  ah_hasher :: Hasher
  ah_tokens :: Tokens
  ah_secureCookies :: bool

record draws =
  dr_salt :: nat
  dr_ids :: "uuid \<times> uuid"
  dr_parse :: time
  dr_life :: time
  dr_issue :: time

definition RefreshCookieName :: gostring where "RefreshCookieName = ''flowcast_refresh''"
definition RefreshCookiePath :: gostring where "RefreshCookiePath = ''/api/v1/auth''"
definition maxEmailLength :: nat where "maxEmailLength = 320"

record registerRequest =
  rr_Email :: gostring
  rr_Password :: gostring
  rr_Name :: gostring
  rr_TeamName :: gostring

record loginRequest =
  lr_Email :: gostring
  lr_Password :: gostring

record authResponse =
  ar_User :: User
  ar_Team :: Team
  ar_AccessToken :: gostring
  ar_ExpiresAt :: time

definition User_json :: "lib \<Rightarrow> User \<Rightarrow> json" where
  "User_json lb u = JObject
     [(''id'', JString (uuid_String (lb_uuid lb) (user_ID u))),
      (''team_id'', JString (uuid_String (lb_uuid lb) (user_TeamID u))),
      (''email'', JString (user_Email u)), (''name'', JString (user_Name u)),
      (''created_at'', JTime (user_CreatedAt u)), (''updated_at'', JTime (user_UpdatedAt u))]"

definition Team_json :: "lib \<Rightarrow> Team \<Rightarrow> json" where
  "Team_json lb t = JObject
     [(''id'', JString (uuid_String (lb_uuid lb) (team_ID t))), (''name'', JString (team_Name t)),
      (''created_at'', JTime (team_CreatedAt t)), (''updated_at'', JTime (team_UpdatedAt t))]"

definition authResponse_json :: "lib \<Rightarrow> authResponse \<Rightarrow> json" where
  "authResponse_json lb a = JObject
     [(''user'', User_json lb (ar_User a)), (''team'', Team_json lb (ar_Team a)),
      (''access_token'', JString (ar_AccessToken a)), (''expires_at'', JTime (ar_ExpiresAt a))]"

fun store_Error :: "store_error \<Rightarrow> gostring" where
  "store_Error NotFound = ''not found''"
| "store_Error Conflict = ''creating user: conflict''"
| "store_Error (StoreFailure e) = e"

fun password_Error :: "password_error \<Rightarrow> gostring" where
  "password_Error ErrInvalidCredentials = ''invalid credentials''"
| "password_Error (BadCost c) = ''bcrypt cost must be between 4 and 31, got '' @ show_int c"
| "password_Error (PreparingHasher e) = ''preparing password hasher: '' @ e"
| "password_Error (HashingPassword e) = ''hashing password: '' @ e"
| "password_Error (ComparingHash e) = ''comparing password hash: '' @ e"
| "password_Error (InvalidPassword v) = ValidationError_Error v"

subsection \<open>Cookies and sessions\<close>

definition setRefreshCookie :: "('u, 's) AuthHandler \<Rightarrow> TokenPair \<Rightarrow> rw \<Rightarrow> rw" where
  "setRefreshCookie h pair = SetCookie
     \<lparr>ck_Name = RefreshCookieName, ck_Value = tp_RefreshToken pair, ck_Path = RefreshCookiePath,
      ck_HttpOnly = True, ck_Secure = ah_secureCookies h, ck_SameSite = SameSiteStrict,
      ck_Expires = Some (tp_RefreshExpiresAt pair), ck_MaxAge = 0\<rparr>"

definition clearRefreshCookie :: "('u, 's) AuthHandler \<Rightarrow> rw \<Rightarrow> rw" where
  "clearRefreshCookie h = SetCookie
     \<lparr>ck_Name = RefreshCookieName, ck_Value = [], ck_Path = RefreshCookiePath,
      ck_HttpOnly = True, ck_Secure = ah_secureCookies h, ck_SameSite = SameSiteStrict,
      ck_Expires = None, ck_MaxAge = - 1\<rparr>"

definition respondWithSession ::
  "lib \<Rightarrow> ('u, 's) AuthHandler \<Rightarrow> draws \<Rightarrow> request \<Rightarrow> int \<Rightarrow> User \<Rightarrow> Team
    \<Rightarrow> ('u, 's) auth_world \<Rightarrow> rw \<Rightarrow> ('u, 's) auth_world \<times> rw" where
  "respondWithSession lb h d r status user team w rw =
     (case IssuePair (lb_jwt lb) (lb_uuid lb) (ah_tokens h) (dr_issue d) (dr_ids d) (user_ID user) (user_TeamID user) of
        Inl e \<Rightarrow> WriteInternalError lb r (token_Error e) w rw
      | Inr pair \<Rightarrow>
          WriteJSON lb r status (authResponse_json lb
            \<lparr>ar_User = user, ar_Team = team, ar_AccessToken = tp_AccessToken pair,
             ar_ExpiresAt = tp_AccessExpiresAt pair\<rparr>) w (setRefreshCookie h pair rw))"

subsection \<open>Registration\<close>

definition validateRegistration :: "registerRequest \<Rightarrow> ValidationError option" where
  "validateRegistration req =
     (let v = [];
          add = (\<lambda>field msg v. v @ [\<lparr>fi_Field = field, fi_Message = msg\<rparr>]);
          email = TrimSpace (rr_Email req);
          v = (if email = [] then add ''email'' ''is required'' v
               else if length email > maxEmailLength then add ''email'' ''is too long'' v
               else if \<not> ValidEmail email then add ''email'' ''must be a valid email address'' v
               else v);
          v = (if TrimSpace (rr_Name req) = [] then add ''name'' ''is required'' v else v);
          v = (if TrimSpace (rr_TeamName req) = [] then add ''team_name'' ''is required'' v else v);
          v = (case ValidatePassword (rr_Password req) of Some e \<Rightarrow> v @ ve_Issues e | None \<Rightarrow> v)
      in if length v = 0 then None else Some \<lparr>ve_Issues = v\<rparr>)"

definition new_account :: "registerRequest \<Rightarrow> gostring \<Rightarrow> User" where
  "new_account req hash =
     zero_User\<lparr>user_Email := rr_Email req, user_PasswordHash := hash, user_Name := rr_Name req\<rparr>"

definition Register ::
  "lib \<Rightarrow> registerRequest json_decoder \<Rightarrow> ('u, 's) AuthHandler \<Rightarrow> draws \<Rightarrow> ('u, 's) auth_world handler" where
  "Register lb dec h d r w rw =
     (case DecodeJSON lb dec r of
        Inl e \<Rightarrow> returned (WriteError lb r 400 CodeBadRequest e w rw)
      | Inr req \<Rightarrow>
          (case validateRegistration req of
             Some err \<Rightarrow> returned (WriteValidationError lb r (Inr err) w rw)
           | None \<Rightarrow>
               (case Hash (lb_bcrypt lb) (dr_salt d) (ah_hasher h) (rr_Password req) of
                  Inl e \<Rightarrow> returned (WriteInternalError lb r (password_Error e) w rw)
                | Inr hash \<Rightarrow>
                    (let (res, us) = uo_Create (ah_users h) (rr_TeamName req) (new_account req hash) (aw_users w);
                         w = w\<lparr>aw_users := us\<rparr>
                     in case res of
                          Inl Conflict \<Rightarrow>
                            returned (WriteError lb r 409 CodeConflict
                              ''An account with that email address already exists.'' w rw)
                        | Inl e \<Rightarrow> returned (WriteInternalError lb r (store_Error e) w rw)
                        | Inr (team, user) \<Rightarrow>
                            returned (respondWithSession lb h d r 201 user team
                              (emit LevelInfo ''user registered''
                                 [(''user_id'', AId (user_ID user)), (''team_id'', AId (team_ID team)),
                                  (''request_id'', AString (RequestID_of r))] w) rw)))))"

subsection \<open>Login\<close>

definition rejectCredentials ::
  "lib \<Rightarrow> gostring \<Rightarrow> gostring \<Rightarrow> request \<Rightarrow> ('u, 's) auth_world \<Rightarrow> rw \<Rightarrow> ('u, 's) auth_world \<times> rw" where
  "rejectCredentials lb email reason r w rw =
     WriteError lb r 401 CodeUnauthorized ''Invalid email or password.''
       (emit LevelWarn ''login rejected''
          [(''reason'', AString reason), (''email'', AString (NormalizeEmail (lb_ulower lb) email)),
           (''request_id'', AString (RequestID_of r))] w) rw"

definition compared :: "gostring list \<Rightarrow> ('u, 's) auth_world \<Rightarrow> ('u, 's) auth_world" where
  "compared hashes w = w\<lparr>aw_compared := aw_compared w @ hashes\<rparr>"

definition Login ::
  "lib \<Rightarrow> loginRequest json_decoder \<Rightarrow> ('u, 's) AuthHandler \<Rightarrow> draws \<Rightarrow> ('u, 's) auth_world handler" where
  "Login lb dec h d r w rw =
     (case DecodeJSON lb dec r of
        Inl e \<Rightarrow> returned (WriteError lb r 400 CodeBadRequest e w rw)
      | Inr req \<Rightarrow>
          (case uo_FindByEmail (ah_users h) (lr_Email req) (aw_users w) of
             Inl NotFound \<Rightarrow>
               (let (_, hashes) = VerifyDummy (ah_hasher h); w = compared hashes w
                in returned (rejectCredentials lb (lr_Email req) ''no such user'' r w rw))
           | Inl e \<Rightarrow> returned (WriteInternalError lb r (store_Error e) w rw)
           | Inr user \<Rightarrow>
               (let (err, hashes) = Verify (lb_bcrypt lb) (user_PasswordHash user) (lr_Password req);
                    w = compared hashes w
                in case err of
                     Some e \<Rightarrow>
                       (let w = (if e \<noteq> ErrInvalidCredentials
                                 then emit LevelError ''stored password hash is unusable''
                                        [(''user_id'', AId (user_ID user)), (''error'', AString (password_Error e))] w
                                 else w)
                        in returned (rejectCredentials lb (lr_Email req) ''password mismatch'' r w rw))
                   | None \<Rightarrow>
                       returned (respondWithSession lb h d r 200 user (zero_Team\<lparr>team_ID := user_TeamID user\<rparr>)
                         (emit LevelInfo ''user logged in''
                            [(''user_id'', AId (user_ID user)), (''team_id'', AId (user_TeamID user)),
                             (''request_id'', AString (RequestID_of r))] w) rw))))"

subsection \<open>Refresh and logout\<close>

definition request_cookie :: "request \<Rightarrow> gostring \<Rightarrow> gostring option" where
  "request_cookie r name = map_of (rq_Cookies r) name"

definition rejectSession ::
  "lib \<Rightarrow> gostring \<Rightarrow> request \<Rightarrow> ('u, 's) auth_world \<Rightarrow> rw \<Rightarrow> ('u, 's) auth_world \<times> rw" where
  "rejectSession lb reason r w rw =
     WriteError lb r 401 CodeUnauthorized ''Your session has expired. Please sign in again.''
       (emit LevelWarn ''refresh rejected''
          [(''reason'', AString reason), (''request_id'', AString (RequestID_of r))] w) rw"

definition remainingLife :: "time \<Rightarrow> claims \<Rightarrow> duration" where
  "remainingLife now c = (case cl_ExpiresAt c of None \<Rightarrow> 0 | Some e \<Rightarrow> time_Sub e now)"

definition Refresh ::
  "lib \<Rightarrow> ('u, 's) AuthHandler \<Rightarrow> draws \<Rightarrow> ('u, 's) auth_world handler" where
  "Refresh lb h d r w rw =
     (case request_cookie r RefreshCookieName of
        None \<Rightarrow> returned (rejectSession lb ''no refresh cookie'' r w rw)
      | Some cookie \<Rightarrow>
     (case ParseRefresh (lb_jwt lb) (lb_uuid lb) (ah_tokens h) (dr_parse d) cookie of
        Inl e \<Rightarrow> returned (rejectSession lb (''refresh token rejected: '' @ token_Error e) r w (clearRefreshCookie h rw))
      | Inr claims \<Rightarrow>
     (case uuid_Parse (lb_uuid lb) (cl_ID claims) of
        Inl _ \<Rightarrow> returned (rejectSession lb ''refresh token has no usable id'' r w (clearRefreshCookie h rw))
      | Inr tokenID \<Rightarrow>
     (case so_IsRevoked (ah_sessions h) tokenID (aw_sessions w) of
        Inl e \<Rightarrow> returned (WriteInternalError lb r e w rw)
      | Inr revoked \<Rightarrow>
          if revoked then
            returned (rejectSession lb ''refresh token already used or logged out'' r w (clearRefreshCookie h rw))
          else
     (case UserID (lb_uuid lb) claims of
        Inl _ \<Rightarrow> returned (rejectSession lb ''refresh token subject is unusable'' r w (clearRefreshCookie h rw))
      | Inr userID \<Rightarrow>
     (case uo_FindByID (ah_users h) userID (aw_users w) of
        Inl NotFound \<Rightarrow>
          returned (rejectSession lb ''refresh token names a user that no longer exists'' r w (clearRefreshCookie h rw))
      | Inl e \<Rightarrow> returned (WriteInternalError lb r (store_Error e) w rw)
      | Inr user \<Rightarrow>
          (let (err, ss) = so_Revoke (ah_sessions h) tokenID (remainingLife (dr_life d) claims) (aw_sessions w);
               w = w\<lparr>aw_sessions := ss\<rparr>
           in case err of
                Some e \<Rightarrow> returned (WriteInternalError lb r e w rw)
              | None \<Rightarrow>
                  returned (respondWithSession lb h d r 200 user (zero_Team\<lparr>team_ID := user_TeamID user\<rparr>)
                    (emit LevelInfo ''session refreshed''
                       [(''user_id'', AId (user_ID user)), (''team_id'', AId (user_TeamID user)),
                        (''request_id'', AString (RequestID_of r))] w) rw))))))))"

definition Logout ::
  "lib \<Rightarrow> ('u, 's) AuthHandler \<Rightarrow> draws \<Rightarrow> ('u, 's) auth_world handler" where
  "Logout lb h d r w rw =
     (let rw = clearRefreshCookie h rw
      in case request_cookie r RefreshCookieName of
           None \<Rightarrow> Returned w (WriteHeader 204 rw)
         | Some cookie \<Rightarrow>
     (case ParseRefresh (lb_jwt lb) (lb_uuid lb) (ah_tokens h) (dr_parse d) cookie of
        Inl e \<Rightarrow> Returned w (WriteHeader 204 rw)
      | Inr claims \<Rightarrow>
          (let (err, w) = (case uuid_Parse (lb_uuid lb) (cl_ID claims) of
                 Inl _ \<Rightarrow> (None, w)
               | Inr tokenID \<Rightarrow>
                   (let (e, ss) = so_Revoke (ah_sessions h) tokenID (remainingLife (dr_life d) claims) (aw_sessions w)
                    in (e, w\<lparr>aw_sessions := ss\<rparr>)))
           in case err of
                Some e \<Rightarrow>
                  returned (WriteInternalError lb r e
                    (emit LevelError ''revoking refresh token on logout''
                       [(''error'', AString e), (''request_id'', AString (RequestID_of r))] w) rw)
              | None \<Rightarrow>
                  Returned (emit LevelInfo ''user logged out''
                    [(''user_id'', AString (cl_Subject claims)), (''request_id'', AString (RequestID_of r))] w)
                    (WriteHeader 204 rw))))"

subsection \<open>Registration requests\<close>

definition registration_ok :: "registerRequest \<Rightarrow> bool" where
  "registration_ok req \<longleftrightarrow> length (TrimSpace (rr_Email req)) \<le> 320 \<and> email_shape (TrimSpace (rr_Email req))
     \<and> TrimSpace (rr_Name req) \<noteq> [] \<and> TrimSpace (rr_TeamName req) \<noteq> [] \<and> password_ok (rr_Password req)"

lemma not_ValidEmail_Nil: "\<not> ValidEmail []"
  by (simp add: ValidEmail_def)

lemma validateRegistration_None: "validateRegistration req = None \<longleftrightarrow> registration_ok req"
  using not_ValidEmail_Nil ValidatePassword_Some [of "rr_Password req"]
  by (cases "ValidatePassword (rr_Password req)")
    (auto simp: validateRegistration_def registration_ok_def Let_def maxEmailLength_def
      ValidatePassword_None ValidEmail_shape simp flip: ValidatePassword_None)

subsection \<open>What is answered\<close>

fun final_world :: "'w outcome \<Rightarrow> 'w" where
  "final_world (Returned w rw) = w"
| "final_world (Panicked p w rw) = w"

fun final_rw :: "'w outcome \<Rightarrow> rw" where
  "final_rw (Returned w rw) = rw"
| "final_rw (Panicked p w rw) = rw"

lemma final_returned [simp]: "final_world (returned wr) = fst wr" "final_rw (returned wr) = snd wr"
  by (simp_all add: returned_def)

abbreviation status_of :: "'w outcome \<Rightarrow> int option" where
  "status_of out \<equiv> response_status (final_rw out)"

abbreviation cookies_of :: "'w outcome \<Rightarrow> Cookie list" where
  "cookies_of out \<equiv> sent_cookies (final_rw out)"

text \<open>A session as a client gets it: the access token in the body, the refresh token in a cookie.\<close>

definition refresh_cookie :: "('u, 's) AuthHandler \<Rightarrow> gostring \<Rightarrow> time \<Rightarrow> Cookie" where
  "refresh_cookie h tok expiry =
     \<lparr>ck_Name = ''flowcast_refresh'', ck_Value = tok, ck_Path = ''/api/v1/auth'', ck_HttpOnly = True,
      ck_Secure = ah_secureCookies h, ck_SameSite = SameSiteStrict, ck_Expires = Some expiry, ck_MaxAge = 0\<rparr>"

definition cleared_cookie :: "('u, 's) AuthHandler \<Rightarrow> Cookie" where
  "cleared_cookie h =
     \<lparr>ck_Name = ''flowcast_refresh'', ck_Value = [], ck_Path = ''/api/v1/auth'', ck_HttpOnly = True,
      ck_Secure = ah_secureCookies h, ck_SameSite = SameSiteStrict, ck_Expires = None, ck_MaxAge = - 1\<rparr>"

lemma cookie_writers:
  "rp_cookies (rw_base (setRefreshCookie h pair rw)) =
     rp_cookies (rw_base rw) @ [refresh_cookie h (tp_RefreshToken pair) (tp_RefreshExpiresAt pair)]"
  "rp_cookies (rw_base (clearRefreshCookie h rw)) = rp_cookies (rw_base rw) @ [cleared_cookie h]"
  "unsent (setRefreshCookie h pair rw) = unsent rw"
  "unsent (clearRefreshCookie h rw) = unsent rw"
  by (simp_all add: setRefreshCookie_def clearRefreshCookie_def refresh_cookie_def cleared_cookie_def
      RefreshCookieName_def RefreshCookiePath_def) (simp_all add: SetCookie_def)

lemma error_responses [http_simps]:
  assumes "encodes_errors lb" and "unsent rw"
  shows "response_status (snd (rejectCredentials lb e reason r w rw)) = Some 401"
    and "response_status (snd (rejectSession lb reason r w rw)) = Some 401"
    and "response_status (snd (WriteInternalError lb r cause w' rw)) = Some 500"
    and "sent_cookies (snd (rejectSession lb reason r w rw)) = rp_cookies (rw_base rw)"
    and "sent_cookies (snd (rejectCredentials lb e reason r w rw)) = rp_cookies (rw_base rw)"
    and "sent_cookies (snd (WriteInternalError lb r cause w' rw)) = rp_cookies (rw_base rw)"
  by (simp_all add: rejectCredentials_def rejectSession_def WriteInternalError_def WriteError_status [OF assms])

lemma WriteValidationError_status [http_simps]:
  assumes "encodes_errors lb" and "unsent rw"
  shows "response_status (snd (WriteValidationError lb r (Inr err) w rw)) = Some 422"
    and "sent_cookies (snd (WriteValidationError lb r (Inr err) w rw)) = rp_cookies (rw_base rw)"
proof -
  have enc: "lb_encode lb (ErrorResponse_json e) \<noteq> None" for e
    using assms(1) by (simp add: encodes_errors_def)
  show "response_status (snd (WriteValidationError lb r (Inr err) w rw)) = Some 422"
    "sent_cookies (snd (WriteValidationError lb r (Inr err) w rw)) = rp_cookies (rw_base rw)"
    by (simp_all add: WriteValidationError_def WriteJSON_status [OF assms(2)] enc)
qed

text \<open>
  The last step of three handlers. It answers with a session exactly when the tokens are issued
  and the body encodes; the answer does not depend on the password hash.
\<close>

definition session_payload :: "lib \<Rightarrow> User \<Rightarrow> Team \<Rightarrow> TokenPair \<Rightarrow> json" where
  "session_payload lb user team pair = authResponse_json lb
     \<lparr>ar_User = user, ar_Team = team, ar_AccessToken = tp_AccessToken pair, ar_ExpiresAt = tp_AccessExpiresAt pair\<rparr>"

definition issue_for :: "lib \<Rightarrow> ('u, 's) AuthHandler \<Rightarrow> draws \<Rightarrow> User \<Rightarrow> (token_error, TokenPair) result" where
  "issue_for lb h d user =
     IssuePair (lb_jwt lb) (lb_uuid lb) (ah_tokens h) (dr_issue d) (dr_ids d) (user_ID user) (user_TeamID user)"

lemma respondWithSession_cases:
  assumes "encodes_errors lb" and "unsent rw" and "final_status status"
  obtains (failed) "response_status (snd (respondWithSession lb h d r status user team w rw)) = Some 500"
  | (issued) pair b where "issue_for lb h d user = Inr pair"
      "lb_encode lb (session_payload lb user team pair) = Some b"
      "respondWithSession lb h d r status user team w rw =
         (w, writeRaw status (b @ [CHR 0x0A]) (setRefreshCookie h pair rw))"
proof (cases "issue_for lb h d user")
  case (Inl e)
  then show thesis
    by (intro failed) (simp add: respondWithSession_def issue_for_def error_responses [OF assms(1,2)])
next
  case (Inr pair)
  have un: "unsent (setRefreshCookie h pair rw)" using assms(2) by (simp add: cookie_writers)
  show thesis
  proof (cases "lb_encode lb (session_payload lb user team pair)")
    case None
    with Inr show thesis
      by (intro failed) (simp add: respondWithSession_def issue_for_def session_payload_def
          WriteJSON_status(1) [OF un assms(3)])
  next
    case (Some b)
    with Inr show thesis
      by (intro issued) (simp_all add: respondWithSession_def issue_for_def session_payload_def WriteJSON_def)
  qed
qed

lemma session_response:
  assumes "unsent rw" and "status = 200 \<or> status = 201"
  shows "response_status (writeRaw status body (setRefreshCookie h pair rw)) = Some status"
    and "sent_cookies (writeRaw status body (setRefreshCookie h pair rw)) =
      rp_cookies (rw_base rw) @ [refresh_cookie h (tp_RefreshToken pair) (tp_RefreshExpiresAt pair)]"
  using assms writeRaw_sent(1,2) [of "setRefreshCookie h pair rw" status body]
  by (auto simp: cookie_writers)

lemma respondWithSession_hides_hash:
  "respondWithSession lb h d r status (user\<lparr>user_PasswordHash := x\<rparr>) team w rw =
     respondWithSession lb h d r status user team w rw"
  by (simp add: respondWithSession_def authResponse_json_def User_json_def cong: sum.case_cong)

subsection \<open>When a session is handed out\<close>

lemma respondWithSession_status:
  assumes "encodes_errors lb" and "unsent rw" and "status = 200 \<or> status = 201"
    and "response_status (snd (respondWithSession lb h d r status user team w rw)) = Some status"
  shows "\<exists>pair b. issue_for lb h d user = Inr pair \<and> lb_encode lb (session_payload lb user team pair) = Some b
     \<and> respondWithSession lb h d r status user team w rw =
         (w, writeRaw status (b @ [CHR 0x0A]) (setRefreshCookie h pair rw))"
proof -
  have "final_status status" using assms(3) by auto
  then show ?thesis
    using assms(3,4) by (cases rule: respondWithSession_cases [OF assms(1,2), of status h d r user team w]) auto
qed

lemma Register_session:
  assumes "encodes_errors lb" and "unsent rw" and "status_of (Register lb dec h d r w rw) = Some 201"
  obtains req hash t v us pair where "DecodeJSON lb dec r = Inr req" "registration_ok req"
    "Hash (lb_bcrypt lb) (dr_salt d) (ah_hasher h) (rr_Password req) = Inr hash"
    "uo_Create (ah_users h) (rr_TeamName req) (new_account req hash) (aw_users w) = (Inr (t, v), us)"
    "issue_for lb h d v = Inr pair" "aw_users (final_world (Register lb dec h d r w rw)) = us"
    "cookies_of (Register lb dec h d r w rw) =
       rp_cookies (rw_base rw) @ [refresh_cookie h (tp_RefreshToken pair) (tp_RefreshExpiresAt pair)]"
proof -
  note err = WriteError_status(1) [OF assms(1,2)] error_responses [OF assms(1,2)]
    WriteValidationError_status [OF assms(1,2)]
  from assms(3) obtain req where req: "DecodeJSON lb dec r = Inr req" "validateRegistration req = None"
    by (auto simp: Register_def err split: sum.splits option.splits)
  from assms(3) req obtain hash where hash: "Hash (lb_bcrypt lb) (dr_salt d) (ah_hasher h) (rr_Password req) = Inr hash"
    by (auto simp: Register_def err split: sum.splits)
  obtain res us where create: "uo_Create (ah_users h) (rr_TeamName req) (new_account req hash) (aw_users w) = (res, us)"
    by fastforce
  have step: "Register lb dec h d r w rw = (case res of
       Inl Conflict \<Rightarrow> returned (WriteError lb r 409 CodeConflict
         ''An account with that email address already exists.'' (w\<lparr>aw_users := us\<rparr>) rw)
     | Inl e \<Rightarrow> returned (WriteInternalError lb r (store_Error e) (w\<lparr>aw_users := us\<rparr>) rw)
     | Inr (team, user) \<Rightarrow> returned (respondWithSession lb h d r 201 user team
         (emit LevelInfo ''user registered'' [(''user_id'', AId (user_ID user)), (''team_id'', AId (team_ID team)),
            (''request_id'', AString (RequestID_of r))] (w\<lparr>aw_users := us\<rparr>)) rw))"
    by (simp add: Register_def req hash create Let_def)
  from assms(3) obtain t v where res: "res = Inr (t, v)"
    by (cases res) (auto simp: step err split: store_error.splits)
  obtain w' where reg: "Register lb dec h d r w rw = returned (respondWithSession lb h d r 201 v t w' rw)"
    and w': "aw_users w' = us"
    by (auto simp: step res emit_def)
  from assms(3) obtain pair b where pair: "issue_for lb h d v = Inr pair"
    and out: "respondWithSession lb h d r 201 v t w' rw = (w', writeRaw 201 (b @ [CHR 0x0A]) (setRefreshCookie h pair rw))"
    using respondWithSession_status [OF assms(1,2), of 201 h d r v t w'] by (auto simp: reg)
  show thesis
    by (rule that [OF req(1) _ hash create [unfolded res] pair])
      (use req(2) w' session_response(2) [OF assms(2), of 201] in \<open>auto simp: validateRegistration_None reg out\<close>)
qed

lemma Login_session:
  assumes "encodes_errors lb" and "unsent rw" and "status_of (Login lb dec h d r w rw) = Some 200"
  obtains req v pair where "DecodeJSON lb dec r = Inr req"
    "uo_FindByEmail (ah_users h) (lr_Email req) (aw_users w) = Inr v"
    "CompareHashAndPassword (lb_bcrypt lb) (user_PasswordHash v) (lr_Password req) = Match"
    "issue_for lb h d v = Inr pair"
    "cookies_of (Login lb dec h d r w rw) =
       rp_cookies (rw_base rw) @ [refresh_cookie h (tp_RefreshToken pair) (tp_RefreshExpiresAt pair)]"
proof -
  note err = WriteError_status(1) [OF assms(1,2)] error_responses [OF assms(1,2)]
  from assms(3) obtain req where req: "DecodeJSON lb dec r = Inr req"
    by (auto simp: Login_def err split: sum.splits)
  from assms(3) obtain v where v: "uo_FindByEmail (ah_users h) (lr_Email req) (aw_users w) = Inr v"
    by (cases "uo_FindByEmail (ah_users h) (lr_Email req) (aw_users w)")
      (auto simp: Login_def req err VerifyDummy_def Let_def split: store_error.splits)
  from assms(3) have m: "CompareHashAndPassword (lb_bcrypt lb) (user_PasswordHash v) (lr_Password req) = Match"
    by (auto simp: Login_def req v err Verify_def Let_def split: compare_result.splits)
  obtain w' where log: "Login lb dec h d r w rw =
      returned (respondWithSession lb h d r 200 v (zero_Team\<lparr>team_ID := user_TeamID v\<rparr>) w' rw)"
    by (auto simp: Login_def req v Verify_def m Let_def)
  from assms(3) obtain pair b where pair: "issue_for lb h d v = Inr pair"
    and out: "respondWithSession lb h d r 200 v (zero_Team\<lparr>team_ID := user_TeamID v\<rparr>) w' rw =
      (w', writeRaw 200 (b @ [CHR 0x0A]) (setRefreshCookie h pair rw))"
    using respondWithSession_status [OF assms(1,2), of 200 h d r v _ w'] by (force simp: log)
  show thesis
    by (rule that [OF req v m pair]) (use session_response(2) [OF assms(2), of 200] in \<open>simp add: log out\<close>)
qed

lemma Refresh_session:
  assumes "encodes_errors lb" and "unsent rw" and "status_of (Refresh lb h d r w rw) = Some 200"
  obtains cookie claims i u v ss pair where "request_cookie r RefreshCookieName = Some cookie"
    "ParseRefresh (lb_jwt lb) (lb_uuid lb) (ah_tokens h) (dr_parse d) cookie = Inr claims"
    "uuid_Parse (lb_uuid lb) (cl_ID claims) = Inr i"
    "so_IsRevoked (ah_sessions h) i (aw_sessions w) = Inr False"
    "UserID (lb_uuid lb) claims = Inr u" "uo_FindByID (ah_users h) u (aw_users w) = Inr v"
    "so_Revoke (ah_sessions h) i (remainingLife (dr_life d) claims) (aw_sessions w) = (None, ss)"
    "issue_for lb h d v = Inr pair"
    "aw_sessions (final_world (Refresh lb h d r w rw)) = ss"
    "cookies_of (Refresh lb h d r w rw) =
       rp_cookies (rw_base rw) @ [refresh_cookie h (tp_RefreshToken pair) (tp_RefreshExpiresAt pair)]"
proof -
  have "unsent (clearRefreshCookie h rw)" using assms(2) by (simp add: cookie_writers)
  note err = error_responses [OF assms(1,2)] error_responses [OF assms(1) this]
  from assms(3) obtain cookie where cookie: "request_cookie r RefreshCookieName = Some cookie"
    by (auto simp: Refresh_def err split: option.splits)
  from assms(3) obtain claims where claims:
    "ParseRefresh (lb_jwt lb) (lb_uuid lb) (ah_tokens h) (dr_parse d) cookie = Inr claims"
    by (cases "ParseRefresh (lb_jwt lb) (lb_uuid lb) (ah_tokens h) (dr_parse d) cookie")
      (auto simp: Refresh_def cookie err)
  from assms(3) obtain i where i: "uuid_Parse (lb_uuid lb) (cl_ID claims) = Inr i"
    by (cases "uuid_Parse (lb_uuid lb) (cl_ID claims)") (auto simp: Refresh_def cookie claims err)
  from assms(3) have good: "so_IsRevoked (ah_sessions h) i (aw_sessions w) = Inr False"
    by (cases "so_IsRevoked (ah_sessions h) i (aw_sessions w)")
      (auto simp: Refresh_def cookie claims i err split: if_splits)
  from assms(3) obtain u where u: "UserID (lb_uuid lb) claims = Inr u"
    by (cases "UserID (lb_uuid lb) claims") (auto simp: Refresh_def cookie claims i good err)
  from assms(3) obtain v where v: "uo_FindByID (ah_users h) u (aw_users w) = Inr v"
    by (cases "uo_FindByID (ah_users h) u (aw_users w)")
      (auto simp: Refresh_def cookie claims i good u err split: store_error.splits)
  obtain e ss where rev: "so_Revoke (ah_sessions h) i (remainingLife (dr_life d) claims) (aw_sessions w) = (e, ss)"
    by fastforce
  note path = cookie claims i good u v rev
  from assms(3) have e: "e = None"
    by (cases e) (auto simp: Refresh_def path Let_def err)
  obtain w' where ref: "Refresh lb h d r w rw =
      returned (respondWithSession lb h d r 200 v (zero_Team\<lparr>team_ID := user_TeamID v\<rparr>) w' rw)"
    and w': "aw_sessions w' = ss"
    by (auto simp: Refresh_def path e Let_def emit_def)
  from assms(3) obtain pair b where pair: "issue_for lb h d v = Inr pair"
    and out: "respondWithSession lb h d r 200 v (zero_Team\<lparr>team_ID := user_TeamID v\<rparr>) w' rw =
      (w', writeRaw 200 (b @ [CHR 0x0A]) (setRefreshCookie h pair rw))"
    using respondWithSession_status [OF assms(1,2), of 200 h d r v _ w'] by (force simp: ref)
  show thesis
    by (rule that [OF cookie claims i good u v rev [unfolded e] pair])
      (use w' session_response(2) [OF assms(2), of 200] in \<open>simp_all add: ref out\<close>)
qed

text \<open>A handler never panics.\<close>

lemma handlers_return:
  "\<exists>w' rw'. Register lb rdec h d r w rw = Returned w' rw'"
  "\<exists>w' rw'. Login lb ldec h d r w rw = Returned w' rw'"
  "\<exists>w' rw'. Refresh lb h d r w rw = Returned w' rw'"
  "\<exists>w' rw'. Logout lb h d r w rw = Returned w' rw'"
  by (auto simp: Register_def Login_def Refresh_def Logout_def returned_def Let_def split_beta
      split: sum.splits option.splits store_error.splits)

subsection \<open>Failing logins\<close>

definition login_failure :: "lib \<Rightarrow> request \<Rightarrow> rw \<Rightarrow> rw" where
  "login_failure lb r rw =
     snd (WriteError lb r 401 CodeUnauthorized ''Invalid email or password.'' \<lparr>w_log = []\<rparr> rw)"

lemma WriteError_any_world:
  "snd (WriteError lb r status code msg w rw) = snd (WriteError lb r status code msg (\<lparr>w_log = []\<rparr> :: world) rw)"
  by (simp add: WriteError_def snd_WriteJSON)

text \<open>
  An unknown address and a wrong password are answered with the same response, after one hash
  comparison each.
\<close>

lemma Login_unknown:
  assumes "DecodeJSON lb dec r = Inr req"
    and "uo_FindByEmail (ah_users h) (lr_Email req) (aw_users w) = Inl NotFound"
  shows "final_rw (Login lb dec h d r w rw) = login_failure lb r rw"
    and "length (aw_compared (final_world (Login lb dec h d r w rw))) = length (aw_compared w) + 1"
  using assms WriteError_any_world
  by (auto simp: Login_def VerifyDummy_def Let_def rejectCredentials_def login_failure_def
      WriteError_def WriteJSON_def compared_def emit_def split: option.splits)

lemma Login_mismatch:
  assumes "DecodeJSON lb dec r = Inr req"
    and "uo_FindByEmail (ah_users h) (lr_Email req) (aw_users w) = Inr v"
    and "CompareHashAndPassword (lb_bcrypt lb) (user_PasswordHash v) (lr_Password req) \<noteq> Match"
  shows "final_rw (Login lb dec h d r w rw) = login_failure lb r rw"
    and "length (aw_compared (final_world (Login lb dec h d r w rw))) = length (aw_compared w) + 1"
  using assms WriteError_any_world
  by (auto simp: Login_def Verify_def Let_def rejectCredentials_def login_failure_def
      WriteError_def WriteJSON_def compared_def emit_def split: option.splits compare_result.splits)

subsection \<open>Logout\<close>

lemma WriteHeader_response:
  assumes "unsent rw" and "final_status status"
  shows "response_status (WriteHeader status rw) = Some status"
    and "sent_cookies (WriteHeader status rw) = rp_cookies (rw_base rw)"
  using assms WriteHeader_sent [of rw status]
  by (auto simp: unsent_def response_status_def sent_cookies_def base_WriteHeader_def final_status_def)

lemma Logout_response:
  assumes "encodes_errors lb" and "unsent rw"
  shows "cookies_of (Logout lb h d r w rw) = rp_cookies (rw_base rw) @ [cleared_cookie h]"
    and "status_of (Logout lb h d r w rw) = Some 204 \<or> status_of (Logout lb h d r w rw) = Some 500"
    and "aw_users (final_world (Logout lb h d r w rw)) = aw_users w"
proof -
  have un: "unsent (clearRefreshCookie h rw)" using assms(2) by (simp add: cookie_writers)
  note facts = WriteHeader_response [OF un] error_responses [OF assms(1) un] cookie_writers(2)
  show "cookies_of (Logout lb h d r w rw) = rp_cookies (rw_base rw) @ [cleared_cookie h]"
    by (simp add: Logout_def Let_def split_beta facts split: option.split sum.split)
  show "status_of (Logout lb h d r w rw) = Some 204 \<or> status_of (Logout lb h d r w rw) = Some 500"
    by (simp add: Logout_def Let_def split_beta facts split: option.split sum.split)
  show "aw_users (final_world (Logout lb h d r w rw)) = aw_users w"
    by (simp add: Logout_def Let_def split_beta emit_def WriteInternalError_def WriteError_def WriteJSON_def
        split: option.split sum.split)
qed

text \<open>Logging out with a refresh token that verifies revokes it, or answers 500.\<close>

lemma Logout_revokes:
  assumes "encodes_errors lb" and "unsent rw"
    and "request_cookie r RefreshCookieName = Some cookie"
    and "ParseRefresh (lb_jwt lb) (lb_uuid lb) (ah_tokens h) (dr_parse d) cookie = Inr claims"
    and "uuid_Parse (lb_uuid lb) (cl_ID claims) = Inr i"
    and "status_of (Logout lb h d r w rw) = Some 204"
  shows "so_Revoke (ah_sessions h) i (remainingLife (dr_life d) claims) (aw_sessions w) =
     (None, aw_sessions (final_world (Logout lb h d r w rw)))"
proof -
  obtain e ss where rev: "so_Revoke (ah_sessions h) i (remainingLife (dr_life d) claims) (aw_sessions w) = (e, ss)"
    by fastforce
  have un: "unsent (clearRefreshCookie h rw)" using assms(2) by (simp add: cookie_writers)
  from assms(6) have "e = None"
    by (cases e) (auto simp: Logout_def Let_def assms(3-5) rev error_responses [OF assms(1) un])
  then show ?thesis by (simp add: Logout_def Let_def assms(3-5) rev emit_def)
qed

end
