(* ===== verification/Handlers_Health.thy ===== *)
theory Handlers_Health
  imports Middleware
begin

text \<open>
  \<open>internal/handlers/health.go\<close>. A probe is a parameter: what it comes to within the timeout, and
  the time it takes. The probes run in goroutines of their own, each of which writes its slot of
  the results; \<open>order\<close> is the order in which they finish, which only the log can show.
\<close>

subsection \<open>health.go\<close>

definition DefaultHealthTimeout :: duration where "DefaultHealthTimeout = 2 * second"

datatype probe_outcome = ProbeOK | ProbeFailed gostring | ProbePanicked gostring

record Check =
  hc_Name :: gostring
  hc_Probe :: "duration \<Rightarrow> probe_outcome \<times> duration"

definition statusOK :: gostring where "statusOK = ''ok''"
definition statusDegraded :: gostring where "statusDegraded = ''degraded''"
definition statusUnavailable :: gostring where "statusUnavailable = ''unavailable''"

record checkResult =
  cr_Status :: gostring
  cr_LatencyMS :: int

text \<open>The map \<open>Checks\<close> is its list of entries, the latest for a name first.\<close>

record healthResponse =
  hr_Status :: gostring
  hr_Version :: gostring
  hr_Checks :: "(gostring \<times> checkResult) list"

record healthHandler =
  hh_checks :: "Check list"
  hh_version :: gostring
  hh_timeout :: duration

definition Health :: "gostring \<Rightarrow> duration \<Rightarrow> Check list \<Rightarrow> healthHandler" where
  "Health version timeout checks =
     (let timeout = (if timeout \<le> 0 then DefaultHealthTimeout else timeout)
      in \<lparr>hh_checks = checks, hh_version = version, hh_timeout = timeout\<rparr>)"

definition run_check :: "healthHandler \<Rightarrow> Check \<Rightarrow> request \<Rightarrow> 'z world_scheme \<Rightarrow> checkResult \<times> 'z world_scheme" where
  "run_check h check r w =
     (let (outcome, took) = hc_Probe check (hh_timeout h);
          latency = Milliseconds took
      in case outcome of
           ProbePanicked v \<Rightarrow>
             (\<lparr>cr_Status = statusUnavailable, cr_LatencyMS = latency\<rparr>,
              emit LevelError ''health check panicked''
                [(''check'', AString (hc_Name check)), (''panic'', AString v),
                 (''request_id'', AString (RequestID_of r))] w)
         | ProbeFailed e \<Rightarrow>
             (\<lparr>cr_Status = statusUnavailable, cr_LatencyMS = latency\<rparr>,
              emit LevelWarn ''health check failed''
                [(''check'', AString (hc_Name check)), (''error'', AString e),
                 (''latency_ms'', AInt latency), (''request_id'', AString (RequestID_of r))] w)
         | ProbeOK \<Rightarrow> (\<lparr>cr_Status = statusOK, cr_LatencyMS = latency\<rparr>, w))"

text \<open>The goroutines, by the order in which they finish.\<close>

fun finish_probes ::
  "healthHandler \<Rightarrow> request \<Rightarrow> nat list \<Rightarrow> checkResult list \<Rightarrow> 'z world_scheme \<Rightarrow> checkResult list \<times> 'z world_scheme" where
  "finish_probes h r [] results w = (results, w)"
| "finish_probes h r (i # order) results w =
     (let (res, w) = run_check h (hh_checks h ! i) r w
      in finish_probes h r order (results[i := res]) w)"

definition put_entry :: "gostring \<Rightarrow> 'v \<Rightarrow> (gostring \<times> 'v) list \<Rightarrow> (gostring \<times> 'v) list" where
  "put_entry k v m = (k, v) # filter (\<lambda>(k', _). k' \<noteq> k) m"

fun collect :: "Check list \<Rightarrow> checkResult list \<Rightarrow> healthResponse \<Rightarrow> healthResponse" where
  "collect (check # checks) (res # results) body =
     (let body = body\<lparr>hr_Checks := put_entry (hc_Name check) res (hr_Checks body)\<rparr>;
          body = (if cr_Status res \<noteq> statusOK then body\<lparr>hr_Status := statusDegraded\<rparr> else body)
      in collect checks results body)"
| "collect _ _ body = body"

text \<open>\<open>encoding/json\<close> writes the entries of a map by their keys.\<close>

definition healthResponse_json :: "healthResponse \<Rightarrow> json" where
  "healthResponse_json b = JObject
     [(''status'', JString (hr_Status b)), (''version'', JString (hr_Version b)),
      (''checks'', JObject (map (\<lambda>(n, res). (n, JObject [(''status'', JString (cr_Status res)),
          (''latency_ms'', JInt (cr_LatencyMS res))]))
        (sortSlice (hr_Checks b) (\<lambda>a b. fst a < fst b))))]"

definition ServeHTTP :: "lib \<Rightarrow> healthHandler \<Rightarrow> nat list \<Rightarrow> 'z world_scheme handler" where
  "ServeHTTP lb h order r w rw =
     (let (results, w) = finish_probes h r order
            (replicate (length (hh_checks h)) \<lparr>cr_Status = [], cr_LatencyMS = 0\<rparr>) w;
          body = collect (hh_checks h) results
            \<lparr>hr_Status = statusOK, hr_Version = hh_version h, hr_Checks = []\<rparr>;
          status = (if hr_Status body \<noteq> statusOK then 503 else 200)
      in returned (WriteJSON lb r status (healthResponse_json body) w rw))"

subsection \<open>The order does not matter\<close>

text \<open>What a probe reports, without its log entry.\<close>

definition check_result :: "healthHandler \<Rightarrow> Check \<Rightarrow> checkResult" where
  "check_result h c =
     \<lparr>cr_Status = (if fst (hc_Probe c (hh_timeout h)) = ProbeOK then statusOK else statusUnavailable),
      cr_LatencyMS = Milliseconds (snd (hc_Probe c (hh_timeout h)))\<rparr>"

definition passes :: "healthHandler \<Rightarrow> Check \<Rightarrow> bool" where
  "passes h c \<longleftrightarrow> fst (hc_Probe c (hh_timeout h)) = ProbeOK"

lemma run_check_result: "fst (run_check h c r w) = check_result h c"
  by (simp add: run_check_def check_result_def split_beta Let_def split: probe_outcome.split)

lemma finish_probes_length: "length (fst (finish_probes h r order results w)) = length results"
  by (induction order arbitrary: results w) (simp_all add: split_beta Let_def)

lemma finish_probes_nth:
  assumes "j < length results"
  shows "fst (finish_probes h r order results w) ! j =
    (if j \<in> set order then check_result h (hh_checks h ! j) else results ! j)"
  using assms
proof (induction order arbitrary: results w)
  case (Cons i order)
  then show ?case by (simp add: split_beta Let_def run_check_result nth_list_update)
qed simp

lemma finish_probes_all:
  assumes "set order = {..<length (hh_checks h)}" and "length results = length (hh_checks h)"
  shows "fst (finish_probes h r order results w) = map (check_result h) (hh_checks h)"
  using assms by (intro nth_equalityI) (simp_all add: finish_probes_length finish_probes_nth)

lemma collect_status:
  "length checks = length results \<Longrightarrow>
     hr_Status (collect checks results body) =
       (if \<forall>res \<in> set results. cr_Status res = statusOK then hr_Status body else statusDegraded)"
  by (induction checks results body rule: collect.induct) (auto simp: Let_def)

lemma check_result_ok: "cr_Status (check_result h c) = statusOK \<longleftrightarrow> passes h c"
  by (simp add: check_result_def passes_def statusOK_def statusUnavailable_def)

definition health_body :: "healthHandler \<Rightarrow> healthResponse" where
  "health_body h = collect (hh_checks h) (map (check_result h) (hh_checks h))
     \<lparr>hr_Status = statusOK, hr_Version = hh_version h, hr_Checks = []\<rparr>"

lemma health_body_status:
  "hr_Status (health_body h) = (if list_all (passes h) (hh_checks h) then statusOK else statusDegraded)"
  by (simp add: health_body_def collect_status check_result_ok list_all_iff)

lemma ServeHTTP_eq:
  assumes "set order = {..<length (hh_checks h)}"
  shows "\<exists>w'. ServeHTTP lb h order r w rw = returned (WriteJSON lb r
     (if list_all (passes h) (hh_checks h) then 200 else 503) (healthResponse_json (health_body h)) w' rw)"
proof -
  define results where "results = replicate (length (hh_checks h)) \<lparr>cr_Status = [], cr_LatencyMS = 0\<rparr>"
  have "fst (finish_probes h r order results w) = map (check_result h) (hh_checks h)"
    by (rule finish_probes_all [OF assms]) (simp add: results_def)
  moreover have "statusDegraded \<noteq> statusOK" by (simp add: statusDegraded_def statusOK_def)
  ultimately show ?thesis
    using health_body_status [of h]
    by (auto simp: ServeHTTP_def Let_def split_beta results_def [symmetric] health_body_def [symmetric])
qed

text \<open>The entries of the body: every check, the last of those that share a name.\<close>

lemma map_of_put_entry [simp]: "map_of (put_entry k v m) = (map_of m)(k \<mapsto> v)"
proof
  fix x
  show "map_of (put_entry k v m) x = ((map_of m)(k \<mapsto> v)) x"
    by (cases "x = k") (simp_all add: put_entry_def map_of_filter_in case_prod_beta', induction m, auto)
qed

lemma collect_entries:
  "length checks = length results \<Longrightarrow>
     map_of (hr_Checks (collect checks results body)) =
       map_of (hr_Checks body) ++ map_of (rev (zip (map hc_Name checks) results))"
proof (induction checks results body rule: collect.induct)
  case (1 check checks res results body)
  then show ?case by (simp add: Let_def map_add_upd_left split: if_splits)
qed auto

end
