(* ===== verification/Handlers_Router.thy ===== *)
theory Handlers_Router
  imports Handlers_Auth Handlers_Health
begin

text \<open>
  \<open>internal/handlers/router.go\<close>: the routes and the chain of middleware around them. The router
  library (\<open>go-chi/chi\<close>) is a parameter, which picks one of the registered patterns for a method
  and a path; \<open>chi_laws\<close> says that the pattern it picks matches. The nested groups are written out
  as full paths. What the four authentication endpoints do in a router without tokens, where they
  would dereference a nil pointer, is a parameter too (\<open>untokened\<close>).
\<close>

subsection \<open>The router library\<close>

datatype route_pattern = Route gostring gostring | MountAt gostring

datatype chi_match = Matched nat | WrongMethod | NoRoute

type_synonym chi = "route_pattern list \<Rightarrow> gostring \<Rightarrow> gostring \<Rightarrow> chi_match"

fun pattern_matches :: "route_pattern \<Rightarrow> gostring \<Rightarrow> gostring \<Rightarrow> bool" where
  "pattern_matches (Route m p) method path = (m = method \<and> p = path)"
| "pattern_matches (MountAt p) method path = prefix p path"

definition chi_laws :: "chi \<Rightarrow> bool" where
  "chi_laws ch \<longleftrightarrow> (\<forall>ps m p i. ch ps m p = Matched i \<longrightarrow> i < length ps \<and> pattern_matches (ps ! i) m p)"

text \<open>
  \<open>cors.Handler\<close> answers a preflight itself, or calls the next handler; it adds headers of its own.
\<close>

definition adds_headers :: "(response \<Rightarrow> response) \<Rightarrow> bool" where
  "adds_headers f \<longleftrightarrow> (\<forall>rp. rp_sent (f rp) = rp_sent rp \<and> rp_cookies (f rp) = rp_cookies rp
     \<and> rp_header (f rp) (header_key ''X-Request-ID'') = rp_header rp (header_key ''X-Request-ID''))"

definition cors_laws :: "(cors_options \<Rightarrow> 'w handler \<Rightarrow> 'w handler) \<Rightarrow> bool" where
  "cors_laws ch \<longleftrightarrow> (\<forall>opts nxt r w rw.
     (\<exists>rw'. ch opts nxt r w rw = Returned w rw')
     \<or> (\<exists>f. adds_headers f \<and> ch opts nxt r w rw = nxt r w (rw_update f rw)))"

text \<open>The headers are all that it touches on its way: nothing is written to the body.\<close>

definition only_headers :: "(response \<Rightarrow> response) \<Rightarrow> bool" where
  "only_headers f \<longleftrightarrow> adds_headers f \<and> (\<forall>rp. rp_body (f rp) = rp_body rp \<and> rp_broken (f rp) = rp_broken rp)"

definition cors_header_laws :: "(cors_options \<Rightarrow> 'w handler \<Rightarrow> 'w handler) \<Rightarrow> bool" where
  "cors_header_laws ch \<longleftrightarrow> (\<forall>opts nxt r w rw.
     (\<exists>rw'. ch opts nxt r w rw = Returned w rw')
     \<or> (\<exists>f. only_headers f \<and> ch opts nxt r w rw = nxt r w (rw_update f rw)))"

subsection \<open>router.go\<close>

record ('u, 's) Deps =
  dp_Config :: ServerConfig
  dp_Version :: gostring
  dp_HealthChecks :: "Check list"
  dp_Users :: "'u user_ops option"
  dp_Sessions :: "'s session_ops option"
  dp_Hasher :: Hasher
  dp_Tokens :: "Tokens option"
  dp_SecureCookies :: bool
  dp_ProtectedRoutes :: "(gostring \<times> ('u, 's) auth_world handler) list"

record decoders =
  dc_register :: "registerRequest json_decoder"
  dc_login :: "loginRequest json_decoder"

text \<open>What one request draws on its way: ids, times, and the order in which health probes finish.\<close>

record http_draws =
  hd_fresh :: gostring
  hd_elapsed :: duration
  hd_stack :: "request \<Rightarrow> gostring"
  hd_order :: "nat list"
  hd_auth :: draws
  hd_now :: time

definition NewAuthHandler ::
  "'u user_ops \<Rightarrow> 's session_ops \<Rightarrow> Hasher \<Rightarrow> Tokens \<Rightarrow> bool \<Rightarrow> ('u, 's) AuthHandler" where
  "NewAuthHandler users sessions hasher tokens secureCookies =
     \<lparr>ah_users = users, ah_sessions = sessions, ah_hasher = hasher, ah_tokens = tokens,
      ah_secureCookies = secureCookies\<rparr>"

definition notFound :: "lib \<Rightarrow> 'z world_scheme handler" where
  "notFound lb r w rw =
     returned (WriteError lb r 404 CodeNotFound ''The requested resource does not exist.'' w rw)"

definition methodNotAllowed :: "lib \<Rightarrow> 'z world_scheme handler" where
  "methodNotAllowed lb r w rw =
     returned (WriteError lb r 405 CodeMethodNotAllowed ''That method is not supported for this resource.'' w rw)"

definition withMiddleware ::
  "lib \<Rightarrow> (cors_options \<Rightarrow> 'z world_scheme handler \<Rightarrow> 'z world_scheme handler) \<Rightarrow> http_draws
    \<Rightarrow> 'z world_scheme handler \<Rightarrow> ServerConfig \<Rightarrow> 'z world_scheme handler" where
  "withMiddleware lb cors_Handler d handler cfg =
     (let handler = Recoverer lb (hd_stack d) handler;
          handler = Logger (hd_elapsed d) handler;
          handler = CORS cors_Handler (sc_CORSOrigins cfg) handler;
          handler = RequestID (hd_fresh d) handler
      in handler)"

definition auth_routes ::
  "lib \<Rightarrow> decoders \<Rightarrow> (gostring \<Rightarrow> ('u, 's) auth_world handler) \<Rightarrow> http_draws \<Rightarrow> ('u, 's) Deps
    \<Rightarrow> (route_pattern \<times> ('u, 's) auth_world handler) list" where
  "auth_routes lb dec untokened d deps =
     (case (dp_Users deps, dp_Sessions deps) of
        (Some users, Some sessions) \<Rightarrow>
          (let endpoint = (\<lambda>name serve.
                 (Route ''POST'' (''/api/v1'' @ ''/auth'' @ name),
                  case dp_Tokens deps of
                    None \<Rightarrow> untokened name
                  | Some tokens \<Rightarrow> serve (NewAuthHandler users sessions (dp_Hasher deps) tokens (dp_SecureCookies deps))))
           in [endpoint ''/register'' (\<lambda>h. Register lb (dc_register dec) h (hd_auth d)),
               endpoint ''/login'' (\<lambda>h. Login lb (dc_login dec) h (hd_auth d)),
               endpoint ''/refresh'' (\<lambda>h. Refresh lb h (hd_auth d)),
               endpoint ''/logout'' (\<lambda>h. Logout lb h (hd_auth d))])
      | _ \<Rightarrow> [])"

definition protected_routes ::
  "lib \<Rightarrow> http_draws \<Rightarrow> ('u, 's) Deps \<Rightarrow> (route_pattern \<times> ('u, 's) auth_world handler) list" where
  "protected_routes lb d deps =
     (case dp_Tokens deps of
        None \<Rightarrow> []
      | Some tokens \<Rightarrow>
          map (\<lambda>(path, handler). (MountAt (''/api/v1'' @ path), Authenticate lb tokens (hd_now d) handler))
            (dp_ProtectedRoutes deps))"

definition mux_routes ::
  "lib \<Rightarrow> decoders \<Rightarrow> (gostring \<Rightarrow> ('u, 's) auth_world handler) \<Rightarrow> http_draws \<Rightarrow> ('u, 's) Deps
    \<Rightarrow> (route_pattern \<times> ('u, 's) auth_world handler) list" where
  "mux_routes lb dec untokened d deps =
     [(Route ''GET'' ''/health'',
       ServeHTTP lb (Health (dp_Version deps) DefaultHealthTimeout (dp_HealthChecks deps)) (hd_order d))]
     @ auth_routes lb dec untokened d deps @ protected_routes lb d deps"

definition dispatch ::
  "lib \<Rightarrow> chi \<Rightarrow> (route_pattern \<times> 'z world_scheme handler) list \<Rightarrow> 'z world_scheme handler" where
  "dispatch lb ch routes r w rw =
     (case ch (map fst routes) (rq_Method r) (rq_Path r) of
        Matched i \<Rightarrow> snd (routes ! i) r w rw
      | WrongMethod \<Rightarrow> methodNotAllowed lb r w rw
      | NoRoute \<Rightarrow> notFound lb r w rw)"

definition NewRouter ::
  "lib \<Rightarrow> chi \<Rightarrow> (cors_options \<Rightarrow> ('u, 's) auth_world handler \<Rightarrow> ('u, 's) auth_world handler) \<Rightarrow> decoders
    \<Rightarrow> (gostring \<Rightarrow> ('u, 's) auth_world handler) \<Rightarrow> http_draws \<Rightarrow> ('u, 's) Deps \<Rightarrow> ('u, 's) auth_world handler" where
  "NewRouter lb ch cors_Handler dec untokened d deps =
     withMiddleware lb cors_Handler d (dispatch lb ch (mux_routes lb dec untokened d deps)) (dp_Config deps)"

subsection \<open>The chain\<close>

text \<open>The id that a request gets, the request as the inner handlers see it, and the writer.\<close>

definition request_id :: "http_draws \<Rightarrow> request \<Rightarrow> gostring" where
  "request_id d r = (if ValidRequestID (Header_Get (rq_Header r) RequestIDHeader)
     then Header_Get (rq_Header r) RequestIDHeader else hd_fresh d)"

lemma request_id_valid: "ValidRequestID (hd_fresh d) \<Longrightarrow> ValidRequestID (request_id d r)"
  by (simp add: request_id_def)

lemma withMiddleware_chain:
  "withMiddleware lb ch d handler cfg r w rw =
     ch (cors_config (sc_CORSOrigins cfg)) (Logger (hd_elapsed d) (Recoverer lb (hd_stack d) handler))
       (ContextWithRequestID r (request_id d r)) w (set_header RequestIDHeader (request_id d r) rw)"
  by (simp add: withMiddleware_def RequestID_def CORS_def Let_def request_id_def)

lemma withMiddleware_cases:
  assumes "cors_laws ch"
  obtains (preflight) rw' where "withMiddleware lb ch d handler cfg r w rw = Returned w rw'"
  | (passed) f where "adds_headers f" "withMiddleware lb ch d handler cfg r w rw =
      Logger (hd_elapsed d) (Recoverer lb (hd_stack d) handler) (ContextWithRequestID r (request_id d r)) w
        (rw_update f (set_header RequestIDHeader (request_id d r) rw))"
  using assms unfolding cors_laws_def withMiddleware_chain by blast

lemma withMiddleware_header_cases:
  assumes "cors_header_laws ch"
  obtains (preflight) rw' where "withMiddleware lb ch d handler cfg r w rw = Returned w rw'"
  | (passed) f where "only_headers f" "withMiddleware lb ch d handler cfg r w rw =
      Logger (hd_elapsed d) (Recoverer lb (hd_stack d) handler) (ContextWithRequestID r (request_id d r)) w
        (rw_update f (set_header RequestIDHeader (request_id d r) rw))"
  using assms unfolding cors_header_laws_def withMiddleware_chain by blast

text \<open>
  No panic leaves the chain, except the one that \<open>net/http\<close> defines for dropping a connection; that
  one is not swallowed, and it leaves nothing in the log. Any other is logged with its value.
\<close>

lemma Logger_panic:
  "Logger el nxt r w rw = Panicked p w' rw' \<Longrightarrow> \<exists>rw''. nxt r w (newResponseRecorder rw) = Panicked p w' rw''"
  by (auto simp: Logger_def split: outcome.splits rw.splits)

lemma Logger_Panicked:
  "nxt r w (newResponseRecorder rw) = Panicked p w' rw' \<Longrightarrow> Logger el nxt r w rw = Panicked p w' (Unwrap rw')"
  by (simp add: Logger_def)

lemma Logger_Returned:
  "nxt r w (newResponseRecorder rw) = Returned w' rw' \<Longrightarrow>
     \<exists>rest rw''. Logger el nxt r w rw = Returned (w'\<lparr>w_log := w_log w' @ rest\<rparr>) rw''"
  by (cases rw') (auto simp: Logger_def emit_def intro: exI [of _ "[]"])

lemma withMiddleware_panic:
  assumes "cors_laws ch" and "withMiddleware lb ch d handler cfg r w rw = Panicked p w' rw'"
  shows "p = ErrAbortHandler \<and>
    (\<exists>rw1 rw2. handler (ContextWithRequestID r (request_id d r)) w rw1 = Panicked ErrAbortHandler w' rw2)"
proof (rule withMiddleware_cases [OF assms(1), of lb d handler cfg r w rw])
  fix f
  assume "withMiddleware lb ch d handler cfg r w rw =
      Logger (hd_elapsed d) (Recoverer lb (hd_stack d) handler) (ContextWithRequestID r (request_id d r)) w
        (rw_update f (set_header RequestIDHeader (request_id d r) rw))"
  from Logger_panic [OF this [symmetric, unfolded assms(2)]] Recoverer_total show ?thesis by metis
qed (use assms(2) in simp)

lemma withMiddleware_abort:
  assumes "cors_laws ch"
    and "\<And>rw. \<exists>rw'. handler (ContextWithRequestID r (request_id d r)) w rw = Panicked ErrAbortHandler w1 rw'"
  obtains (preflight) rw' where "withMiddleware lb ch d handler cfg r w rw = Returned w rw'"
  | (aborted) rw' where "withMiddleware lb ch d handler cfg r w rw = Panicked ErrAbortHandler w1 rw'"
proof (rule withMiddleware_cases [OF assms(1), of lb d handler cfg r w rw])
  fix f
  let ?r = "ContextWithRequestID r (request_id d r)"
  let ?rw = "rw_update f (set_header RequestIDHeader (request_id d r) rw)"
  obtain rw' where "handler ?r w (newResponseRecorder ?rw) = Panicked ErrAbortHandler w1 rw'"
    using assms(2) by blast
  then have "Recoverer lb (hd_stack d) handler ?r w (newResponseRecorder ?rw) = Panicked ErrAbortHandler w1 rw'"
    by (simp add: Recoverer_total)
  note Logger_Panicked [where nxt = "Recoverer lb (hd_stack d) handler", OF this, of "hd_elapsed d"]
  moreover assume "withMiddleware lb ch d handler cfg r w rw =
      Logger (hd_elapsed d) (Recoverer lb (hd_stack d) handler) ?r w ?rw"
  ultimately show thesis by (simp add: aborted)
qed (rule preflight)

lemma WriteError_log: "\<exists>rest. fst (WriteError lb r st code msg w rw) = w\<lparr>w_log := w_log w @ rest\<rparr>"
  by (auto simp: WriteError_def WriteJSON_def emit_def split: option.split intro: exI [of _ "[]"])

lemma Recoverer_logs:
  assumes "nxt r w rw = Panicked (PanicValue v) w1 rw'"
  shows "\<exists>p rest rw''. Recoverer lb stack nxt r w rw = Returned (w1\<lparr>w_log := w_log w1 @ p # rest\<rparr>) rw''
    \<and> le_Level p = LevelError \<and> (''panic'', AString v) \<in> set (le_Attrs p)"
proof -
  define p where "p = \<lparr>le_Level = LevelError, le_Msg = ''panic recovered'', le_Attrs =
    [(''request_id'', AString (RequestID_of r)), (''method'', AString (rq_Method r)),
     (''path'', AString (rq_Path r)), (''panic'', AString v), (''stack'', AString (stack r))]\<rparr>"
  define w2 where "w2 = w1\<lparr>w_log := w_log w1 @ [p]\<rparr>"
  let ?answer = "WriteError lb r 500 CodeInternal ''An unexpected error occurred. Please try again.'' w2 rw'"
  have eq: "Recoverer lb stack nxt r w rw =
      (if Written rw' = Some True then Returned w2 rw' else Returned (fst ?answer) (snd ?answer))"
    by (simp add: Recoverer_def assms Let_def split_beta emit_def p_def w2_def)
  obtain rest where rest: "fst ?answer = w2\<lparr>w_log := w_log w2 @ rest\<rparr>"
    using WriteError_log by blast
  show ?thesis
  proof (cases "Written rw' = Some True")
    case True
    then show ?thesis by (intro exI [of _ p] exI [of _ "[]"]) (simp add: eq w2_def p_def)
  next
    case False
    then have "Recoverer lb stack nxt r w rw = Returned (w1\<lparr>w_log := w_log w1 @ p # rest\<rparr>) (snd ?answer)"
      by (simp add: eq rest) (simp add: w2_def)
    then show ?thesis by (intro exI [of _ p] exI [of _ rest]) (simp add: p_def)
  qed
qed

lemma withMiddleware_logs:
  assumes "cors_laws ch"
    and "\<And>rw. \<exists>rw'. handler (ContextWithRequestID r (request_id d r)) w rw = Panicked (PanicValue v) w1 rw'"
  obtains (preflight) rw' where "withMiddleware lb ch d handler cfg r w rw = Returned w rw'"
  | (logged) p rest rw' where "withMiddleware lb ch d handler cfg r w rw =
        Returned (w1\<lparr>w_log := w_log w1 @ p # rest\<rparr>) rw'"
      "le_Level p = LevelError" "(''panic'', AString v) \<in> set (le_Attrs p)"
proof (rule withMiddleware_cases [OF assms(1), of lb d handler cfg r w rw])
  fix f
  let ?r = "ContextWithRequestID r (request_id d r)"
  let ?rw = "rw_update f (set_header RequestIDHeader (request_id d r) rw)"
  obtain rw' where "handler ?r w (newResponseRecorder ?rw) = Panicked (PanicValue v) w1 rw'"
    using assms(2) by blast
  from Recoverer_logs [where nxt = handler, OF this] obtain p rest rw2
    where rec: "Recoverer lb (hd_stack d) handler ?r w (newResponseRecorder ?rw) =
        Returned (w1\<lparr>w_log := w_log w1 @ p # rest\<rparr>) rw2"
      and p: "le_Level p = LevelError" "(''panic'', AString v) \<in> set (le_Attrs p)" by blast
  obtain rest' rw3 where "Logger (hd_elapsed d) (Recoverer lb (hd_stack d) handler) ?r w ?rw =
      Returned (w1\<lparr>w_log := w_log w1 @ p # (rest @ rest')\<rparr>) rw3"
    using Logger_Returned [where nxt = "Recoverer lb (hd_stack d) handler", OF rec, of "hd_elapsed d"] by auto
  moreover assume "withMiddleware lb ch d handler cfg r w rw =
      Logger (hd_elapsed d) (Recoverer lb (hd_stack d) handler) ?r w ?rw"
  ultimately show thesis using logged p by simp
qed (rule preflight)

text \<open>An error written through the recorder: the recorder has its status, the writer below the response.\<close>

lemma writeRaw_Recorded: "\<exists>rw' rc'. writeRaw st b (Recorded rw rc) = Recorded rw' rc'"
  by (simp add: writeRaw_def set_header_def Let_def split_beta)

lemma unsent_recorder: "unsent rw \<Longrightarrow> unsent (newResponseRecorder rw)"
  by (simp add: unsent_def newResponseRecorder_def)

lemma fst_WriteError:
  assumes "encodes_errors lb"
  shows "fst (WriteError lb r st code msg w rw) = w"
proof -
  obtain b where "lb_encode lb (ErrorResponse_json
      \<lparr>er_Error = code, er_Message = msg, er_RequestID = RequestID_of r, er_Fields = []\<rparr>) = Some b"
    using assms unfolding encodes_errors_def by (metis option.exhaust)
  then show ?thesis by (simp add: WriteError_def WriteJSON_def)
qed

lemma WriteError_recorded:
  assumes "encodes_errors lb" and "unsent rw" and "final_status st"
  obtains rw' rc b where "snd (WriteError lb r st code msg w (newResponseRecorder rw)) = Recorded rw' rc"
    "rc_status rc = st" "response_status rw' = Some st" "rc_wroteHeader rc"
    "sent_header rw' ''X-Request-ID'' = Header_Get (rp_header (rw_base rw)) ''X-Request-ID''"
    "sent_header rw' ''Content-Type'' = ''application/json; charset=utf-8''"
    "lb_encode lb (ErrorResponse_json
       \<lparr>er_Error = code, er_Message = msg, er_RequestID = RequestID_of r, er_Fields = []\<rparr>) = Some b"
    "body_allowed st \<longrightarrow> \<not> rp_broken (rw_base rw) \<longrightarrow>
       rp_body (rw_base rw') = rp_body (rw_base rw) @ b @ [CHR 0x0A]"
proof -
  define e where "e = ErrorResponse_json \<lparr>er_Error = code, er_Message = msg, er_RequestID = RequestID_of r, er_Fields = []\<rparr>"
  obtain b where b: "lb_encode lb e = Some b"
    using assms(1) unfolding encodes_errors_def e_def by (metis option.exhaust)
  have eq: "snd (WriteError lb r st code msg w (newResponseRecorder rw)) = writeRaw st (b @ [CHR 0x0A]) (newResponseRecorder rw)"
    by (simp add: WriteError_def WriteJSON_def e_def [symmetric] b)
  obtain rw' rc where rec: "writeRaw st (b @ [CHR 0x0A]) (newResponseRecorder rw) = Recorded rw' rc"
    unfolding newResponseRecorder_def using writeRaw_Recorded by blast
  have keys: "header_key ''X-Request-ID'' \<noteq> header_key ''Content-Type''"
    "header_key ''X-Request-ID'' \<noteq> header_key ''X-Content-Type-Options''"
    by (simp_all add: header_key_def ascii_upper_def ascii_lower_def)
  note sent = writeRaw_sent [OF unsent_recorder [OF assms(2)] assms(3), where body = "b @ [CHR 0x0A]", unfolded rec]
  have "rw_base (Recorded rw' rc) = rw_base rw'" by simp
  then have "response_status rw' = Some st" "sent_header rw' ''Content-Type'' = ''application/json; charset=utf-8''"
    "sent_header rw' ''X-Request-ID'' = Header_Get (rp_header (rw_base rw)) ''X-Request-ID''"
    using sent(1,3) sent(6) [OF keys] by (simp_all add: response_status_def sent_header_def newResponseRecorder_def)
  moreover from sent(5) this(1) have "rc_status rc = st" "rc_wroteHeader rc"
    by (auto simp: response_status_def)
  moreover have "body_allowed st \<longrightarrow> \<not> rp_broken (rw_base rw) \<longrightarrow>
      rp_body (rw_base rw') = rp_body (rw_base rw) @ b @ [CHR 0x0A]"
    using sent(4) by (simp add: newResponseRecorder_def)
  ultimately show thesis using that eq rec b by (simp add: e_def)
qed

text \<open>The writer that the inner handlers get has the id of the request in its header.\<close>

lemma chain_writer:
  assumes "adds_headers f"
  shows "Header_Get (rp_header (rw_base (rw_update f (set_header RequestIDHeader i rw)))) ''X-Request-ID'' = i"
    and "unsent (rw_update f (set_header RequestIDHeader i rw)) = unsent rw"
proof -
  show "Header_Get (rp_header (rw_base (rw_update f (set_header RequestIDHeader i rw)))) ''X-Request-ID'' = i"
    using assms by (simp add: adds_headers_def Header_Get_def)
      (simp add: set_header_def Header_Set_def RequestIDHeader_def)
  have "unsent (rw_update f (set_header RequestIDHeader i rw)) = unsent (set_header RequestIDHeader i rw)"
    using assms by (simp add: adds_headers_def unsent_def)
  then show "unsent (rw_update f (set_header RequestIDHeader i rw)) = unsent rw" by simp
qed

text \<open>A handler that panics before it has written anything: the client gets the constant error, and
  the log says what happened, twice.\<close>

lemma chain_panic:
  assumes laws: "cors_laws ch" "encodes_errors lb" and un: "unsent rw"
    and panics: "\<And>rw. handler (ContextWithRequestID r (request_id d r)) w rw = Panicked (PanicValue v) w rw"
  obtains (preflight) rw' where "withMiddleware lb ch d handler cfg r w rw = Returned w rw'"
  | (answered) w' rw' where "withMiddleware lb ch d handler cfg r w rw = Returned w' rw'"
      "response_status rw' = Some 500" "sent_header rw' ''X-Request-ID'' = request_id d r"
      "\<exists>p q. w_log w' = w_log w @ [p, q] \<and> le_Msg p = ''panic recovered'' \<and> le_Msg q = ''http request''
         \<and> le_Level p = LevelError \<and> le_Level q = LevelError \<and> (''status'', AInt 500) \<in> set (le_Attrs q)"
proof (rule withMiddleware_cases [OF laws(1), of lb d handler cfg r w rw])
  fix f
  define rw1 where "rw1 = rw_update f (set_header RequestIDHeader (request_id d r) rw)"
  define r1 where "r1 = ContextWithRequestID r (request_id d r)"
  assume f: "adds_headers f" and eq: "withMiddleware lb ch d handler cfg r w rw =
      Logger (hd_elapsed d) (Recoverer lb (hd_stack d) handler) (ContextWithRequestID r (request_id d r)) w
        (rw_update f (set_header RequestIDHeader (request_id d r) rw))"
  have rw1: "unsent rw1" "Header_Get (rp_header (rw_base rw1)) ''X-Request-ID'' = request_id d r"
    using chain_writer [OF f] un by (simp_all add: rw1_def)
  define w1 where "w1 = emit LevelError ''panic recovered'' [(''request_id'', AString (RequestID_of r1)),
    (''method'', AString (rq_Method r1)), (''path'', AString (rq_Path r1)), (''panic'', AString v),
    (''stack'', AString (hd_stack d r1))] w"
  note final = final_statuses(10)
  obtain rw2 rc where rec: "snd (WriteError lb r1 500 CodeInternal
        ''An unexpected error occurred. Please try again.'' w1 (newResponseRecorder rw1)) = Recorded rw2 rc"
    and rec_facts: "rc_status rc = 500" "response_status rw2 = Some 500"
      "sent_header rw2 ''X-Request-ID'' = request_id d r"
    using WriteError_recorded [OF laws(2) rw1(1) final, of r1 CodeInternal] rw1(2) by metis
  have "Written (newResponseRecorder rw1) = Some False" by (simp add: newResponseRecorder_def)
  then have "Recoverer lb (hd_stack d) handler r1 w (newResponseRecorder rw1) =
      Returned (fst (WriteError lb r1 500 CodeInternal
        ''An unexpected error occurred. Please try again.'' w1 (newResponseRecorder rw1))) (Recorded rw2 rc)"
    by (simp add: Recoverer_def panics [folded r1_def] Let_def split_beta w1_def [symmetric] rec)
  moreover have "fst (WriteError lb r1 500 CodeInternal
        ''An unexpected error occurred. Please try again.'' w1 (newResponseRecorder rw1)) = w1"
    by (rule fst_WriteError [OF laws(2)])
  ultimately have "Logger (hd_elapsed d) (Recoverer lb (hd_stack d) handler) r1 w rw1 = Returned
      (emit LevelError ''http request'' (request_attrs r1 rc (hd_elapsed d)) w1) rw2"
    by (simp add: Logger_def rec_facts levelForStatus_def)
  then show thesis
    by (intro answered) (use eq rec_facts in \<open>auto simp: r1_def [symmetric] rw1_def [symmetric] emit_def w1_def
        request_attrs_def\<close>)
qed (rule preflight)

subsection \<open>Dispatch\<close>

text \<open>What nothing serves is answered in JSON, with the id of the request.\<close>

lemma chain_error:
  assumes laws: "cors_header_laws ch" "encodes_errors lb" and un: "unsent rw" and final: "final_status st" "body_allowed st"
    and open_conn: "\<not> rp_broken (rw_base rw)"
    and answers: "\<And>rw. handler (ContextWithRequestID r (request_id d r)) w rw =
      returned (WriteError lb (ContextWithRequestID r (request_id d r)) st code msg w rw)"
  obtains (preflight) rw' where "withMiddleware lb ch d handler cfg r w rw = Returned w rw'"
  | (answered) w' rw' b where "withMiddleware lb ch d handler cfg r w rw = Returned w' rw'"
      "response_status rw' = Some st" "sent_header rw' ''X-Request-ID'' = request_id d r"
      "sent_header rw' ''Content-Type'' = ''application/json; charset=utf-8''"
      "lb_encode lb (ErrorResponse_json
         \<lparr>er_Error = code, er_Message = msg, er_RequestID = request_id d r, er_Fields = []\<rparr>) = Some b"
      "rp_body (rw_base rw') = rp_body (rw_base rw) @ b @ [CHR 0x0A]"
proof (rule withMiddleware_header_cases [OF laws(1), of lb d handler cfg r w rw])
  fix f
  define rw1 where "rw1 = rw_update f (set_header RequestIDHeader (request_id d r) rw)"
  define r1 where "r1 = ContextWithRequestID r (request_id d r)"
  assume only: "only_headers f" and eq: "withMiddleware lb ch d handler cfg r w rw =
      Logger (hd_elapsed d) (Recoverer lb (hd_stack d) handler) (ContextWithRequestID r (request_id d r)) w
        (rw_update f (set_header RequestIDHeader (request_id d r) rw))"
  then have f: "adds_headers f" by (simp add: only_headers_def)
  have rw1: "unsent rw1" "Header_Get (rp_header (rw_base rw1)) ''X-Request-ID'' = request_id d r"
    using chain_writer [OF f] un by (simp_all add: rw1_def)
  have same: "rp_body (rw_base rw1) = rp_body (rw_base rw)" "rp_broken (rw_base rw1) = rp_broken (rw_base rw)"
    using only by (simp_all add: rw1_def only_headers_def set_header_def)
  have id: "RequestID_of r1 = request_id d r" by (simp add: r1_def RequestID_of_def ContextWithRequestID_def)
  obtain rw2 rc b where rec: "snd (WriteError lb r1 st code msg w (newResponseRecorder rw1)) = Recorded rw2 rc"
    and facts: "response_status rw2 = Some st" "sent_header rw2 ''X-Request-ID'' = request_id d r"
      "sent_header rw2 ''Content-Type'' = ''application/json; charset=utf-8''"
    and body: "lb_encode lb (ErrorResponse_json
         \<lparr>er_Error = code, er_Message = msg, er_RequestID = RequestID_of r1, er_Fields = []\<rparr>) = Some b"
      "body_allowed st \<longrightarrow> \<not> rp_broken (rw_base rw1) \<longrightarrow> rp_body (rw_base rw2) = rp_body (rw_base rw1) @ b @ [CHR 0x0A]"
    using WriteError_recorded [OF laws(2) rw1(1) final(1), of r1 code msg w] rw1(2) by metis
  have "\<exists>w'. Logger (hd_elapsed d) (Recoverer lb (hd_stack d) handler) r1 w rw1 = Returned w' rw2"
    by (simp add: Logger_def Recoverer_def answers [folded r1_def] returned_def rec)
  then obtain w' where run: "withMiddleware lb ch d handler cfg r w rw = Returned w' rw2"
    using eq by (auto simp: r1_def rw1_def)
  show thesis
  proof (rule answered [OF run facts])
    show "lb_encode lb (ErrorResponse_json
         \<lparr>er_Error = code, er_Message = msg, er_RequestID = request_id d r, er_Fields = []\<rparr>) = Some b"
      using body(1) by (simp add: id)
    show "rp_body (rw_base rw2) = rp_body (rw_base rw) @ b @ [CHR 0x0A]"
      using body(2) same final(2) open_conn by simp
  qed
qed (rule preflight)

lemma dispatch_unmatched:
  assumes "ch (map fst routes) (rq_Method r) (rq_Path r) = NoRoute"
  shows "dispatch lb ch routes r w rw = notFound lb r w rw"
  using assms by (simp add: dispatch_def)

text \<open>
  Protected handlers run for authenticated callers only: for any other request, replacing them
  changes nothing, and their paths are answered with 401.
\<close>

definition with_protected ::
  "(gostring \<Rightarrow> ('u, 's) auth_world handler) \<Rightarrow> ('u, 's) Deps \<Rightarrow> ('u, 's) Deps" where
  "with_protected g deps = deps\<lparr>dp_ProtectedRoutes := map (\<lambda>(p, _). (p, g p)) (dp_ProtectedRoutes deps)\<rparr>"

lemma Authenticate_blind:
  fixes w :: "('u, 's) auth_world"
  assumes "\<nexists>who. authenticated lb tokens now r who"
  shows "Authenticate lb tokens now nxt r w rw = Authenticate lb tokens now nxt' r w rw"
    and "encodes_errors lb \<Longrightarrow> unsent rw \<Longrightarrow> status_of (Authenticate lb tokens now nxt r w rw) = Some 401"
proof -
  have "\<exists>code msg reason. \<forall>nxt (w :: ('u, 's) auth_world) rw.
      Authenticate lb tokens now nxt r w rw = returned (unauthorized lb code msg reason r w rw)"
    by (rule Authenticate_cases [of lb tokens now r]) (use assms in blast)+
  then obtain code msg reason where eq: "\<And>nxt (w :: ('u, 's) auth_world) rw.
      Authenticate lb tokens now nxt r w rw = returned (unauthorized lb code msg reason r w rw)"
    by blast
  show "Authenticate lb tokens now nxt r w rw = Authenticate lb tokens now nxt' r w rw"
    by (simp add: eq)
  show "encodes_errors lb \<Longrightarrow> unsent rw \<Longrightarrow> status_of (Authenticate lb tokens now nxt r w rw) = Some 401"
    by (simp add: eq unauthorized_response(1))
qed

lemma protected_nth_blind:
  fixes w :: "('u, 's) auth_world"
  assumes "dp_Tokens deps = Some tokens" and "\<nexists>who. authenticated lb tokens (hd_now d) r who"
    and "i < length (protected_routes lb d deps)"
  shows "snd (protected_routes lb d deps ! i) r w rw = snd (protected_routes lb d (with_protected g deps) ! i) r w rw"
    and "encodes_errors lb \<Longrightarrow> unsent rw \<Longrightarrow> status_of (snd (protected_routes lb d deps ! i) r w rw) = Some 401"
proof -
  have i: "i < length (dp_ProtectedRoutes deps)"
    using assms(3) by (simp add: protected_routes_def assms(1))
  obtain path h where ph: "dp_ProtectedRoutes deps ! i = (path, h)" by fastforce
  have eq: "snd (protected_routes lb d deps ! i) = Authenticate lb tokens (hd_now d) h"
    "snd (protected_routes lb d (with_protected g deps) ! i) = Authenticate lb tokens (hd_now d) (g path)"
    using i ph by (simp_all add: protected_routes_def with_protected_def assms(1))
  show "snd (protected_routes lb d deps ! i) r w rw = snd (protected_routes lb d (with_protected g deps) ! i) r w rw"
    unfolding eq by (rule Authenticate_blind(1) [OF assms(2)])
  show "encodes_errors lb \<Longrightarrow> unsent rw \<Longrightarrow> status_of (snd (protected_routes lb d deps ! i) r w rw) = Some 401"
    unfolding eq by (rule Authenticate_blind(2) [OF assms(2)])
qed

lemma with_protected_sel [simp]:
  "dp_Config (with_protected g deps) = dp_Config deps" "dp_Version (with_protected g deps) = dp_Version deps"
  "dp_HealthChecks (with_protected g deps) = dp_HealthChecks deps" "dp_Users (with_protected g deps) = dp_Users deps"
  "dp_Sessions (with_protected g deps) = dp_Sessions deps" "dp_Hasher (with_protected g deps) = dp_Hasher deps"
  "dp_Tokens (with_protected g deps) = dp_Tokens deps" "dp_SecureCookies (with_protected g deps) = dp_SecureCookies deps"
  by (simp_all add: with_protected_def)

text \<open>The routes that need no token.\<close>

definition public_routes ::
  "lib \<Rightarrow> decoders \<Rightarrow> (gostring \<Rightarrow> ('u, 's) auth_world handler) \<Rightarrow> http_draws \<Rightarrow> ('u, 's) Deps
    \<Rightarrow> (route_pattern \<times> ('u, 's) auth_world handler) list" where
  "public_routes lb dec un d deps = [(Route ''GET'' ''/health'',
       ServeHTTP lb (Health (dp_Version deps) DefaultHealthTimeout (dp_HealthChecks deps)) (hd_order d))]
     @ auth_routes lb dec un d deps"

lemma mux_routes_split: "mux_routes lb dec un d deps = public_routes lb dec un d deps @ protected_routes lb d deps"
  by (simp add: mux_routes_def public_routes_def)

lemma public_routes_with: "public_routes lb dec un d (with_protected g deps) = public_routes lb dec un d deps"
  unfolding public_routes_def auth_routes_def with_protected_sel ..

lemma public_patterns:
  assumes "(pat, h) \<in> set (public_routes lb dec un d deps)"
  shows "pat = Route ''GET'' ''/health'' \<or> (\<exists>name. pat = Route ''POST'' (''/api/v1/auth'' @ name))"
  using assms by (auto simp: public_routes_def auth_routes_def Let_def split: option.splits)

lemma mux_routes_with:
  "map fst (mux_routes lb dec un d (with_protected g deps)) = map fst (mux_routes lb dec un d deps)"
  "length (protected_routes lb d (with_protected g deps)) = length (protected_routes lb d deps)"
  unfolding mux_routes_split public_routes_with
  by (simp_all add: protected_routes_def split: option.split) (simp_all add: with_protected_def split_beta comp_def)

lemma dispatch_blind:
  fixes w :: "('u, 's) auth_world"
  assumes "chi_laws ch" and "dp_Tokens deps = Some tokens" and "\<nexists>who. authenticated lb tokens (hd_now d) r who"
  shows "dispatch lb ch (mux_routes lb dec un d (with_protected g deps)) r w rw =
    dispatch lb ch (mux_routes lb dec un d deps) r w rw"
proof (cases "ch (map fst (mux_routes lb dec un d deps)) (rq_Method r) (rq_Path r)")
  case (Matched i)
  have i: "i < length (mux_routes lb dec un d deps)"
    using assms(1) Matched unfolding chi_laws_def by (metis length_map)
  have "snd (mux_routes lb dec un d (with_protected g deps) ! i) r w rw = snd (mux_routes lb dec un d deps ! i) r w rw"
  proof (cases "i < length (public_routes lb dec un d deps)")
    case False
    with i have "i - length (public_routes lb dec un d deps) < length (protected_routes lb d deps)"
      by (simp add: mux_routes_split)
    from protected_nth_blind(1) [OF assms(2,3) this, of w rw g] False show ?thesis
      by (simp add: mux_routes_split public_routes_with nth_append)
  qed (simp add: mux_routes_split public_routes_with nth_append)
  then show ?thesis using Matched by (simp add: dispatch_def mux_routes_with(1))
qed (simp_all add: dispatch_def mux_routes_with(1))

text \<open>A path that only protected mounts match.\<close>

lemma dispatch_protected:
  fixes w :: "('u, 's) auth_world"
  assumes "chi_laws ch" and "dp_Tokens deps = Some tokens" and "\<nexists>who. authenticated lb tokens (hd_now d) r who"
    and "encodes_errors lb" "unsent rw"
    and "rq_Path r \<noteq> ''/health''" and "\<not> prefix ''/api/v1/auth'' (rq_Path r)"
  shows "status_of (dispatch lb ch (mux_routes lb dec un d deps) r w rw) \<in> {Some 401, Some 404, Some 405}"
proof (cases "ch (map fst (mux_routes lb dec un d deps)) (rq_Method r) (rq_Path r)")
  case (Matched i)
  have i: "i < length (mux_routes lb dec un d deps)"
    "pattern_matches (fst (mux_routes lb dec un d deps ! i)) (rq_Method r) (rq_Path r)"
    using assms(1) Matched unfolding chi_laws_def by (metis length_map, metis length_map nth_map)
  have "\<not> i < length (public_routes lb dec un d deps)"
  proof
    assume "i < length (public_routes lb dec un d deps)"
    then have "mux_routes lb dec un d deps ! i \<in> set (public_routes lb dec un d deps)"
      by (simp add: mux_routes_split nth_append)
    then have "(fst (mux_routes lb dec un d deps ! i), snd (mux_routes lb dec un d deps ! i))
        \<in> set (public_routes lb dec un d deps)" by simp
    from public_patterns [OF this] show False
    proof (elim disjE exE)
      fix name
      assume "fst (mux_routes lb dec un d deps ! i) = Route ''POST'' (''/api/v1/auth'' @ name)"
      with i(2) have "''/api/v1/auth'' @ name = rq_Path r" by simp
      with prefixI [OF sym, OF this] assms(7) show False by simp
    qed (use i(2) assms(6) in auto)
  qed
  moreover from this i(1) have "i - length (public_routes lb dec un d deps) < length (protected_routes lb d deps)"
    by (simp add: mux_routes_split)
  note protected_nth_blind(2) [OF assms(2,3) this assms(4,5), of w]
  moreover have "dispatch lb ch (mux_routes lb dec un d deps) r w rw = snd (mux_routes lb dec un d deps ! i) r w rw"
    by (simp only: dispatch_def Matched chi_match.case)
  ultimately show ?thesis by (simp add: mux_routes_split nth_append)
qed (simp_all add: dispatch_def notFound_def methodNotAllowed_def WriteError_status(1) [OF assms(4,5)])

end
