(* ===== verification/Server.thy ===== *)
theory Server
  imports API
begin

text \<open>
  \<open>internal/server/server.go\<close>: the life of the HTTP server, as a state machine. Its events are what
  the environment and the goroutine around \<open>http.Server.Serve\<close> do (the context ends, the call
  returns) and the steps of \<open>Serve\<close> and \<open>shutdown\<close> themselves: a branch of the \<open>select\<close>, the calls
  of \<open>Shutdown\<close> and \<open>Close\<close> with their results, a receive from the channel. An event that cannot
  happen in a state gives \<open>None\<close>. Once it has been shut down, the library's \<open>Serve\<close> returns
  \<open>ErrServerClosed\<close>.
\<close>

subsection \<open>State\<close>

record Server =
  sv_Addr :: gostring
  sv_ReadTimeout :: duration
  sv_WriteTimeout :: duration
  sv_IdleTimeout :: duration
  sv_ReadHeaderTimeout :: duration
  sv_shutdownTimeout :: duration

datatype serve_error = ErrServerClosed | ServeFailed gostring

datatype server_error =
    ListeningOn gostring gostring
  | HttpServerError serve_error
  | ShutdownExceeded duration gostring

datatype server_phase =
    Selecting
  | ShuttingDown
  | AwaitingAfterClose gostring
  | AwaitingAfterShutdown
  | Finished "server_error option"

datatype server_call = CallShutdown duration "gostring option" | CallClose "gostring option"

text \<open>\<open>serveResult\<close> is a channel with room for one value; \<open>ss_serving\<close>: the goroutine has not sent yet.\<close>

record server_state =
  ss_phase :: server_phase
  ss_serveResult :: "serve_error option option"
  ss_serving :: bool
  ss_ctxDone :: bool
  ss_calls :: "server_call list"
  ss_world :: world

datatype server_event =
    ContextEnds
  | ServeReturns serve_error
  | SelectResult
  | SelectDone
  | ShutdownReturns "gostring option" "gostring option"
  | ReceiveResult

subsection \<open>server.go\<close>

definition New :: "ServerConfig \<Rightarrow> Server" where
  "New cfg =
     \<lparr>sv_Addr = CHR '':'' # show_int (sc_Port cfg),
      sv_ReadTimeout = sc_ReadTimeout cfg,
      sv_WriteTimeout = sc_WriteTimeout cfg,
      sv_IdleTimeout = sc_IdleTimeout cfg,
      sv_ReadHeaderTimeout = sc_ReadTimeout cfg,
      sv_shutdownTimeout = sc_ShutdownTimeout cfg\<rparr>"

text \<open>What the goroutine sends for the error that \<open>http.Server.Serve\<close> returned.\<close>

definition serve_result :: "serve_error \<Rightarrow> serve_error option" where
  "serve_result err = (if err = ErrServerClosed then None else Some err)"

definition Serve_start :: "gostring \<Rightarrow> bool \<Rightarrow> world \<Rightarrow> server_state" where
  "Serve_start addr ctxDone w =
     \<lparr>ss_phase = Selecting, ss_serveResult = None, ss_serving = True, ss_ctxDone = ctxDone, ss_calls = [],
      ss_world = emit LevelInfo ''http server listening'' [(''addr'', AString addr)] w\<rparr>"

text \<open>\<open>Run\<close>: the error of \<open>net.Listen\<close>, or the address that was bound.\<close>

definition Run_start :: "Server \<Rightarrow> (gostring, gostring) result \<Rightarrow> bool \<Rightarrow> world \<Rightarrow> server_state" where
  "Run_start s listen ctxDone w =
     (case listen of
        Inl err \<Rightarrow> \<lparr>ss_phase = Finished (Some (ListeningOn (sv_Addr s) err)), ss_serveResult = None,
                    ss_serving = False, ss_ctxDone = ctxDone, ss_calls = [], ss_world = w\<rparr>
      | Inr addr \<Rightarrow> Serve_start addr ctxDone w)"

definition was_shut_down :: "server_state \<Rightarrow> bool" where
  "was_shut_down st \<longleftrightarrow> ss_calls st \<noteq> []"

text \<open>The goroutine, the context, and the \<open>select\<close> of \<open>Serve\<close>.\<close>

fun serve_step :: "Server \<Rightarrow> server_event \<Rightarrow> server_state \<Rightarrow> server_state option" where
  "serve_step s ContextEnds st = (if ss_ctxDone st then None else Some (st\<lparr>ss_ctxDone := True\<rparr>))"
| "serve_step s (ServeReturns err) st =
     (if ss_serving st \<and> (was_shut_down st \<longrightarrow> err = ErrServerClosed)
      then Some (st\<lparr>ss_serving := False, ss_serveResult := Some (serve_result err)\<rparr>) else None)"
| "serve_step s SelectResult st =
     (case (ss_phase st, ss_serveResult st) of
        (Selecting, Some err) \<Rightarrow>
          Some (st\<lparr>ss_serveResult := None, ss_phase := Finished (map_option HttpServerError err)\<rparr>)
      | _ \<Rightarrow> None)"
| "serve_step s SelectDone st =
     (if ss_phase st = Selecting \<and> ss_ctxDone st
      then Some (st\<lparr>ss_phase := ShuttingDown,
        ss_world := emit LevelInfo ''shutting down http server''
          [(''grace_period'', AInt (sv_shutdownTimeout s))] (ss_world st)\<rparr>)
      else None)"
| "serve_step s _ st = None"

text \<open>\<open>shutdown\<close>: its two calls, and its receive.\<close>

fun shutdown_step :: "Server \<Rightarrow> server_event \<Rightarrow> server_state \<Rightarrow> server_state option" where
  "shutdown_step s (ShutdownReturns err closeErr) st =
     (if ss_phase st \<noteq> ShuttingDown then None
      else case err of
        None \<Rightarrow> Some (st\<lparr>ss_phase := AwaitingAfterShutdown,
          ss_calls := ss_calls st @ [CallShutdown (sv_shutdownTimeout s) None]\<rparr>)
      | Some e \<Rightarrow>
          (let w = emit LevelWarn ''grace period expired, closing connections''
                 [(''grace_period'', AInt (sv_shutdownTimeout s))] (ss_world st);
               w = (case closeErr of None \<Rightarrow> w
                    | Some c \<Rightarrow> emit LevelError ''closing http server'' [(''error'', AString c)] w)
           in Some (st\<lparr>ss_phase := AwaitingAfterClose e,
                ss_calls := ss_calls st @ [CallShutdown (sv_shutdownTimeout s) (Some e), CallClose closeErr],
                ss_world := w\<rparr>)))"
| "shutdown_step s ReceiveResult st =
     (case (ss_phase st, ss_serveResult st) of
        (AwaitingAfterClose e, Some _) \<Rightarrow>
          Some (st\<lparr>ss_serveResult := None, ss_phase := Finished (Some (ShutdownExceeded (sv_shutdownTimeout s) e))\<rparr>)
      | (AwaitingAfterShutdown, Some (Some err)) \<Rightarrow>
          Some (st\<lparr>ss_serveResult := None, ss_phase := Finished (Some (HttpServerError err))\<rparr>)
      | (AwaitingAfterShutdown, Some None) \<Rightarrow>
          Some (st\<lparr>ss_serveResult := None, ss_phase := Finished None,
            ss_world := emit LevelInfo ''http server stopped cleanly'' [] (ss_world st)\<rparr>)
      | _ \<Rightarrow> None)"
| "shutdown_step s _ st = None"

definition server_step :: "Server \<Rightarrow> server_event \<Rightarrow> server_state \<Rightarrow> server_state option" where
  "server_step s ev st =
     (case serve_step s ev st of Some st' \<Rightarrow> Some st' | None \<Rightarrow> shutdown_step s ev st)"

subsection \<open>Reachable states\<close>

inductive server_run :: "Server \<Rightarrow> server_state \<Rightarrow> server_event list \<Rightarrow> server_state \<Rightarrow> bool" for s where
  run_none: "server_run s st [] st"
| run_event: "server_step s ev st = Some st' \<Longrightarrow> server_run s st' evs st'' \<Longrightarrow> server_run s st (ev # evs) st''"

lemma server_stepE:
  assumes "server_step s ev st = Some st'"
  obtains "ev = ContextEnds" "\<not> ss_ctxDone st" "st' = st\<lparr>ss_ctxDone := True\<rparr>"
  | err where "ev = ServeReturns err" "ss_serving st" "was_shut_down st \<longrightarrow> err = ErrServerClosed"
      "st' = st\<lparr>ss_serving := False, ss_serveResult := Some (serve_result err)\<rparr>"
  | err where "ev = SelectResult" "ss_phase st = Selecting" "ss_serveResult st = Some err"
      "st' = st\<lparr>ss_serveResult := None, ss_phase := Finished (map_option HttpServerError err)\<rparr>"
  | w where "ev = SelectDone" "ss_phase st = Selecting" "ss_ctxDone st"
      "st' = st\<lparr>ss_phase := ShuttingDown, ss_world := w\<rparr>"
  | c where "ev = ShutdownReturns None c" "ss_phase st = ShuttingDown"
      "st' = st\<lparr>ss_phase := AwaitingAfterShutdown,
        ss_calls := ss_calls st @ [CallShutdown (sv_shutdownTimeout s) None]\<rparr>"
  | e c w where "ev = ShutdownReturns (Some e) c" "ss_phase st = ShuttingDown"
      "st' = st\<lparr>ss_phase := AwaitingAfterClose e,
        ss_calls := ss_calls st @ [CallShutdown (sv_shutdownTimeout s) (Some e), CallClose c], ss_world := w\<rparr>"
  | e x where "ev = ReceiveResult" "ss_phase st = AwaitingAfterClose e" "ss_serveResult st = Some x"
      "st' = st\<lparr>ss_serveResult := None, ss_phase := Finished (Some (ShutdownExceeded (sv_shutdownTimeout s) e))\<rparr>"
  | x w where "ev = ReceiveResult" "ss_phase st = AwaitingAfterShutdown" "ss_serveResult st = Some x"
      "st' = st\<lparr>ss_serveResult := None, ss_phase := Finished (map_option HttpServerError x), ss_world := w\<rparr>"
proof (cases ev)
  case ContextEnds
  with assms show thesis by (intro that(1)) (auto simp: server_step_def split: if_splits)
next
  case (ServeReturns err)
  with assms show thesis by (intro that(2)) (auto simp: server_step_def split: if_splits)
next
  case SelectResult
  then obtain err where "ss_phase st = Selecting" "ss_serveResult st = Some err"
    using assms by (auto simp: server_step_def split: server_phase.splits option.splits)
  with assms SelectResult show thesis by (intro that(3)) (auto simp: server_step_def)
next
  case SelectDone
  with assms show thesis by (intro that(4)) (auto simp: server_step_def split: if_splits)
next
  case (ShutdownReturns err c)
  then have phase: "ss_phase st = ShuttingDown"
    using assms by (auto simp: server_step_def split: if_splits)
  show thesis
  proof (cases err)
    case None
    with assms ShutdownReturns phase show thesis by (intro that(5)) (auto simp: server_step_def)
  next
    case (Some e)
    with assms ShutdownReturns phase show thesis
      by (intro that(6)) (auto simp: server_step_def Let_def)
  qed
next
  case ReceiveResult
  obtain e x where "(ss_phase st = AwaitingAfterClose e \<or> ss_phase st = AwaitingAfterShutdown) \<and> ss_serveResult st = Some x"
    using assms ReceiveResult by (auto simp: server_step_def split: server_phase.splits option.splits)
  then show thesis
    using assms ReceiveResult that(7) that(8) [of x "ss_world st"] that(8)
    by (cases st; cases x) (auto simp: server_step_def)
qed

text \<open>
  What is true along the way: the result of the goroutine is still to come until it has been
  received; the calls made so far are the ones of the phase; nothing but the end of the context
  starts a shutdown, and only a failed \<open>Shutdown\<close> is followed by \<open>Close\<close>.
\<close>

fun phase_inv :: "duration \<Rightarrow> server_phase \<Rightarrow> bool \<Rightarrow> bool \<Rightarrow> server_call list \<Rightarrow> bool" where
  "phase_inv t Selecting ctx due calls \<longleftrightarrow> due \<and> calls = []"
| "phase_inv t ShuttingDown ctx due calls \<longleftrightarrow> due \<and> ctx \<and> calls = []"
| "phase_inv t (AwaitingAfterClose e) ctx due calls \<longleftrightarrow>
     due \<and> ctx \<and> (\<exists>c. calls = [CallShutdown t (Some e), CallClose c])"
| "phase_inv t AwaitingAfterShutdown ctx due calls \<longleftrightarrow> due \<and> ctx \<and> calls = [CallShutdown t None]"
| "phase_inv t (Finished None) ctx due calls \<longleftrightarrow>
     \<not> due \<and> (calls = [] \<or> ctx \<and> calls = [CallShutdown t None])"
| "phase_inv t (Finished (Some (ListeningOn a e))) ctx due calls \<longleftrightarrow> \<not> due \<and> calls = []"
| "phase_inv t (Finished (Some (HttpServerError e))) ctx due calls \<longleftrightarrow>
     \<not> due \<and> e \<noteq> ErrServerClosed \<and> (calls = [] \<or> ctx \<and> calls = [CallShutdown t None])"
| "phase_inv t (Finished (Some (ShutdownExceeded t' e))) ctx due calls \<longleftrightarrow>
     \<not> due \<and> ctx \<and> t' = t \<and> (\<exists>c. calls = [CallShutdown t (Some e), CallClose c])"

definition result_due :: "server_state \<Rightarrow> bool" where
  "result_due st \<longleftrightarrow> ss_serving st \<or> ss_serveResult st \<noteq> None"

definition server_inv :: "Server \<Rightarrow> server_state \<Rightarrow> bool" where
  "server_inv s st \<longleftrightarrow>
     phase_inv (sv_shutdownTimeout s) (ss_phase st) (ss_ctxDone st) (result_due st) (ss_calls st)
     \<and> (ss_serving st \<longrightarrow> ss_serveResult st = None) \<and> ss_serveResult st \<noteq> Some (Some ErrServerClosed)"

lemma server_inv_start: "server_inv s (Run_start s listen ctxDone w)"
  by (auto simp: Run_start_def Serve_start_def server_inv_def result_due_def split: sum.split)

lemma serve_result_open: "serve_result err \<noteq> Some ErrServerClosed"
  by (simp add: serve_result_def)

lemma server_inv_step:
  assumes "server_inv s st" and "server_step s ev st = Some st'"
  shows "server_inv s st'"
  using assms(2)
proof (cases rule: server_stepE)
  case (1)
  with assms(1) show ?thesis
    by (cases "ss_phase st") (auto simp: server_inv_def result_due_def elim!: phase_inv.elims(2))
next
  case (2 err)
  with assms(1) serve_result_open show ?thesis
    by (auto simp: server_inv_def result_due_def)
next
  case (3 err)
  with assms(1) show ?thesis
    by (cases err) (auto simp: server_inv_def result_due_def)
next
  case (8 x w)
  with assms(1) show ?thesis
    by (cases x) (auto simp: server_inv_def result_due_def)
qed (use assms(1) in \<open>auto simp: server_inv_def result_due_def\<close>)

lemma server_run_inv: "server_run s st evs st' \<Longrightarrow> server_inv s st \<Longrightarrow> server_inv s st'"
  by (induction rule: server_run.induct) (auto intro: server_inv_step)

subsection \<open>Termination\<close>

fun phase_rank :: "server_phase \<Rightarrow> nat" where
  "phase_rank Selecting = 3"
| "phase_rank ShuttingDown = 2"
| "phase_rank (AwaitingAfterClose e) = 1"
| "phase_rank AwaitingAfterShutdown = 1"
| "phase_rank (Finished r) = 0"

definition server_rank :: "server_state \<Rightarrow> nat" where
  "server_rank st = phase_rank (ss_phase st) + (if ss_serving st then 1 else 0) + (if ss_ctxDone st then 0 else 1)"

lemma server_step_rank: "server_step s ev st = Some st' \<Longrightarrow> server_rank st' < server_rank st"
  by (erule server_stepE) (simp_all add: server_rank_def)

lemma server_run_length: "server_run s st evs st' \<Longrightarrow> length evs + server_rank st' \<le> server_rank st"
proof (induction rule: server_run.induct)
  case (run_event ev st st' evs st'')
  with server_step_rank [of s ev st st'] show ?case by simp
qed simp

text \<open>Once the context has ended, a server that has not finished can go on.\<close>

lemma server_progress:
  assumes "server_inv s st" and "ss_ctxDone st" and "\<nexists>r. ss_phase st = Finished r"
  shows "\<exists>ev st'. server_step s ev st = Some st'"
proof (cases "ss_phase st")
  case Selecting
  then have "server_step s SelectDone st \<noteq> None" using assms(2) by (simp add: server_step_def)
  then show ?thesis by blast
next
  case ShuttingDown
  then have "server_step s (ShutdownReturns None None) st \<noteq> None" by (simp add: server_step_def)
  then show ?thesis by blast
next
  case (AwaitingAfterClose e)
  with assms(1) have "ss_serving st \<or> (\<exists>x. ss_serveResult st = Some x)"
    by (auto simp: server_inv_def result_due_def)
  then have "server_step s (ServeReturns ErrServerClosed) st \<noteq> None \<or> server_step s ReceiveResult st \<noteq> None"
    using AwaitingAfterClose by (auto simp: server_step_def)
  then show ?thesis by blast
next
  case AwaitingAfterShutdown
  with assms(1) have "ss_serving st \<or> (\<exists>x. ss_serveResult st = Some x)"
    by (auto simp: server_inv_def result_due_def)
  then have "server_step s (ServeReturns ErrServerClosed) st \<noteq> None \<or> server_step s ReceiveResult st \<noteq> None"
    using AwaitingAfterShutdown by (auto simp: server_step_def split: option.split)
  then show ?thesis by blast
qed (use assms(3) in simp)

text \<open>So every run that cannot go on after the context has ended has finished.\<close>

lemma server_stops:
  assumes "server_run s (Run_start s listen c w) evs st" and "ss_ctxDone st" and "\<forall>ev. server_step s ev st = None"
  shows "\<exists>r. ss_phase st = Finished r"
  using server_progress [OF server_run_inv [OF assms(1) server_inv_start] assms(2)] assms(3) by auto

end
