(* ===== verification/Startup_Services.thy ===== *)
theory Startup_Services
  imports Config
begin

text \<open>
  Connecting to the two services: \<open>internal/queue/redis.go\<close> and \<open>internal/db/postgres.go\<close>, whose
  \<open>waitForReady\<close> loops have the same shape, and \<open>internal/db/embedding.go\<close>. The clients are
  parameters: the outcome of each ping, and how long it takes, is a function of the attempt and of
  the time; so is the branch that a \<open>select\<close> with two ready channels takes.
\<close>

definition readyRetryInterval :: duration where
  "readyRetryInterval = 500 * millisecond"

text \<open>The outcome of a ping: its error, if any, and the time it took in nanoseconds.\<close>

type_synonym ping = "nat \<Rightarrow> time \<Rightarrow> gostring option \<times> nat"

datatype ready_event = BecameReady nat | NotReadyRetrying nat gostring

record ready_outcome =
  ro_Error :: "(nat \<times> gostring) option"
  ro_Attempts :: nat
  ro_End :: time
  ro_Log :: "ready_event list"

lemma retry_positive: "0 < readyRetryInterval"
  by (simp add: readyRetryInterval_def millisecond_def)

text \<open>
  The \<open>select\<close> at time \<open>t\<close> between the end of the context, at \<open>finish\<close>, and the retry timer;
  \<open>timer_first\<close> settles a tie.
\<close>

definition context_first :: "time \<Rightarrow> (nat \<Rightarrow> bool) \<Rightarrow> nat \<Rightarrow> time \<Rightarrow> bool" where
  "context_first finish timer_first attempt t \<longleftrightarrow>
     finish \<le> t \<or> finish < t + readyRetryInterval
     \<or> finish = t + readyRetryInterval \<and> \<not> timer_first attempt"

function ready_loop ::
  "ping \<Rightarrow> time \<Rightarrow> (nat \<Rightarrow> bool) \<Rightarrow> nat \<Rightarrow> time \<Rightarrow> ready_event list \<Rightarrow> ready_outcome" where
  "ready_loop ping finish timer_first attempt now lg =
     (let (err, took) = ping attempt now; t = now + int took
      in case err of
           None \<Rightarrow> \<lparr>ro_Error = None, ro_Attempts = attempt, ro_End = t,
                    ro_Log = lg @ (if attempt > 1 then [BecameReady attempt] else [])\<rparr>
         | Some e \<Rightarrow>
             if context_first finish timer_first attempt t
             then \<lparr>ro_Error = Some (attempt, e), ro_Attempts = attempt, ro_End = max t finish, ro_Log = lg\<rparr>
             else ready_loop ping finish timer_first (attempt + 1) (t + readyRetryInterval)
                    (lg @ [NotReadyRetrying attempt e]))"
  by pat_completeness auto

termination
  by (relation "measure (\<lambda>(ping, finish, _, _, now, _). nat (finish - now))")
    (use retry_positive in \<open>auto simp: context_first_def\<close>)

declare ready_loop.simps [simp del]

definition waitForReady ::
  "ping \<Rightarrow> time option \<Rightarrow> (nat \<Rightarrow> bool) \<Rightarrow> duration \<Rightarrow> time \<Rightarrow> ready_outcome" where
  "waitForReady ping cancelled timer_first timeout now =
     (let finish = (case cancelled of None \<Rightarrow> now + timeout | Some c \<Rightarrow> min c (now + timeout))
      in ready_loop ping finish timer_first 1 now [])"

subsection \<open>The bound on the attempts\<close>

lemma ready_loop_cases:
  obtains (answered) took where "ping attempt now = (None, took)"
      "ready_loop ping finish tf attempt now lg =
         \<lparr>ro_Error = None, ro_Attempts = attempt, ro_End = now + int took,
          ro_Log = lg @ (if attempt > 1 then [BecameReady attempt] else [])\<rparr>"
  | (gave_up) e took where "ping attempt now = (Some e, took)"
      "ready_loop ping finish tf attempt now lg =
         \<lparr>ro_Error = Some (attempt, e), ro_Attempts = attempt, ro_End = max (now + int took) finish, ro_Log = lg\<rparr>"
  | (again) e took where "ping attempt now = (Some e, took)"
      "\<not> context_first finish tf attempt (now + int took)"
      "ready_loop ping finish tf attempt now lg =
         ready_loop ping finish tf (attempt + 1) (now + int took + readyRetryInterval)
           (lg @ [NotReadyRetrying attempt e])"
proof -
  obtain err took where p: "ping attempt now = (err, took)" by fastforce
  note step = ready_loop.simps [of ping finish tf attempt now lg, unfolded p Let_def prod.case]
  show thesis
  proof (cases err)
    case None
    with p step show thesis by (intro answered) simp_all
  next
    case (Some e)
    with p step show thesis
      by (cases "context_first finish tf attempt (now + int took)")
        (rule gave_up, simp_all, rule again, simp_all)
  qed
qed

text \<open>Retries are half a second apart and never start after the context has ended.\<close>

lemma ready_loop_attempts:
  assumes "now \<le> finish"
  shows "attempt \<le> ro_Attempts (ready_loop ping finish tf attempt now lg)
     \<and> int (ro_Attempts (ready_loop ping finish tf attempt now lg) - attempt) * readyRetryInterval \<le> finish - now"
  using assms
proof (induction "nat (finish - now)" arbitrary: attempt now lg rule: less_induct)
  case less
  show ?case
  proof (cases rule: ready_loop_cases [of ping attempt now finish tf lg])
    case (again e took)
    let ?now = "now + int took + readyRetryInterval"
    let ?r = "ready_loop ping finish tf (attempt + 1) ?now (lg @ [NotReadyRetrying attempt e])"
    have "?now \<le> finish" using again(2) by (auto simp: context_first_def)
    moreover have "nat (finish - ?now) < nat (finish - now)"
      using retry_positive less.prems \<open>?now \<le> finish\<close> by simp
    ultimately have IH: "attempt + 1 \<le> ro_Attempts ?r"
      "int (ro_Attempts ?r - (attempt + 1)) * readyRetryInterval \<le> finish - ?now"
      using less.hyps by blast+
    have "int (ro_Attempts ?r - attempt) = int (ro_Attempts ?r - (attempt + 1)) + 1"
      using IH(1) by simp
    then have "int (ro_Attempts ?r - attempt) * readyRetryInterval =
        int (ro_Attempts ?r - (attempt + 1)) * readyRetryInterval + readyRetryInterval"
      by (simp only: distrib_right mult_1)
    also have "\<dots> \<le> finish - now" using IH(2) by linarith
    finally show ?thesis using IH(1) by (simp only: again(3)) simp
  qed (use less.prems in simp_all)
qed

text \<open>When attempt \<open>n\<close> is made: half a second after the end of the one before.\<close>

fun attempt_start :: "ping \<Rightarrow> time \<Rightarrow> nat \<Rightarrow> time" where
  "attempt_start ping now (Suc (Suc k)) =
     (let t = attempt_start ping now (Suc k) in t + int (snd (ping (Suc k) t)) + readyRetryInterval)"
| "attempt_start ping now _ = now"

lemma attempt_start_next:
  "1 \<le> k \<Longrightarrow> attempt_start ping now (k + 1) =
     attempt_start ping now k + int (snd (ping k (attempt_start ping now k))) + readyRetryInterval"
  by (cases k) (simp_all add: Let_def)

text \<open>
  The loop ends with the first attempt that is answered, or with one that is not when the context is
  over; all before it have failed, and no retry is made after the end of the context.
\<close>

definition attempts_made :: "ping \<Rightarrow> time \<Rightarrow> time \<Rightarrow> nat \<Rightarrow> ready_outcome \<Rightarrow> bool" where
  "attempts_made ping t0 finish first out \<longleftrightarrow>
     (let n = ro_Attempts out; err = fst (ping n (attempt_start ping t0 n))
      in first \<le> n
         \<and> (\<forall>k. first \<le> k \<and> k < n \<longrightarrow>
              fst (ping k (attempt_start ping t0 k)) \<noteq> None \<and> attempt_start ping t0 (k + 1) \<le> finish)
         \<and> ro_Error out = map_option (Pair n) err
         \<and> (err = None \<longrightarrow> ro_End out = attempt_start ping t0 n + int (snd (ping n (attempt_start ping t0 n))))
         \<and> (err \<noteq> None \<longrightarrow> finish \<le> ro_End out))"

lemma attempts_made_more:
  assumes "attempts_made ping t0 finish (first + 1) out"
    and "fst (ping first (attempt_start ping t0 first)) \<noteq> None" "attempt_start ping t0 (first + 1) \<le> finish"
  shows "attempts_made ping t0 finish first out"
proof -
  have "fst (ping k (attempt_start ping t0 k)) \<noteq> None \<and> attempt_start ping t0 (k + 1) \<le> finish"
    if "first \<le> k" "k < ro_Attempts out" for k
    using assms that by (cases "k = first") (simp_all add: attempts_made_def Let_def)
  with assms(1) show ?thesis by (simp add: attempts_made_def Let_def)
qed

lemma ready_loop_outcome:
  assumes "1 \<le> attempt" and "now = attempt_start ping t0 attempt"
  shows "attempts_made ping t0 finish attempt (ready_loop ping finish tf attempt now lg)"
  using assms
proof (induction ping finish tf attempt now lg rule: ready_loop.induct)
  case (1 ping finish tf attempt now lg)
  show ?case
  proof (cases rule: ready_loop_cases [of ping attempt now finish tf lg])
    case (answered took)
    with 1(3) show ?thesis by (auto simp: attempts_made_def Let_def)
  next
    case (gave_up e took)
    with 1(3) show ?thesis by (auto simp: attempts_made_def Let_def)
  next
    case (again e took)
    have start: "now + int took + readyRetryInterval = attempt_start ping t0 (attempt + 1)"
      using attempt_start_next [OF 1(2), of ping t0] again(1) 1(3) by simp
    have made: "attempts_made ping t0 finish (attempt + 1) (ready_loop ping finish tf attempt now lg)"
      unfolding again(3) by (rule 1(1) [OF refl again(1) [symmetric] refl refl again(2) _ start]) simp
    have failed: "fst (ping attempt (attempt_start ping t0 attempt)) \<noteq> None"
      unfolding 1(3) [symmetric] again(1) by simp
    have "attempt_start ping t0 (attempt + 1) \<le> finish"
      using again(2) start by (auto simp: context_first_def)
    with made failed show ?thesis by (rule attempts_made_more)
  qed
qed

definition ready_deadline :: "time option \<Rightarrow> duration \<Rightarrow> time \<Rightarrow> time" where
  "ready_deadline cancelled timeout now =
     (case cancelled of None \<Rightarrow> now + timeout | Some c \<Rightarrow> min c (now + timeout))"

lemma waitForReady_outcome:
  "attempts_made ping now (ready_deadline cancelled timeout now) 1 (waitForReady ping cancelled tf timeout now)"
  unfolding waitForReady_def ready_deadline_def Let_def by (rule ready_loop_outcome) simp_all

text \<open>A wait that has ended well: its last attempt was answered.\<close>

definition answered_wait :: "ping \<Rightarrow> time \<Rightarrow> ready_outcome \<Rightarrow> bool" where
  "answered_wait ping now out \<longleftrightarrow>
     ro_Error out = None \<and> fst (ping (ro_Attempts out) (attempt_start ping now (ro_Attempts out))) = None"

lemma waitForReady_answered:
  "ro_Error (waitForReady ping cancelled tf timeout now) = None \<Longrightarrow>
     answered_wait ping now (waitForReady ping cancelled tf timeout now)"
  using waitForReady_outcome [of ping now cancelled timeout tf]
  by (simp add: answered_wait_def attempts_made_def Let_def)

lemma waitForReady_attempts:
  assumes "0 \<le> timeout" and "\<forall>c. cancelled = Some c \<longrightarrow> now \<le> c"
  shows "int (ro_Attempts (waitForReady ping cancelled tf timeout now)) \<le> timeout div readyRetryInterval + 1"
proof -
  define finish where "finish = (case cancelled of None \<Rightarrow> now + timeout | Some c \<Rightarrow> min c (now + timeout))"
  have f: "now \<le> finish" "finish - now \<le> timeout"
    using assms by (auto simp: finish_def split: option.splits)
  let ?r = "ready_loop ping finish tf 1 now []"
  from ready_loop_attempts [OF f(1), of 1 ping tf "[]"] f(2)
  have r: "1 \<le> ro_Attempts ?r" "int (ro_Attempts ?r - 1) * readyRetryInterval \<le> timeout"
    by auto
  from r(2) have "int (ro_Attempts ?r - 1) * readyRetryInterval div readyRetryInterval \<le> timeout div readyRetryInterval"
    using retry_positive by (intro zdiv_mono1)
  with r(1) retry_positive show ?thesis
    by (simp add: waitForReady_def finish_def)
qed

subsection \<open>queue/redis.go: Connect\<close>

datatype redis_connect_error = ErrInvalidRedisURL | RedisNotReachable duration nat gostring

text \<open>What happened to the client, in order.\<close>

datatype client_event = ClientOpened | ClientClosed | ClientConnected

definition queue_Connect ::
  "(gostring \<Rightarrow> 'opts option) \<Rightarrow> ping \<Rightarrow> time option \<Rightarrow> (nat \<Rightarrow> bool) \<Rightarrow> RedisConfig \<Rightarrow> time
    \<Rightarrow> (redis_connect_error, 'opts) result \<times> client_event list" where
  "queue_Connect ParseURL ping cancelled timer_first cfg now =
     (case ParseURL (rc_URL cfg) of
        None \<Rightarrow> (Inl ErrInvalidRedisURL, [])
      | Some opts \<Rightarrow>
          (case ro_Error (waitForReady ping cancelled timer_first (rc_ConnectTimeout cfg) now) of
             Some (attempt, err) \<Rightarrow>
               (Inl (RedisNotReachable (rc_ConnectTimeout cfg) attempt err), [ClientOpened, ClientClosed])
           | None \<Rightarrow> (Inr opts, [ClientOpened, ClientConnected])))"

definition queue_Ping :: "gostring option \<Rightarrow> gostring option" where
  "queue_Ping outcome = map_option (\<lambda>err. ''pinging redis: '' @ err) outcome"

subsection \<open>db/postgres.go: poolConfig and Connect\<close>

record pool_config =
  pc_MaxConns :: "32 word"
  pc_MinConns :: "32 word"
  pc_MaxConnLifetime :: duration
  pc_MaxConnIdleTime :: duration
  pc_HealthCheckPeriod :: duration
  pc_ConnectTimeout :: duration
  pc_RuntimeParams :: "(gostring \<rightharpoonup> gostring) option"

definition applicationName :: gostring where "applicationName = ''flowcast-backend''"
definition healthCheckPeriod :: duration where "healthCheckPeriod = minute"
definition maxPoolSize :: int where "maxPoolSize = 1000"

datatype pool_error =
    InvalidConnectionString
  | MaxConnsOutOfRange int
  | MinConnsOutOfRange int int
  | CreatingPool gostring
  | DatabaseNotReachable duration nat gostring

definition poolConfig ::
  "(gostring \<Rightarrow> pool_config option) \<Rightarrow> DatabaseConfig \<Rightarrow> (pool_error, pool_config) result" where
  "poolConfig ParseConfig cfg =
     (case ParseConfig (dc_URL cfg) of
        None \<Rightarrow> Inl InvalidConnectionString
      | Some p \<Rightarrow>
          if dc_MaxConns cfg < 1 \<or> dc_MaxConns cfg > maxPoolSize then Inl (MaxConnsOutOfRange (dc_MaxConns cfg))
          else if dc_MinConns cfg < 0 \<or> dc_MinConns cfg > dc_MaxConns cfg
            then Inl (MinConnsOutOfRange (dc_MaxConns cfg) (dc_MinConns cfg))
          else
            let params = (case pc_RuntimeParams p of None \<Rightarrow> Map.empty | Some m \<Rightarrow> m)
            in Inr (p\<lparr>pc_MaxConns := word_of_int (dc_MaxConns cfg),
                      pc_MinConns := word_of_int (dc_MinConns cfg),
                      pc_MaxConnLifetime := dc_MaxConnLifetime cfg,
                      pc_MaxConnIdleTime := dc_MaxConnIdleTime cfg,
                      pc_HealthCheckPeriod := healthCheckPeriod,
                      pc_ConnectTimeout := dc_ConnectTimeout cfg,
                      pc_RuntimeParams := Some (params(''application_name'' \<mapsto> applicationName,
                                                       ''timezone'' \<mapsto> ''UTC''))\<rparr>))"

definition db_Connect ::
  "(gostring \<Rightarrow> pool_config option) \<Rightarrow> (pool_config \<Rightarrow> gostring option) \<Rightarrow> ping \<Rightarrow> time option
    \<Rightarrow> (nat \<Rightarrow> bool) \<Rightarrow> DatabaseConfig \<Rightarrow> time \<Rightarrow> (pool_error, pool_config) result \<times> client_event list" where
  "db_Connect ParseConfig NewWithConfig ping cancelled timer_first cfg now =
     (case poolConfig ParseConfig cfg of
        Inl e \<Rightarrow> (Inl e, [])
      | Inr p \<Rightarrow>
          (case NewWithConfig p of
             Some e \<Rightarrow> (Inl (CreatingPool e), [])
           | None \<Rightarrow>
               (case ro_Error (waitForReady ping cancelled timer_first (dc_ConnectTimeout cfg) now) of
                  Some (attempt, err) \<Rightarrow>
                    (Inl (DatabaseNotReachable (dc_ConnectTimeout cfg) attempt err), [ClientOpened, ClientClosed])
                | None \<Rightarrow> (Inr p, [ClientOpened, ClientConnected]))))"

lemma sint_word_of_int_small:
  "- (2 ^ 31) \<le> i \<Longrightarrow> i < 2 ^ 31 \<Longrightarrow> sint (word_of_int i :: 32 word) = i"
  by (simp add: sint_sbintrunc' signed_take_bit_int_eq_self)

lemma sint_small: "0 \<le> i \<Longrightarrow> i \<le> 1000 \<Longrightarrow> sint (word_of_int i :: 32 word) = i"
  by (rule sint_word_of_int_small) simp_all

lemma poolConfig_Inr:
  assumes "poolConfig ParseConfig cfg = Inr p"
  shows "sint (pc_MaxConns p) = dc_MaxConns cfg" "sint (pc_MinConns p) = dc_MinConns cfg"
    "1 \<le> dc_MaxConns cfg" "dc_MaxConns cfg \<le> 1000" "0 \<le> dc_MinConns cfg" "dc_MinConns cfg \<le> dc_MaxConns cfg"
    "\<exists>m. pc_RuntimeParams p = Some m \<and> m ''timezone'' = Some ''UTC''"
  using assms by (auto simp: poolConfig_def Let_def maxPoolSize_def sint_small split: option.splits if_splits)

lemma poolConfig_of_valid:
  assumes "database_ok cfg" and "ParseConfig (dc_URL cfg) \<noteq> None"
  shows "\<exists>p. poolConfig ParseConfig cfg = Inr p"
  using assms by (auto simp: poolConfig_def database_ok_def maxPoolSize_def Let_def)

lemma db_Connect_events:
  "db_Connect pc nw ping c tf cfg now = (res, events) \<Longrightarrow>
     (case res of Inr _ \<Rightarrow> events = [ClientOpened, ClientConnected]
                | Inl _ \<Rightarrow> events = [] \<or> events = [ClientOpened, ClientClosed])"
  by (auto simp: db_Connect_def split: sum.splits option.splits prod.splits)

lemma queue_Connect_events:
  "queue_Connect pu ping c tf cfg now = (res, events) \<Longrightarrow>
     (case res of Inr _ \<Rightarrow> events = [ClientOpened, ClientConnected]
                | Inl _ \<Rightarrow> events = [] \<or> events = [ClientOpened, ClientClosed])"
  by (auto simp: queue_Connect_def split: sum.splits option.splits prod.splits)

lemma connected_answered:
  "db_Connect pc nw ping c tf dcfg now = (Inr pool, evs) \<Longrightarrow>
     answered_wait ping now (waitForReady ping c tf (dc_ConnectTimeout dcfg) now)"
  "queue_Connect pu ping c tf rcfg now = (Inr opts, evs) \<Longrightarrow>
     answered_wait ping now (waitForReady ping c tf (rc_ConnectTimeout rcfg) now)"
  by (rule waitForReady_answered, auto simp: db_Connect_def queue_Connect_def split: sum.splits option.splits prod.splits)+

subsection \<open>db/embedding.go\<close>

datatype query_outcome = QueryRow int | QueryNoRows | QueryPgError gostring gostring | QueryError gostring

datatype embedding_error =
    ErrEmbeddingDimensionMismatch int int
  | EmbeddingNotFound
  | ReadingColumnWidth gostring

definition undefined_table :: gostring where "undefined_table = ''42P01''"

definition VerifyEmbeddingDimensions :: "query_outcome \<Rightarrow> int \<Rightarrow> embedding_error option" where
  "VerifyEmbeddingDimensions outcome want =
     (case outcome of
        QueryNoRows \<Rightarrow> Some EmbeddingNotFound
      | QueryPgError code text \<Rightarrow>
          if code = undefined_table then Some EmbeddingNotFound else Some (ReadingColumnWidth text)
      | QueryError text \<Rightarrow> Some (ReadingColumnWidth text)
      | QueryRow got \<Rightarrow> if got \<noteq> want then Some (ErrEmbeddingDimensionMismatch got want) else None)"

lemma VerifyEmbeddingDimensions_None:
  "VerifyEmbeddingDimensions outcome want = None \<longleftrightarrow> outcome = QueryRow want"
  by (cases outcome) (auto simp: VerifyEmbeddingDimensions_def)

end
