(* ===== verification/DB_Migrate.thy ===== *)
theory DB_Migrate
  imports GoTime
begin

text \<open>
  \<open>internal/db/migrate.go\<close>: loading the migration files and applying the ones that are not
  recorded yet, each in a transaction of its own, under an advisory lock.

  The database is the schema that the migrations build (of any type, changed by a parameter
  \<open>exec\<close> that runs one file) together with the rows of \<open>schema_migrations\<close>. Every statement can
  fail: \<open>fault\<close> gives the error of the statement at each call site. \<open>SHA-256\<close> is a parameter.
\<close>

subsection \<open>Loading the files\<close>

record Migration =
  mig_Version :: gostring
  mig_Filename :: gostring
  mig_Checksum :: gostring
  mig_SQL :: gostring

record AppliedMigration =
  am_Version :: gostring
  am_Filename :: gostring
  am_Duration :: int

datatype migrate_error =
    BadName gostring
  | DuplicateVersion gostring gostring gostring
  | ReadingMigration gostring gostring
  | AcquiringConnection gostring
  | AcquiringLock gostring
  | CreatingTable gostring
  | ReadingApplied gostring
  | ErrChecksumMismatch gostring
  | StartingTransaction gostring gostring
  | ApplyingMigration gostring gostring
  | RecordingMigration gostring gostring
  | CommittingMigration gostring gostring

text \<open>\<open>^(\d{4})_[a-z0-9_]+\.sql$\<close>; the result is the first group.\<close>

definition name_char :: "char \<Rightarrow> bool" where
  "name_char c \<longleftrightarrow> (97 \<le> byte_of c \<and> byte_of c \<le> 122) \<or> is_digit c \<or> c = CHR ''_''"

definition migrationFilePattern :: "gostring \<Rightarrow> gostring option" where
  "migrationFilePattern name =
     (let version = take 4 name; rest = drop 4 name; body = take (length rest - 5) (drop 1 rest)
      in if length version = 4 \<and> list_all is_digit version \<and> take 1 rest = ''_''
            \<and> length rest \<ge> 6 \<and> list_all name_char body \<and> drop (length rest - 4) rest = ''.sql''
         then Some version else None)"

type_synonym fsys = "(gostring \<times> (gostring, gostring) result) list"

definition Glob_sql :: "fsys \<Rightarrow> gostring list" where
  "Glob_sql fs = filter (\<lambda>n. length n \<ge> 4 \<and> drop (length n - 4) n = ''.sql'') (map fst fs)"

definition ReadFile :: "fsys \<Rightarrow> gostring \<Rightarrow> (gostring, gostring) result" where
  "ReadFile fs name = (case map_of fs name of Some r \<Rightarrow> r | None \<Rightarrow> Inl ''file does not exist'')"

text \<open>The loop over the sorted names; \<open>seen\<close> maps a version to the file that has it.\<close>

fun load_loop ::
  "(gostring \<Rightarrow> gostring) \<Rightarrow> fsys \<Rightarrow> (gostring \<Rightarrow> gostring option) \<Rightarrow> gostring list
    \<Rightarrow> (migrate_error, Migration list) result" where
  "load_loop sha256_hex fs seen [] = Inr []"
| "load_loop sha256_hex fs seen (name # names) =
     (case migrationFilePattern name of
        None \<Rightarrow> Inl (BadName name)
      | Some version \<Rightarrow>
          (case seen version of
             Some other \<Rightarrow> Inl (DuplicateVersion version other name)
           | None \<Rightarrow>
               (case ReadFile fs name of
                  Inl e \<Rightarrow> Inl (ReadingMigration name e)
                | Inr content \<Rightarrow>
                    rbind (load_loop sha256_hex fs (seen(version \<mapsto> name)) names) (\<lambda>ms.
                      Inr (\<lparr>mig_Version = version, mig_Filename = name, mig_Checksum = sha256_hex content,
                            mig_SQL = content\<rparr> # ms)))))"

definition loadMigrations :: "(gostring \<Rightarrow> gostring) \<Rightarrow> fsys \<Rightarrow> (migrate_error, Migration list) result" where
  "loadMigrations sha256_hex fs = load_loop sha256_hex fs (\<lambda>_. None) (sort (Glob_sql fs))"

lemma load_loop_ConsE:
  assumes "load_loop sha fs seen (name # names) = Inr ms"
  obtains version content ms' where "migrationFilePattern name = Some version" "seen version = None"
    "ReadFile fs name = Inr content" "load_loop sha fs (seen(version \<mapsto> name)) names = Inr ms'"
    "ms = \<lparr>mig_Version = version, mig_Filename = name, mig_Checksum = sha content, mig_SQL = content\<rparr> # ms'"
  using assms by (auto split: option.splits sum.splits simp: rbind_Inr_iff)

definition loaded_from :: "(gostring \<Rightarrow> gostring) \<Rightarrow> fsys \<Rightarrow> Migration \<Rightarrow> bool" where
  "loaded_from sha fs m \<longleftrightarrow> migrationFilePattern (mig_Filename m) = Some (mig_Version m)
     \<and> ReadFile fs (mig_Filename m) = Inr (mig_SQL m) \<and> mig_Checksum m = sha (mig_SQL m)"

lemma load_loop_all:
  "load_loop sha fs seen names = Inr ms \<Longrightarrow>
     map mig_Filename ms = names \<and> distinct (map mig_Version ms)
     \<and> (\<forall>m \<in> set ms. loaded_from sha fs m \<and> seen (mig_Version m) = None)"
proof (induction names arbitrary: seen ms)
  case (Cons name names)
  from Cons.prems obtain version content ms' where
    step: "migrationFilePattern name = Some version" "seen version = None" "ReadFile fs name = Inr content"
      "load_loop sha fs (seen(version \<mapsto> name)) names = Inr ms'"
    and ms: "ms = \<lparr>mig_Version = version, mig_Filename = name, mig_Checksum = sha content, mig_SQL = content\<rparr> # ms'"
    by (rule load_loop_ConsE)
  from Cons.IH [OF step(4)] have IH: "map mig_Filename ms' = names" "distinct (map mig_Version ms')"
    "\<And>m. m \<in> set ms' \<Longrightarrow> loaded_from sha fs m" 
    "\<And>m. m \<in> set ms' \<Longrightarrow> mig_Version m \<noteq> version \<and> seen (mig_Version m) = None"
    by (auto split: if_splits)
  with step show ?case by (auto simp: ms loaded_from_def)
qed simp

lemmas load_loop_facts = load_loop_all [THEN conjunct1] load_loop_all [THEN conjunct2, THEN conjunct2]
  load_loop_all [THEN conjunct2, THEN conjunct1]

lemma pattern_version: "migrationFilePattern name = Some v \<Longrightarrow> v = take 4 name \<and> length v = 4"
  by (auto simp: migrationFilePattern_def Let_def split: if_splits)

lemma take_mono_lex: "(xs :: gostring) \<le> ys \<Longrightarrow> take n xs \<le> take n ys"
proof (induction n arbitrary: xs ys)
  case (Suc n)
  then show ?case by (cases xs; cases ys) auto
qed simp

lemma loadMigrations_sorted:
  assumes "loadMigrations sha fs = Inr ms"
  shows "sorted_wrt (\<lambda>a b. mig_Version a < mig_Version b) ms"
    and "map mig_Filename ms = sort (Glob_sql fs)"
proof -
  note facts = load_loop_facts [OF assms [unfolded loadMigrations_def]]
  show names: "map mig_Filename ms = sort (Glob_sql fs)" by (rule facts(1))
  then have "sorted (map mig_Filename ms)" by simp
  then have "sorted_wrt (\<lambda>a b. mig_Filename a \<le> mig_Filename b) ms"
    by (simp add: sorted_map)
  moreover have "mig_Version a = take 4 (mig_Filename a)" if "a \<in> set ms" for a
    using facts(2) that pattern_version by (auto simp: loaded_from_def)
  ultimately have "sorted_wrt (\<lambda>a b. mig_Version a \<le> mig_Version b) ms"
    by (auto intro: sorted_wrt_mono_rel [rotated] simp: take_mono_lex)
  then have "sorted (map mig_Version ms)" by (simp add: sorted_map)
  with facts(3) have "sorted_wrt (<) (map mig_Version ms)"
    by (simp add: strict_sorted_iff)
  then show "sorted_wrt (\<lambda>a b. mig_Version a < mig_Version b) ms"
    by (simp add: sorted_wrt_map)
qed

subsection \<open>Applying them\<close>

record row =
  row_version :: gostring
  row_filename :: gostring
  row_checksum :: gostring

record 'd database =
  db_schema :: 'd
  db_rows :: "row list option"
  db_locked :: bool

text \<open>The statements that can fail for reasons of their own, by call site.\<close>

datatype site =
    SAcquire | SLock | SUnlock | SEnsure | SRead | SBegin gostring | SRecord gostring | SCommit gostring

text \<open>
  What the run meets: the error of each site, the time each file takes, and whether a commit whose
  acknowledgement is lost was carried out all the same.
\<close>

record 'd run_env =
  re_exec :: "gostring \<Rightarrow> 'd \<Rightarrow> (gostring, 'd) result"
  re_fault :: "site \<Rightarrow> gostring option"
  re_took :: "gostring \<Rightarrow> duration"
  re_kept :: "gostring \<Rightarrow> bool"

definition row_of :: "Migration \<Rightarrow> row" where
  "row_of m = \<lparr>row_version = mig_Version m, row_filename = mig_Filename m, row_checksum = mig_Checksum m\<rparr>"

definition table_rows :: "'d database \<Rightarrow> row list" where
  "table_rows db = (case db_rows db of None \<Rightarrow> [] | Some rs \<Rightarrow> rs)"

definition ensureMigrationsTable :: "'d run_env \<Rightarrow> 'd database \<Rightarrow> migrate_error option \<times> 'd database" where
  "ensureMigrationsTable env db =
     (case re_fault env SEnsure of
        Some e \<Rightarrow> (Some (CreatingTable e), db)
      | None \<Rightarrow> (None, db\<lparr>db_rows := Some (table_rows db)\<rparr>))"

definition appliedChecksums :: "'d run_env \<Rightarrow> 'd database \<Rightarrow> (migrate_error, gostring \<Rightarrow> gostring option) result" where
  "appliedChecksums env db =
     (case re_fault env SRead of
        Some e \<Rightarrow> Inl (ReadingApplied e)
      | None \<Rightarrow>
          Inr (foldl (\<lambda>m r. m(row_version r \<mapsto> row_checksum r)) (\<lambda>_. None) (table_rows db)))"

text \<open>The \<open>INSERT\<close>: the version is the primary key, and the duration an \<open>integer\<close> column.\<close>

definition insert_row :: "'d run_env \<Rightarrow> Migration \<Rightarrow> 'd database \<Rightarrow> (gostring, 'd database) result" where
  "insert_row env m db =
     (case re_fault env (SRecord (mig_Version m)) of
        Some e \<Rightarrow> Inl e
      | None \<Rightarrow>
          if mig_Version m \<in> row_version ` set (table_rows db) then Inl ''duplicate key value''
          else if Milliseconds (re_took env (mig_Version m)) < - 2147483648
                  \<or> 2147483647 < Milliseconds (re_took env (mig_Version m)) then Inl ''integer out of range''
          else Inr (db\<lparr>db_rows := Some (table_rows db @ [row_of m])\<rparr>))"

definition applyMigration ::
  "'d run_env \<Rightarrow> Migration \<Rightarrow> 'd database \<Rightarrow> (migrate_error, duration) result \<times> 'd database" where
  "applyMigration env m db =
     (case re_fault env (SBegin (mig_Version m)) of
        Some e \<Rightarrow> (Inl (StartingTransaction (mig_Filename m) e), db)
      | None \<Rightarrow>
          (case re_exec env (mig_SQL m) (db_schema db) of
             Inl e \<Rightarrow> (Inl (ApplyingMigration (mig_Filename m) e), db)
           | Inr schema \<Rightarrow>
               (case insert_row env m (db\<lparr>db_schema := schema\<rparr>) of
                  Inl e \<Rightarrow> (Inl (RecordingMigration (mig_Filename m) e), db)
                | Inr db' \<Rightarrow>
                    (case re_fault env (SCommit (mig_Version m)) of
                       Some e \<Rightarrow> (Inl (CommittingMigration (mig_Filename m) e),
                                  if re_kept env (mig_Version m) then db' else db)
                     | None \<Rightarrow> (Inr (re_took env (mig_Version m)), db')))))"

fun migrate_loop ::
  "'d run_env \<Rightarrow> (gostring \<Rightarrow> gostring option) \<Rightarrow> Migration list \<Rightarrow> AppliedMigration list \<Rightarrow> 'd database
    \<Rightarrow> (migrate_error, AppliedMigration list) result \<times> 'd database" where
  "migrate_loop env recorded [] applied db = (Inr applied, db)"
| "migrate_loop env recorded (m # ms) applied db =
     (case recorded (mig_Version m) of
        Some checksum \<Rightarrow>
          if checksum \<noteq> mig_Checksum m then (Inl (ErrChecksumMismatch (mig_Filename m)), db)
          else migrate_loop env recorded ms applied db
      | None \<Rightarrow>
          (case applyMigration env m db of
             (Inl e, db') \<Rightarrow> (Inl e, db')
           | (Inr took, db') \<Rightarrow>
               migrate_loop env recorded ms
                 (applied @ [\<lparr>am_Version = mig_Version m, am_Filename = mig_Filename m, am_Duration = took\<rparr>]) db'))"

text \<open>What runs while the lock is held, and then the deferred release.\<close>

definition migrate_locked ::
  "'d run_env \<Rightarrow> Migration list \<Rightarrow> 'd database \<Rightarrow> (migrate_error, AppliedMigration list) result \<times> 'd database" where
  "migrate_locked env available db =
     (case ensureMigrationsTable env db of
        (Some e, db') \<Rightarrow> (Inl e, db')
      | (None, db') \<Rightarrow>
          (case appliedChecksums env db' of
             Inl e \<Rightarrow> (Inl e, db')
           | Inr recorded \<Rightarrow> migrate_loop env recorded available [] db'))"

definition Migrate ::
  "(gostring \<Rightarrow> gostring) \<Rightarrow> 'd run_env \<Rightarrow> fsys \<Rightarrow> 'd database
    \<Rightarrow> (migrate_error, AppliedMigration list) result \<times> 'd database" where
  "Migrate sha256_hex env fs db =
     (case loadMigrations sha256_hex fs of
        Inl e \<Rightarrow> (Inl e, db)
      | Inr available \<Rightarrow>
          (case re_fault env SAcquire of
             Some e \<Rightarrow> (Inl (AcquiringConnection e), db)
           | None \<Rightarrow>
               (case re_fault env SLock of
                  Some e \<Rightarrow> (Inl (AcquiringLock e), db)
                | None \<Rightarrow>
                    (let (res, db') = migrate_locked env available (db\<lparr>db_locked := True\<rparr>)
                     in (res, if re_fault env SUnlock = None then db'\<lparr>db_locked := False\<rparr> else db')))))"

subsection \<open>Recorded and carried out are the same thing\<close>

fun exec_all :: "(gostring \<Rightarrow> 'd \<Rightarrow> (gostring, 'd) result) \<Rightarrow> Migration list \<Rightarrow> 'd \<Rightarrow> (gostring, 'd) result" where
  "exec_all exec [] d = Inr d"
| "exec_all exec (m # ms) d = rbind (exec (mig_SQL m) d) (exec_all exec ms)"

lemma exec_all_append: "exec_all exec (xs @ ys) d = rbind (exec_all exec xs d) (exec_all exec ys)"
  by (induction xs arbitrary: d) (auto simp: rbind_def split: sum.splits)

text \<open>
  A database is consistent when its schema is what the recorded files, and no others, make of the
  initial one, each run once and in full.
\<close>

definition consistent :: "(gostring \<Rightarrow> 'd \<Rightarrow> (gostring, 'd) result) \<Rightarrow> 'd \<Rightarrow> 'd database \<Rightarrow> bool" where
  "consistent exec d0 db \<longleftrightarrow>
     (\<exists>h. table_rows db = map row_of h \<and> distinct (map mig_Version h) \<and> exec_all exec h d0 = Inr (db_schema db))"

definition recorded_in :: "'d database \<Rightarrow> gostring \<Rightarrow> gostring option" where
  "recorded_in db = foldl (\<lambda>m r. m(row_version r \<mapsto> row_checksum r)) (\<lambda>_. None) (table_rows db)"

lemma applyMigration_cases:
  obtains (kept) e where "applyMigration env m db = (Inl e, db)"
  | (ran) res schema where "applyMigration env m db = (res, db\<lparr>db_schema := schema, db_rows := Some (table_rows db @ [row_of m])\<rparr>)"
      "re_exec env (mig_SQL m) (db_schema db) = Inr schema"
      "mig_Version m \<notin> row_version ` set (table_rows db)"
proof (cases "\<exists>e. applyMigration env m db = (Inl e, db)")
  case False
  then obtain schema where b: "re_fault env (SBegin (mig_Version m)) = None"
    and x: "re_exec env (mig_SQL m) (db_schema db) = Inr schema"
    by (auto simp: applyMigration_def split: option.splits sum.splits)
  let ?db' = "db\<lparr>db_schema := schema, db_rows := Some (table_rows db @ [row_of m])\<rparr>"
  have ins: "insert_row env m (db\<lparr>db_schema := schema\<rparr>) = Inr ?db'"
    and new: "mig_Version m \<notin> row_version ` set (table_rows db)"
    using False by (auto simp: applyMigration_def insert_row_def b x table_rows_def
        split: option.splits if_splits)
  from False have "snd (applyMigration env m db) = ?db'"
    by (simp add: applyMigration_def b x ins split: option.splits if_splits)
  with x new show thesis
    by (intro ran [of "fst (applyMigration env m db)" schema]) (simp_all add: prod_eq_iff)
qed (auto intro: kept)

lemma applyMigration_consistent:
  assumes "consistent (re_exec env) d0 db"
  shows "consistent (re_exec env) d0 (snd (applyMigration env m db))"
proof (cases rule: applyMigration_cases [of env m db])
  case (ran res schema)
  from assms obtain h where h: "table_rows db = map row_of h" "distinct (map mig_Version h)"
    "exec_all (re_exec env) h d0 = Inr (db_schema db)"
    by (auto simp: consistent_def)
  from ran(3) h(1) have "mig_Version m \<notin> mig_Version ` set h"
    by (auto simp: row_of_def image_iff)
  with h ran(1,2) show ?thesis
    unfolding consistent_def
    by (intro exI [of _ "h @ [m]"]) (auto simp: exec_all_append table_rows_def)
qed (use assms in simp)

lemma migrate_loop_consistent:
  "consistent (re_exec env) d0 db \<Longrightarrow> consistent (re_exec env) d0 (snd (migrate_loop env recorded ms applied db))"
proof (induction ms arbitrary: applied db)
  case (Cons m ms)
  have "consistent (re_exec env) d0 (snd (applyMigration env m db))"
    by (rule applyMigration_consistent [OF Cons.prems])
  with Cons show ?case by (auto split: option.split sum.split prod.split)
qed simp

lemma consistent_lock [simp]:
  "consistent exec d0 (db\<lparr>db_locked := b\<rparr>) = consistent exec d0 db"
  "consistent exec d0 (db\<lparr>db_rows := Some (table_rows db)\<rparr>) = consistent exec d0 db"
  by (simp_all add: consistent_def table_rows_def)

lemma migrate_locked_consistent:
  "consistent (re_exec env) d0 db \<Longrightarrow> consistent (re_exec env) d0 (snd (migrate_locked env ms db))"
  by (simp add: migrate_locked_def ensureMigrationsTable_def migrate_loop_consistent
      split: option.split sum.split)

lemma Migrate_consistent:
  "consistent (re_exec env) d0 db \<Longrightarrow> consistent (re_exec env) d0 (snd (Migrate sha env fs db))"
  by (simp add: Migrate_def Let_def split_beta migrate_locked_consistent split: option.split sum.split)

subsection \<open>Success\<close>

lemma recorded_append [simp]:
  "table_rows db' = table_rows db @ [row_of m] \<Longrightarrow>
     recorded_in db' = (recorded_in db)(mig_Version m \<mapsto> mig_Checksum m)"
  by (simp add: recorded_in_def row_of_def)

lemma appliedChecksums_eq:
  "appliedChecksums env db = Inr recorded \<Longrightarrow> recorded = recorded_in db"
  by (simp add: appliedChecksums_def recorded_in_def split: option.splits)

lemma applyMigration_Inr:
  assumes "applyMigration env m db = (Inr took, db')"
  shows "table_rows db' = table_rows db @ [row_of m]" and "took = re_took env (mig_Version m)"
    and "re_exec env (mig_SQL m) (db_schema db) = Inr (db_schema db')"
proof (atomize (full), cases rule: applyMigration_cases [of env m db])
  case (ran res schema)
  with assms show "table_rows db' = table_rows db @ [row_of m] \<and> took = re_took env (mig_Version m)
      \<and> re_exec env (mig_SQL m) (db_schema db) = Inr (db_schema db')"
    by (auto simp: table_rows_def) (auto simp: applyMigration_def split: option.splits sum.splits)
qed (use assms in simp)

text \<open>A successful run applies, in order, the files that were not recorded, and records them all.\<close>

lemma migrate_loop_Inr:
  assumes "migrate_loop env recorded ms applied db = (Inr result, db')" and "distinct (map mig_Version ms)"
  shows "map am_Version result = map am_Version applied @ map mig_Version (filter (\<lambda>m. recorded (mig_Version m) = None) ms)
     \<and> table_rows db' = table_rows db @ map row_of (filter (\<lambda>m. recorded (mig_Version m) = None) ms)
     \<and> (\<forall>m \<in> set ms. recorded (mig_Version m) = None \<or> recorded (mig_Version m) = Some (mig_Checksum m))
     \<and> exec_all (re_exec env) (filter (\<lambda>m. recorded (mig_Version m) = None) ms) (db_schema db) = Inr (db_schema db')"
  using assms
proof (induction ms arbitrary: applied db)
  case (Cons m ms)
  show ?case
  proof (cases "recorded (mig_Version m)")
    case None
    with Cons.prems(1) obtain took db1 where a: "applyMigration env m db = (Inr took, db1)"
      and l: "migrate_loop env recorded ms
        (applied @ [\<lparr>am_Version = mig_Version m, am_Filename = mig_Filename m, am_Duration = took\<rparr>]) db1 = (Inr result, db')"
      by (auto split: sum.splits prod.splits)
    from Cons.IH [OF l] Cons.prems(2) applyMigration_Inr(1,3) [OF a] None show ?thesis by (simp add: rbind_def)
  next
    case (Some checksum)
    with Cons.prems(1) have "checksum = mig_Checksum m"
      "migrate_loop env recorded ms applied db = (Inr result, db')"
      by (auto split: if_splits)
    with Cons.IH Cons.prems(2) Some show ?thesis by simp
  qed
qed simp

lemma Migrate_Inr:
  assumes "Migrate sha env fs db = (Inr applied, db')"
  obtains ms where "loadMigrations sha fs = Inr ms"
    "map am_Version applied = map mig_Version (filter (\<lambda>m. recorded_in db (mig_Version m) = None) ms)"
    "table_rows db' = table_rows db @ map row_of (filter (\<lambda>m. recorded_in db (mig_Version m) = None) ms)"
    "\<forall>m \<in> set ms. recorded_in db (mig_Version m) = None \<or> recorded_in db (mig_Version m) = Some (mig_Checksum m)"
    "exec_all (re_exec env) (filter (\<lambda>m. recorded_in db (mig_Version m) = None) ms) (db_schema db) = Inr (db_schema db')"
proof -
  from assms obtain ms db1 where ms: "loadMigrations sha fs = Inr ms"
    and l: "migrate_locked env ms (db\<lparr>db_locked := True\<rparr>) = (Inr applied, db1)"
    and rows: "table_rows db' = table_rows db1" "db_schema db' = db_schema db1"
    by (auto simp: Migrate_def Let_def split_beta table_rows_def prod_eq_iff
        split: sum.splits option.splits if_splits)
  have same: "recorded_in (db\<lparr>db_locked := True, db_rows := Some (table_rows db)\<rparr>) = recorded_in db"
    "table_rows (db\<lparr>db_locked := True, db_rows := Some (table_rows db)\<rparr>) = table_rows db"
    "table_rows (db\<lparr>db_locked := True\<rparr>) = table_rows db"
    by (simp_all add: recorded_in_def table_rows_def)
  have distinct: "distinct (map mig_Version ms)"
    using load_loop_facts(3) [OF ms [unfolded loadMigrations_def]] .
  from l obtain recorded where
    "appliedChecksums env (db\<lparr>db_locked := True, db_rows := Some (table_rows db)\<rparr>) = Inr recorded"
    "migrate_loop env recorded ms [] (db\<lparr>db_locked := True, db_rows := Some (table_rows db)\<rparr>) = (Inr applied, db1)"
    by (auto simp: migrate_locked_def ensureMigrationsTable_def same split: option.splits sum.splits)
  moreover from this(1) have "recorded = recorded_in db"
    using appliedChecksums_eq same(1) by metis
  ultimately have "migrate_loop env (recorded_in db) ms [] (db\<lparr>db_locked := True, db_rows := Some (table_rows db)\<rparr>) =
      (Inr applied, db1)" by simp
  from migrate_loop_Inr [OF this distinct] rows same(2) show thesis by (intro that [OF ms]) simp_all
qed

text \<open>After a success every file is recorded with its checksum, so the next run has nothing to do.\<close>

lemma recorded_in_map_of:
  "recorded_in db = map_of (rev (map (\<lambda>r. (row_version r, row_checksum r)) (table_rows db)))"
proof -
  have "foldl (\<lambda>m r. m(row_version r \<mapsto> row_checksum r)) (\<lambda>_. None) rs =
      map_of (rev (map (\<lambda>r. (row_version r, row_checksum r)) rs))" for rs :: "row list"
    by (induction rs rule: rev_induct) simp_all
  then show ?thesis by (simp add: recorded_in_def)
qed

lemma recorded_after:
  assumes rows: "table_rows db' = table_rows db @ map row_of (filter (\<lambda>m. recorded_in db (mig_Version m) = None) ms)"
    and dist: "distinct (map mig_Version ms)" and m: "m \<in> set ms"
    and ok: "recorded_in db (mig_Version m) = None \<or> recorded_in db (mig_Version m) = Some (mig_Checksum m)"
  shows "recorded_in db' (mig_Version m) = Some (mig_Checksum m)"
proof -
  define new where "new = filter (\<lambda>m. recorded_in db (mig_Version m) = None) ms"
  define pairs where "pairs = rev (map (\<lambda>m. (mig_Version m, mig_Checksum m)) new)"
  have "recorded_in db' = recorded_in db ++ map_of pairs"
    by (simp add: recorded_in_map_of [of db'] recorded_in_map_of [of db] rows pairs_def new_def row_of_def comp_def)
  moreover have "map fst pairs = rev (map mig_Version new)"
    by (simp add: pairs_def rev_map comp_def)
  then have "distinct (map fst pairs)"
    using dist by (simp add: new_def distinct_map_filter)
  ultimately show ?thesis
  proof (cases "recorded_in db (mig_Version m)")
    case None
    with m have "(mig_Version m, mig_Checksum m) \<in> set pairs"
      by (simp add: pairs_def new_def)
    with \<open>distinct (map fst pairs)\<close> \<open>recorded_in db' = _\<close> show ?thesis
      by (simp add: map_add_Some_iff)
  next
    case (Some c)
    then have "mig_Version m \<notin> dom (map_of pairs)"
      by (auto simp: pairs_def new_def dom_map_of_conv_image_fst)
    with Some ok \<open>recorded_in db' = _\<close> show ?thesis
      by (auto simp: map_add_def split: option.splits)
  qed
qed

lemma migrate_loop_nothing:
  "\<forall>m \<in> set ms. recorded (mig_Version m) = Some (mig_Checksum m) \<Longrightarrow>
     migrate_loop env recorded ms applied db = (Inr applied, db)"
  by (induction ms) auto

text \<open>A run after a successful one, in which no statement fails, changes nothing.\<close>

lemma Migrate_idempotent:
  assumes "Migrate sha env fs db = (Inr applied, db1)" and "re_fault env' = (\<lambda>_. None)"
  shows "Migrate sha env' fs db1 = (Inr [], db1\<lparr>db_rows := Some (table_rows db1), db_locked := False\<rparr>)"
proof -
  obtain ms where ms: "loadMigrations sha fs = Inr ms"
    and rows: "table_rows db1 = table_rows db @ map row_of (filter (\<lambda>m. recorded_in db (mig_Version m) = None) ms)"
    and ok: "\<forall>m \<in> set ms. recorded_in db (mig_Version m) = None \<or> recorded_in db (mig_Version m) = Some (mig_Checksum m)"
    using assms(1) by (rule Migrate_Inr)
  have "distinct (map mig_Version ms)"
    using load_loop_facts(3) [OF ms [unfolded loadMigrations_def]] .
  then have "\<forall>m \<in> set ms. recorded_in db1 (mig_Version m) = Some (mig_Checksum m)"
    using recorded_after [OF rows] ok by blast
  moreover have "appliedChecksums env' (db1\<lparr>db_locked := True, db_rows := Some (table_rows db1)\<rparr>) = Inr (recorded_in db1)"
    by (simp add: appliedChecksums_def assms(2) recorded_in_def table_rows_def)
  moreover have "table_rows (db1\<lparr>db_locked := True\<rparr>) = table_rows db1"
    by (simp add: table_rows_def)
  ultimately show ?thesis
    by (simp add: Migrate_def ms assms(2) migrate_locked_def ensureMigrationsTable_def migrate_loop_nothing)
qed

text \<open>The lock is free again after every run whose unlock statement goes through.\<close>

lemma Migrate_releases_lock:
  "re_fault env SUnlock = None \<Longrightarrow> \<not> db_locked db \<Longrightarrow> \<not> db_locked (snd (Migrate sha env fs db))"
  by (simp add: Migrate_def Let_def split_beta split: option.split sum.split)

end
