(* ===== verification/Config_DotEnv.thy ===== *)
theory Config_DotEnv
  imports GoStrconv
begin

text \<open>
  \<open>internal/config/dotenv.go\<close>: finding the nearest \<open>.env\<close> file by walking up from a directory,
  and loading it. Paths are Unix paths (\<open>path/filepath\<close> with separator \<open>/\<close>). The file system is
  a function \<open>stat\<close>, the working directory a result, and \<open>godotenv.Load\<close> a parameter that returns
  the environment after the call.
\<close>

subsection \<open>path/filepath\<close>

text \<open>\<open>filepath.Clean\<close>: the components kept so far, innermost first.\<close>

fun clean_parts :: "bool \<Rightarrow> gostring list \<Rightarrow> gostring list \<Rightarrow> gostring list" where
  "clean_parts rooted acc [] = rev acc"
| "clean_parts rooted acc (p # ps) =
     (if p = [] \<or> p = ''.'' then clean_parts rooted acc ps
      else if p = ''..'' then
        (case acc of
           a # rest \<Rightarrow> if a \<noteq> ''..'' then clean_parts rooted rest ps
                       else clean_parts rooted (p # acc) ps
         | [] \<Rightarrow> if rooted then clean_parts rooted [] ps else clean_parts rooted [p] ps)
      else clean_parts rooted (p # acc) ps)"

definition IsAbs :: "gostring \<Rightarrow> bool" where
  "IsAbs path \<longleftrightarrow> take 1 path = ''/''"

definition Clean :: "gostring \<Rightarrow> gostring" where
  "Clean path =
     (let parts = clean_parts (IsAbs path) [] (split_on CHR ''/'' path)
      in if IsAbs path then CHR ''/'' # join ''/'' parts
         else if parts = [] then ''.'' else join ''/'' parts)"

definition path_Join :: "gostring \<Rightarrow> gostring \<Rightarrow> gostring" where
  "path_Join a b =
     (if a = [] \<and> b = [] then [] else if a = [] then Clean b else if b = [] then Clean a
      else Clean (a @ ''/'' @ b))"

text \<open>\<open>filepath.Dir\<close>: everything up to and including the last separator, cleaned.\<close>

definition path_Dir :: "gostring \<Rightarrow> gostring" where
  "path_Dir path = Clean (rev (dropWhile (\<lambda>c. c \<noteq> CHR ''/'') (rev path)))"

subsection \<open>dotenv.go\<close>

datatype stat_result = Stat bool | StatNotExist | StatError gostring

datatype dotenv_error =
    WorkingDirectory gostring
  | Resolving gostring gostring
  | Checking gostring gostring
  | Loading gostring gostring
  | ErrNoDotEnv

definition dotEnvSearchDepth :: nat where "dotEnvSearchDepth = 5"

definition path_Abs :: "(gostring, gostring) result \<Rightarrow> gostring \<Rightarrow> (gostring, gostring) result" where
  "path_Abs getwd path =
     (if IsAbs path then Inr (Clean path) else rbind getwd (\<lambda>wd. Inr (path_Join wd path)))"

text \<open>The loop of \<open>findDotEnv\<close>; \<open>n\<close> counts the directories still to be looked at.\<close>

fun find_loop :: "(gostring \<Rightarrow> stat_result) \<Rightarrow> nat \<Rightarrow> gostring \<Rightarrow> (dotenv_error, gostring) result" where
  "find_loop stat 0 current = Inl ErrNoDotEnv"
| "find_loop stat (Suc n) current =
     (let candidate = path_Join current ''.env'';
          next = (let parent = path_Dir current
                  in if parent = current then Inl ErrNoDotEnv else find_loop stat n parent)
      in case stat candidate of
           Stat regular \<Rightarrow> if regular then Inr candidate else next
         | StatError e \<Rightarrow> Inl (Checking candidate e)
         | StatNotExist \<Rightarrow> next)"

definition findDotEnv ::
  "(gostring \<Rightarrow> stat_result) \<Rightarrow> (gostring, gostring) result \<Rightarrow> gostring \<Rightarrow> (dotenv_error, gostring) result" where
  "findDotEnv stat getwd dir =
     (case path_Abs getwd dir of
        Inl e \<Rightarrow> Inl (Resolving dir e)
      | Inr current \<Rightarrow> find_loop stat (dotEnvSearchDepth + 1) current)"

type_synonym environ = "gostring \<Rightarrow> gostring option"

definition LoadDotEnvFrom ::
  "(gostring \<Rightarrow> environ \<Rightarrow> (gostring, environ) result) \<Rightarrow> (gostring \<Rightarrow> stat_result)
    \<Rightarrow> (gostring, gostring) result \<Rightarrow> gostring \<Rightarrow> environ \<Rightarrow> (dotenv_error, gostring \<times> environ) result" where
  "LoadDotEnvFrom godotenv_Load stat getwd dir env =
     rbind (findDotEnv stat getwd dir) (\<lambda>path.
       case godotenv_Load path env of
         Inl e \<Rightarrow> Inl (Loading path e)
       | Inr env' \<Rightarrow> Inr (path, env'))"

definition LoadDotEnv ::
  "(gostring \<Rightarrow> environ \<Rightarrow> (gostring, environ) result) \<Rightarrow> (gostring \<Rightarrow> stat_result)
    \<Rightarrow> (gostring, gostring) result \<Rightarrow> environ \<Rightarrow> (dotenv_error, gostring \<times> environ) result" where
  "LoadDotEnv godotenv_Load stat getwd env =
     (case getwd of
        Inl e \<Rightarrow> Inl (WorkingDirectory e)
      | Inr dir \<Rightarrow> LoadDotEnvFrom godotenv_Load stat getwd dir env)"

subsection \<open>The walk, on directory names\<close>

text \<open>An absolute directory is the list of its components; \<open>/\<close> is the empty one.\<close>

definition component_ok :: "gostring \<Rightarrow> bool" where
  "component_ok p \<longleftrightarrow> p \<noteq> [] \<and> p \<noteq> ''.'' \<and> p \<noteq> ''..'' \<and> CHR ''/'' \<notin> set p"

definition abs_path :: "gostring list \<Rightarrow> gostring" where
  "abs_path ps = CHR ''/'' # join ''/'' ps"

lemma split_on_absent: "sep \<notin> set s \<Longrightarrow> split_on sep s = [s]"
  by (induction s) auto

lemma split_on_sep: "sep \<notin> set s \<Longrightarrow> split_on sep (s @ sep # t) = s # split_on sep t"
  by (induction s) auto

lemma split_on_join_append:
  "list_all (\<lambda>p. sep \<notin> set p) ps \<Longrightarrow>
     split_on sep (join [sep] ps @ sep # t) = (if ps = [] then [[]] else ps) @ split_on sep t"
proof (induction ps)
  case (Cons p ps)
  then show ?case by (cases ps) (simp_all add: split_on_sep)
qed simp

lemma split_on_join:
  "ps \<noteq> [] \<Longrightarrow> list_all (\<lambda>p. sep \<notin> set p) ps \<Longrightarrow> split_on sep (join [sep] ps) = ps"
proof (induction ps)
  case (Cons p ps)
  then show ?case by (cases ps) (simp_all add: split_on_sep split_on_absent)
qed simp

lemma join_snoc: "join sep (ps @ [q]) = (if ps = [] then q else join sep ps @ sep @ q)"
proof (induction ps)
  case (Cons p ps)
  then show ?case by (cases ps) simp_all
qed simp

lemma component_no_slash: "list_all component_ok ps \<Longrightarrow> list_all (\<lambda>p. CHR ''/'' \<notin> set p) ps"
  by (auto simp: list_all_iff component_ok_def)

lemma clean_parts_ok:
  "list_all component_ok ps \<Longrightarrow> clean_parts rooted acc (ps @ qs) = clean_parts rooted (rev ps @ acc) qs"
  by (induction ps arbitrary: acc) (auto simp: component_ok_def)

lemma Clean_abs_path:
  assumes "list_all component_ok ps"
  shows "Clean (abs_path ps) = abs_path ps"
    and "Clean (abs_path ps @ ''/'') = abs_path ps"
    and "component_ok q \<Longrightarrow> Clean (abs_path ps @ CHR ''/'' # q) = abs_path (ps @ [q])"
proof -
  note ok = component_no_slash [OF assms]
  have "split_on CHR ''/'' (join ''/'' ps) = (if ps = [] then [[]] else ps)"
    using split_on_join [OF _ ok] by simp
  then show "Clean (abs_path ps) = abs_path ps"
    using clean_parts_ok [OF assms, of True "[]" "[]"] by (simp add: Clean_def IsAbs_def abs_path_def)
  have "split_on CHR ''/'' (join ''/'' ps @ ''/'') = (if ps = [] then [[]] else ps) @ [[]]"
    using split_on_join_append [OF ok, of "[]"] by simp
  then show "Clean (abs_path ps @ ''/'') = abs_path ps"
    using clean_parts_ok [OF assms, of True "[]" "[[]]"] by (simp add: Clean_def IsAbs_def abs_path_def)
  assume q: "component_ok q"
  then have "split_on CHR ''/'' (join ''/'' ps @ CHR ''/'' # q) = (if ps = [] then [[]] else ps) @ [q]"
    using split_on_join_append [OF ok, of q] by (simp add: split_on_absent component_ok_def)
  then show "Clean (abs_path ps @ CHR ''/'' # q) = abs_path (ps @ [q])"
    using clean_parts_ok [OF assms, of True "[]" "[q]"] q
    by (simp add: Clean_def IsAbs_def abs_path_def component_ok_def)
qed

lemma path_Join_abs:
  "list_all component_ok ps \<Longrightarrow> path_Join (abs_path ps) ''.env'' = abs_path (ps @ [''.env''])"
  using Clean_abs_path(3) [of ps "''.env''"]
  by (simp add: path_Join_def component_ok_def) (simp add: abs_path_def)

lemma dir_part: "CHR ''/'' \<notin> set q \<Longrightarrow>
    rev (dropWhile (\<lambda>c. c \<noteq> CHR ''/'') (rev (x @ CHR ''/'' # q))) = x @ ''/''"
  by (subst rev_append, subst rev.simps(2), simp, subst dropWhile_append2) auto

lemma path_Dir_abs:
  assumes "list_all component_ok ps"
  shows "path_Dir (abs_path ps) = abs_path (butlast ps)"
proof (cases ps rule: rev_cases)
  case Nil
  then show ?thesis using Clean_abs_path(1) [of "[]"] by (simp add: path_Dir_def abs_path_def)
next
  case (snoc qs q)
  with assms have q: "CHR ''/'' \<notin> set q" and qs: "list_all component_ok qs"
    by (simp_all add: component_ok_def)
  show ?thesis
  proof (cases "qs = []")
    case True
    with snoc dir_part [OF q, of "[]"] Clean_abs_path(1) [of "[]"] show ?thesis
      by (simp add: path_Dir_def abs_path_def)
  next
    case False
    with snoc have "abs_path ps = abs_path qs @ CHR ''/'' # q"
      by (simp add: abs_path_def join_snoc)
    with snoc dir_part [OF q] Clean_abs_path(2) [OF qs] show ?thesis
      by (simp add: path_Dir_def)
  qed
qed

lemma abs_path_butlast_eq: "list_all component_ok ps \<Longrightarrow> abs_path (butlast ps) = abs_path ps \<longleftrightarrow> ps = []"
proof (cases ps rule: rev_cases)
  case (snoc qs q)
  moreover assume "list_all component_ok ps"
  ultimately have "q \<noteq> []" by (simp add: component_ok_def)
  then have "length (abs_path qs) < length (abs_path (qs @ [q]))"
    by (simp add: abs_path_def join_snoc)
  with snoc show ?thesis by auto
qed simp

text \<open>The files looked at, nearest first: at most \<open>n\<close> directories, up to the root.\<close>

fun candidates :: "nat \<Rightarrow> gostring list \<Rightarrow> gostring list" where
  "candidates 0 ps = []"
| "candidates (Suc n) ps =
     abs_path (ps @ [''.env'']) # (if ps = [] then [] else candidates n (butlast ps))"

definition decisive :: "(gostring \<Rightarrow> stat_result) \<Rightarrow> gostring \<Rightarrow> bool" where
  "decisive stat c \<longleftrightarrow> stat c \<noteq> StatNotExist \<and> stat c \<noteq> Stat False"

definition first_decisive :: "(gostring \<Rightarrow> stat_result) \<Rightarrow> gostring list \<Rightarrow> (dotenv_error, gostring) result" where
  "first_decisive stat cs =
     (case find (decisive stat) cs of
        None \<Rightarrow> Inl ErrNoDotEnv
      | Some c \<Rightarrow> (case stat c of StatError e \<Rightarrow> Inl (Checking c e) | _ \<Rightarrow> Inr c))"

lemma length_candidates: "length (candidates n ps) \<le> n"
  by (induction n ps rule: candidates.induct) auto

lemma list_all_butlast: "list_all P xs \<Longrightarrow> list_all P (butlast xs)"
  by (auto simp: list_all_iff dest: in_set_butlastD)

lemma find_loop_candidates:
  assumes "list_all component_ok ps"
  shows "find_loop stat n (abs_path ps) = first_decisive stat (candidates n ps)"
  using assms
proof (induction n arbitrary: ps)
  case (Suc n)
  note IH = Suc.IH [OF list_all_butlast [OF Suc.prems]]
  have step: "path_Join (abs_path ps) ''.env'' = abs_path (ps @ [''.env''])"
    "path_Dir (abs_path ps) = abs_path (butlast ps)"
    "abs_path (butlast ps) = abs_path ps \<longleftrightarrow> ps = []"
    using Suc.prems by (simp_all add: path_Join_abs path_Dir_abs abs_path_butlast_eq)
  show ?case
    by (simp add: step Let_def IH first_decisive_def decisive_def split: stat_result.split)
qed (simp add: first_decisive_def)

lemma path_Abs_abs: "list_all component_ok ps \<Longrightarrow> path_Abs getwd (abs_path ps) = Inr (abs_path ps)"
  by (simp add: path_Abs_def Clean_abs_path(1)) (simp add: IsAbs_def abs_path_def)

end
