(* ===== verification/Config_Logging.thy ===== *)
theory Config_Logging
  imports Config
begin

text \<open>
  \<open>internal/config/logging.go\<close>: the configuration as the log shows it. A \<open>LogValue\<close> is modelled
  after the handler has resolved the nested \<open>slog.LogValuer\<close>s, which it does for every attribute
  built with \<open>slog.Any\<close>; \<open>ServerConfig\<close> has no \<open>LogValue\<close> and is printed as it is.
\<close>

datatype slog_value =
    SString gostring
  | SInt int
  | SDuration duration
  | SServer ServerConfig
  | SGroup "(gostring \<times> slog_value) list"

definition secretSet :: gostring where "secretSet = ''[set]''"
definition secretUnset :: gostring where "secretUnset = ''[unset]''"
definition unparseableID :: gostring where "unparseableID = ''[unparseable]''"

definition secretState :: "gostring \<Rightarrow> gostring" where
  "secretState s = (if s = [] then secretUnset else secretSet)"

definition redactURL :: "gostring \<Rightarrow> gostring" where
  "redactURL raw =
     (if raw = [] then secretUnset
      else case url_Parse raw of Inl _ \<Rightarrow> unparseableID | Inr u \<Rightarrow> Redacted u)"

definition DatabaseConfig_LogValue :: "DatabaseConfig \<Rightarrow> slog_value" where
  "DatabaseConfig_LogValue d = SGroup
     [(''url'', SString (redactURL (dc_URL d))),
      (''max_conns'', SInt (dc_MaxConns d)),
      (''min_conns'', SInt (dc_MinConns d)),
      (''max_conn_lifetime'', SDuration (dc_MaxConnLifetime d)),
      (''max_conn_idle_time'', SDuration (dc_MaxConnIdleTime d))]"

definition RedisConfig_LogValue :: "RedisConfig \<Rightarrow> slog_value" where
  "RedisConfig_LogValue r = SGroup
     [(''url'', SString (redactURL (rc_URL r))),
      (''connect_timeout'', SDuration (rc_ConnectTimeout r))]"

definition AuthConfig_LogValue :: "AuthConfig \<Rightarrow> slog_value" where
  "AuthConfig_LogValue a = SGroup
     [(''jwt_secret'', SString (secretState (ac_JWTSecret a))),
      (''access_token_ttl'', SDuration (ac_AccessTokenTTL a)),
      (''refresh_token_ttl'', SDuration (ac_RefreshTokenTTL a)),
      (''bcrypt_cost'', SInt (ac_BcryptCost a))]"

definition AIConfig_LogValue :: "AIConfig \<Rightarrow> slog_value" where
  "AIConfig_LogValue a = SGroup
     [(''provider'', SString (ai_Provider a)),
      (''openai_api_key'', SString (secretState (ai_OpenAIAPIKey a))),
      (''analysis_model'', SString (ai_AnalysisModel a)),
      (''postmortem_model'', SString (ai_PostmortemModel a)),
      (''embedding_model'', SString (ai_EmbeddingModel a)),
      (''embedding_dimensions'', SInt (ai_EmbeddingDimensions a)),
      (''request_timeout'', SDuration (ai_RequestTimeout a))]"

definition Config_LogValue :: "Config \<Rightarrow> slog_value" where
  "Config_LogValue c = SGroup
     [(''env'', SString (cfg_Env c)),
      (''server'', SServer (cfg_Server c)),
      (''database'', DatabaseConfig_LogValue (cfg_Database c)),
      (''redis'', RedisConfig_LogValue (cfg_Redis c)),
      (''auth'', AuthConfig_LogValue (cfg_Auth c)),
      (''ai'', AIConfig_LogValue (cfg_AI c))]"

subsection \<open>A password in the authority of a URL is not logged\<close>

text \<open>Which bytes escaping a user name or a password can produce.\<close>

lemma upper_hex_alnum: "d < 16 \<Longrightarrow> is_alnum (upper_hex d)"
  by (auto simp: upper_hex_def is_alnum_def is_alpha_def is_digit_def)

definition user_char :: "char \<Rightarrow> bool" where
  "user_char c \<longleftrightarrow> is_alnum c \<or> c \<in> set ''%-_.~$&+,;=''"

lemma not_user_char:
  "\<not> user_char CHR ''@''" "\<not> user_char CHR '':''" "\<not> user_char CHR ''/''"
  "\<not> user_char CHR ''?''" "\<not> user_char CHR ''#''"
  by (simp_all add: user_char_def is_alnum_def is_alpha_def is_digit_def)

lemma user_char_not_ctl: "user_char c \<Longrightarrow> 32 \<le> byte_of c \<and> byte_of c \<noteq> 127"
  unfolding user_char_def is_alnum_def is_alpha_def is_digit_def by (elim disjE) auto

lemma userinfo_escape_chars: "list_all user_char (url_escape s encodeUserPassword)"
proof (induction s)
  case (Cons d s)
  have hi: "byte_of d div 16 < 16"
    using byte_of_less [of d] by (intro less_mult_imp_div_less) simp
  have "user_char d" if "\<not> shouldEscape d encodeUserPassword"
    using that by (auto simp: shouldEscape_def user_char_def split: if_splits)
  moreover have "user_char (upper_hex n)" if "n < 16" for n
    using upper_hex_alnum [OF that] by (simp add: user_char_def)
  ultimately show ?case
    using Cons hi by (simp add: user_char_def [of "CHR ''%''"])
qed simp

lemma userinfo_escape_avoids: "\<not> user_char c \<Longrightarrow> c \<notin> set (url_escape s encodeUserPassword)"
  using userinfo_escape_chars [of s] by (auto simp: list_all_iff)

lemma before_append_absent: "c \<notin> set s \<Longrightarrow> before c (s @ t) = s @ before c t"
  unfolding before_def by (subst takeWhile_append2) auto

lemma after_append_absent: "c \<notin> set s \<Longrightarrow> after c (s @ t) = after c t"
  unfolding after_def by (subst dropWhile_append2) auto

lemma before_Cons_self [simp]: "before c (c # s) = []"
  by (simp add: before_def)

lemma after_Cons_self [simp]: "after c (c # s) = s"
  by (simp add: after_def)

lemma set_before: "set (before c s) \<subseteq> set s"
  unfolding before_def by (meson set_takeWhileD subsetI)

lemma split_last_at:
  assumes "c \<notin> set h"
  shows "before_last c (u @ c # h) = u" and "after_last c (u @ c # h) = h"
  using assms after_append_absent [of c "rev h" "c # rev u"] before_append_absent [of c "rev h" "c # rev u"]
  by (simp_all add: before_last_def after_last_def)

lemma scheme_loop_alpha:
  assumes "list_all is_alpha s" and "seen @ s \<noteq> []"
  shows "scheme_loop seen (s @ CHR '':'' # rest) raw = Inr (seen @ s, rest)"
  using assms by (induction s arbitrary: seen) (auto simp: is_alpha_def is_digit_def)

text \<open>
  A connection string with credentials before the host. The credentials are a user and a password as
  they are written; \<open>connection_string\<close> has them percent-encoded.
\<close>

definition with_userinfo :: "gostring \<Rightarrow> gostring \<Rightarrow> gostring \<Rightarrow> gostring" where
  "with_userinfo scheme cred rest = scheme @ CHR '':'' # ''//'' @ cred @ CHR ''@'' # rest"

definition raw_credentials :: "gostring \<Rightarrow> gostring \<Rightarrow> gostring" where
  "raw_credentials user pw = user @ CHR '':'' # pw"

definition credentials :: "gostring \<Rightarrow> gostring \<Rightarrow> gostring" where
  "credentials user pw = raw_credentials (url_escape user encodeUserPassword) (url_escape pw encodeUserPassword)"

definition connection_string :: "gostring \<Rightarrow> gostring \<Rightarrow> gostring \<Rightarrow> gostring \<Rightarrow> gostring" where
  "connection_string scheme user pw rest = with_userinfo scheme (credentials user pw) rest"

text \<open>Text that stays within the authority of a URL: nothing in it ends the authority.\<close>

definition in_authority :: "gostring \<Rightarrow> bool" where
  "in_authority s \<longleftrightarrow> CHR ''/'' \<notin> set s \<and> CHR ''?'' \<notin> set s \<and> CHR ''#'' \<notin> set s"

text \<open>Credentials that are read as a user and a password, whatever host follows.\<close>

definition reads_as :: "gostring \<Rightarrow> gostring \<Rightarrow> gostring \<Rightarrow> bool" where
  "reads_as cred user pw \<longleftrightarrow> \<not> stringContainsCTLByte cred
     \<and> (\<forall>h. CHR ''@'' \<notin> set h \<longrightarrow> parseAuthority (cred @ CHR ''@'' # h) =
           rbind (parseHost h) (\<lambda>host. Inr (Some \<lparr>ui_username = user, ui_password = Some pw\<rparr>, host)))"

definition refused :: "gostring \<Rightarrow> bool" where
  "refused cred \<longleftrightarrow> (\<forall>h. CHR ''@'' \<notin> set h \<longrightarrow> (\<exists>e. parseAuthority (cred @ CHR ''@'' # h) = Inl e))"

lemma validUserinfo_not_ctl: "validUserinfo s \<Longrightarrow> \<not> stringContainsCTLByte s"
proof -
  assume "validUserinfo s"
  then have "32 \<le> byte_of c \<and> byte_of c \<noteq> 127" if "c \<in> set s" for c
    using that unfolding validUserinfo_def is_alnum_def is_alpha_def is_digit_def by (elim ballE [of _ _ c] disjE) auto
  then show ?thesis by (fastforce simp: stringContainsCTLByte_def)
qed

lemma raw_credentials_read:
  assumes "CHR '':'' \<notin> set user"
  shows "(\<exists>u p. url_unescape user encodeUserPassword = Inr u \<and> reads_as (raw_credentials user pw) u p
      \<and> url_unescape pw encodeUserPassword = Inr p) \<or> refused (raw_credentials user pw)"
proof -
  have parts: "before CHR '':'' (raw_credentials user pw) = user" "after CHR '':'' (raw_credentials user pw) = pw"
    "CHR '':'' \<in> set (raw_credentials user pw)"
    using before_append_absent [OF assms] after_append_absent [OF assms] by (simp_all add: raw_credentials_def)
  have auth: "parseAuthority (raw_credentials user pw @ CHR ''@'' # h) = rbind (parseHost h) (\<lambda>host.
      if \<not> validUserinfo (raw_credentials user pw) then Inl InvalidUserinfo
      else rbind (url_unescape user encodeUserPassword) (\<lambda>u. rbind (url_unescape pw encodeUserPassword) (\<lambda>p.
        Inr (Some \<lparr>ui_username = u, ui_password = Some p\<rparr>, host))))" if "CHR ''@'' \<notin> set h" for h
    unfolding parseAuthority_def split_last_at [OF that] parts(1,2) Let_def
    by (cases "validUserinfo (raw_credentials user pw)") (simp_all add: parts(3))
  show ?thesis
  proof (cases "validUserinfo (raw_credentials user pw)
      \<and> (\<exists>u p. url_unescape user encodeUserPassword = Inr u \<and> url_unescape pw encodeUserPassword = Inr p)")
    case True
    then show ?thesis using validUserinfo_not_ctl by (auto simp: reads_as_def auth)
  next
    case False
    have "\<exists>e. parseAuthority (raw_credentials user pw @ CHR ''@'' # h) = Inl e" if "CHR ''@'' \<notin> set h" for h
      using False unfolding auth [OF that]
      by (cases "parseHost h"; cases "url_unescape user encodeUserPassword"; cases "url_unescape pw encodeUserPassword") auto
    then show ?thesis by (simp add: refused_def)
  qed
qed

lemma credentials_chars: "c \<in> set (credentials user pw) \<Longrightarrow> user_char c \<or> c = CHR '':''"
  using userinfo_escape_chars [of user] userinfo_escape_chars [of pw]
  by (auto simp: credentials_def raw_credentials_def list_all_iff)

lemma credentials_in_authority: "in_authority (credentials user pw)"
  using credentials_chars [of "CHR ''/''" user pw] credentials_chars [of "CHR ''?''" user pw]
    credentials_chars [of "CHR ''#''" user pw]
  by (auto simp: in_authority_def not_user_char)

lemma credentials_read: "reads_as (credentials user pw) user pw"
proof -
  have "validUserinfo (credentials user pw)"
    using credentials_chars [of _ user pw] by (force simp: validUserinfo_def user_char_def)
  moreover have "CHR '':'' \<notin> set (url_escape user encodeUserPassword)"
    by (intro userinfo_escape_avoids not_user_char)
  note before_append_absent [OF this] after_append_absent [OF this]
  ultimately show ?thesis
    by (simp add: reads_as_def validUserinfo_not_ctl parseAuthority_def split_last_at)
      (simp add: credentials_def raw_credentials_def url_unescape_escape Let_def)
qed

text \<open>Parsing such a string: the credentials only go into the authority.\<close>

lemma hier_userinfo:
  assumes "u_Scheme u \<noteq> []" and "in_authority cred"
  shows "parse_hier u (''//'' @ cred @ CHR ''@'' # r) =
    rbind (parseAuthority (cred @ CHR ''@'' # before CHR ''/'' r)) (\<lambda>(user, host).
      setPath (dropWhile (\<lambda>x. x \<noteq> CHR ''/'') r) (u\<lparr>u_User := user, u_Host := host\<rparr>))"
proof -
  have slash: "CHR ''/'' \<notin> set cred" using assms(2) by (simp add: in_authority_def)
  have authority: "before CHR ''/'' (cred @ CHR ''@'' # r) = cred @ CHR ''@'' # before CHR ''/'' r"
    by (simp add: before_append_absent [OF slash]) (simp add: before_def)
  have path: "dropWhile (\<lambda>x. x \<noteq> CHR ''/'') (cred @ CHR ''@'' # r) = dropWhile (\<lambda>x. x \<noteq> CHR ''/'') r"
    using slash by (subst dropWhile_append2) auto
  show ?thesis using assms(1) by (simp add: parse_hier_def Let_def authority path)
qed

lemma no_fragment_userinfo:
  assumes "list_all is_alpha scheme" and "scheme \<noteq> []" and "in_authority cred"
  shows "parse_no_fragment (with_userinfo scheme cred r) =
    (if stringContainsCTLByte cred \<or> stringContainsCTLByte r then Inl InvalidControlCharacter
     else if r \<noteq> [] \<and> last r = CHR ''?'' \<and> CHR ''?'' \<notin> set (butlast r)
       then parse_hier (empty_URL\<lparr>u_Scheme := ascii_lower_all scheme, u_ForceQuery := True\<rparr>)
              (''//'' @ cred @ CHR ''@'' # butlast r)
     else parse_hier (empty_URL\<lparr>u_Scheme := ascii_lower_all scheme, u_RawQuery := after CHR ''?'' r\<rparr>)
            (''//'' @ cred @ CHR ''@'' # before CHR ''?'' r))"
proof -
  define T where "T x = ''//'' @ cred @ CHR ''@'' # x" for x
  have q: "CHR ''?'' \<notin> set (''//'' @ cred @ ''@'')" using assms(3) by (simp add: in_authority_def)
  have T_app: "T x = (''//'' @ cred @ ''@'') @ x" for x by (simp add: T_def)
  have before_q: "before CHR ''?'' (T r) = T (before CHR ''?'' r)" and after_q: "after CHR ''?'' (T r) = after CHR ''?'' r"
    unfolding T_app by (rule before_append_absent [OF q] after_append_absent [OF q])+
  have butlast_q: "r \<noteq> [] \<Longrightarrow> butlast (T r) = T (butlast r)" by (simp add: T_def butlast_append)
  have last_q: "T r \<noteq> [] \<and> last (T r) = CHR ''?'' \<and> CHR ''?'' \<notin> set (butlast (T r)) \<longleftrightarrow>
      r \<noteq> [] \<and> last r = CHR ''?'' \<and> CHR ''?'' \<notin> set (butlast r)"
    using q by (cases "r = []") (auto simp: T_def butlast_append)
  have ctl: "stringContainsCTLByte (with_userinfo scheme cred r) \<longleftrightarrow>
      stringContainsCTLByte cred \<or> stringContainsCTLByte r"
    using assms(1) by (fastforce simp: stringContainsCTLByte_def with_userinfo_def is_alpha_def list_all_iff)
  have scheme: "getScheme (with_userinfo scheme cred r) = Inr (scheme, T r)"
    using scheme_loop_alpha [OF assms(1), of "[]"] assms(2) by (simp add: getScheme_def with_userinfo_def T_def)
  have star: "with_userinfo scheme cred r \<noteq> ''*''"
    using assms(2) by (cases scheme) (auto simp: with_userinfo_def)
  show ?thesis
    unfolding T_def [symmetric]
    by (simp add: parse_no_fragment_def ctl star scheme Let_def last_q before_q after_q butlast_q)
qed

lemma url_Parse_userinfo:
  assumes "list_all is_alpha scheme" and "in_authority cred"
  shows "url_Parse (with_userinfo scheme cred rest) =
    (case parse_no_fragment (with_userinfo scheme cred (before CHR ''#'' rest)) of
       Inl e \<Rightarrow> Inl (with_userinfo scheme cred (before CHR ''#'' rest), e)
     | Inr u \<Rightarrow>
         if after CHR ''#'' rest = [] then Inr u
         else case setFragment (after CHR ''#'' rest) u of
           Inl e \<Rightarrow> Inl (with_userinfo scheme cred rest, e)
         | Inr v \<Rightarrow> Inr v)"
proof -
  have hash: "CHR ''#'' \<notin> set (scheme @ '':'' @ ''//'' @ cred @ ''@'')"
    using assms by (auto simp: in_authority_def list_all_iff is_alpha_def)
  have app: "with_userinfo scheme cred x = (scheme @ '':'' @ ''//'' @ cred @ ''@'') @ x" for x
    by (simp add: with_userinfo_def)
  have "before CHR ''#'' (with_userinfo scheme cred rest) = with_userinfo scheme cred (before CHR ''#'' rest)"
    and "after CHR ''#'' (with_userinfo scheme cred rest) = after CHR ''#'' rest"
    unfolding app by (rule before_append_absent [OF hash] after_append_absent [OF hash])+
  then show ?thesis unfolding url_Parse_def by (simp only:)
qed

text \<open>A parse, with its password and its error text forgotten.\<close>

definition blind :: "('e, URL) result \<Rightarrow> (unit, URL) result" where
  "blind = map_sum (\<lambda>_. ()) (with_password [])"

lemma blind_simps [simp]: "blind (Inl e) = Inl ()" "blind (Inr u) = Inr (with_password [] u)"
  by (simp_all add: blind_def)

lemma blind_Inl: "blind m = Inl () \<longleftrightarrow> (\<exists>e. m = Inl e)"
  by (cases m) simp_all

lemma blind_setPath:
  "with_password [] u = with_password [] v \<Longrightarrow> blind (setPath p u) = blind (setPath p v)"
  by (cases "url_unescape p encodePath"; cases u; cases v)
    (simp_all add: setPath_def with_password_def)

lemma blind_setFragment:
  "with_password [] u = with_password [] v \<Longrightarrow> blind (setFragment f u) = blind (setFragment f v)"
  by (cases "url_unescape f encodeFragment"; cases u; cases v)
    (simp_all add: setFragment_def with_password_def)

lemma blind_hier:
  assumes "u_Scheme u \<noteq> []" and "in_authority cred" and "in_authority cred'" and "CHR ''@'' \<notin> set r"
    and "reads_as cred user pw" and "reads_as cred' user pw'"
  shows "blind (parse_hier u (''//'' @ cred @ CHR ''@'' # r)) = blind (parse_hier u (''//'' @ cred' @ CHR ''@'' # r))"
proof -
  have "CHR ''@'' \<notin> set (before CHR ''/'' r)" using assms(4) set_before by blast
  then show ?thesis
    using assms(5,6) unfolding hier_userinfo [OF assms(1,2)] hier_userinfo [OF assms(1,3)]
    by (cases "parseHost (before CHR ''/'' r)") (simp_all add: reads_as_def blind_setPath with_password_def)
qed

lemma refused_hier:
  assumes "u_Scheme u \<noteq> []" and "in_authority cred" and "CHR ''@'' \<notin> set r" and "refused cred"
  shows "blind (parse_hier u (''//'' @ cred @ CHR ''@'' # r)) = Inl ()"
proof -
  have "CHR ''@'' \<notin> set (before CHR ''/'' r)" using assms(3) set_before by blast
  then obtain e where "parseAuthority (cred @ CHR ''@'' # before CHR ''/'' r) = Inl e"
    using assms(4) unfolding refused_def by blast
  then show ?thesis unfolding hier_userinfo [OF assms(1,2)] by simp
qed

text \<open>
  So what two strings to the same place parse to is the same but for the password, and what is
  refused is refused with any host.
\<close>

lemma scheme_not_empty: "scheme \<noteq> [] \<Longrightarrow> ascii_lower_all scheme \<noteq> []"
  by (simp add: ascii_lower_all_def)

lemma blind_no_fragment:
  assumes "list_all is_alpha scheme" and "scheme \<noteq> []" and "CHR ''@'' \<notin> set r"
    and "in_authority cred" and "in_authority cred'" and "reads_as cred user pw" and "reads_as cred' user pw'"
  shows "blind (parse_no_fragment (with_userinfo scheme cred r)) =
     blind (parse_no_fragment (with_userinfo scheme cred' r))"
proof -
  have "CHR ''@'' \<notin> set (butlast r)" "CHR ''@'' \<notin> set (before CHR ''?'' r)"
    using assms(3) in_set_butlastD set_before by fast+
  then show ?thesis
    using assms(6,7) scheme_not_empty [OF assms(2)]
    unfolding no_fragment_userinfo [OF assms(1,2,4)] no_fragment_userinfo [OF assms(1,2,5)]
    by (simp add: reads_as_def blind_hier [OF _ assms(4,5) _ assms(6,7), simplified])
qed

lemma refused_no_fragment:
  assumes "list_all is_alpha scheme" and "scheme \<noteq> []" and "CHR ''@'' \<notin> set r"
    and "in_authority cred" and "refused cred"
  shows "blind (parse_no_fragment (with_userinfo scheme cred r)) = Inl ()"
proof -
  have "CHR ''@'' \<notin> set (butlast r)" "CHR ''@'' \<notin> set (before CHR ''?'' r)"
    using assms(3) in_set_butlastD set_before by fast+
  then show ?thesis
    using scheme_not_empty [OF assms(2)]
    unfolding no_fragment_userinfo [OF assms(1,2,4)]
    by (simp add: refused_hier [OF _ assms(4) _ assms(5), simplified])
qed

lemma blind_url_Parse:
  assumes "list_all is_alpha scheme" and "scheme \<noteq> []" and "CHR ''@'' \<notin> set rest"
    and "in_authority cred" and "in_authority cred'" and "reads_as cred user pw" and "reads_as cred' user pw'"
  shows "blind (url_Parse (with_userinfo scheme cred rest)) = blind (url_Parse (with_userinfo scheme cred' rest))"
proof -
  let ?p = "\<lambda>c. parse_no_fragment (with_userinfo scheme c (before CHR ''#'' rest))"
  have step: "blind (url_Parse (with_userinfo scheme c rest)) =
      (case blind (?p c) of Inl _ \<Rightarrow> Inl ()
       | Inr u \<Rightarrow> if after CHR ''#'' rest = [] then Inr u else blind (setFragment (after CHR ''#'' rest) u))"
    if "in_authority c" for c
  proof (cases "?p c")
    case (Inr u)
    have "with_password [] (with_password [] u) = with_password [] u"
      by (cases u) (simp add: with_password_def option.map_comp comp_def)
    from blind_setFragment [OF this, of "after CHR ''#'' rest"] Inr
    show ?thesis
      by (cases "setFragment (after CHR ''#'' rest) u") (simp_all add: url_Parse_userinfo [OF assms(1) that])
  qed (simp add: url_Parse_userinfo [OF assms(1) that])
  have "CHR ''@'' \<notin> set (before CHR ''#'' rest)" using assms(3) set_before by fast
  from blind_no_fragment [OF assms(1,2) this assms(4-7)] show ?thesis by (simp add: step assms(4,5))
qed

lemma refused_url_Parse:
  assumes "list_all is_alpha scheme" and "scheme \<noteq> []" and "CHR ''@'' \<notin> set rest"
    and "in_authority cred" and "refused cred"
  shows "\<exists>e. url_Parse (with_userinfo scheme cred rest) = Inl e"
proof -
  have "CHR ''@'' \<notin> set (before CHR ''#'' rest)" using assms(3) set_before by fast
  from refused_no_fragment [OF assms(1,2) this assms(4,5)] show ?thesis
    by (auto simp: blind_Inl url_Parse_userinfo [OF assms(1,4)])
qed

text \<open>
  The redacted text does not depend on the password: whatever two connection strings to the same
  place differ in, besides the password, shows up; of the password, at most that it cannot be parsed.
\<close>

lemma redactURL_blind:
  "redactURL raw =
     (if raw = [] then secretUnset
      else case blind (url_Parse raw) of Inl _ \<Rightarrow> unparseableID | Inr u \<Rightarrow> Redacted u)"
  by (simp add: redactURL_def Redacted_with_password split: sum.splits)

definition parses :: "gostring \<Rightarrow> bool" where
  "parses raw \<longleftrightarrow> (case url_Parse raw of Inl _ \<Rightarrow> False | Inr _ \<Rightarrow> True)"

lemma redactURL_hides_raw_password:
  assumes "list_all is_alpha scheme" and "scheme \<noteq> []" and "CHR ''@'' \<notin> set rest" and "CHR '':'' \<notin> set user"
    and "in_authority user" and "in_authority pw" and "in_authority pw'"
    and "parses (with_userinfo scheme (raw_credentials user pw) rest) =
      parses (with_userinfo scheme (raw_credentials user pw') rest)"
  shows "redactURL (with_userinfo scheme (raw_credentials user pw) rest) =
    redactURL (with_userinfo scheme (raw_credentials user pw') rest)"
proof -
  let ?c = "raw_credentials user pw" and ?c' = "raw_credentials user pw'"
  have inside: "in_authority ?c" "in_authority ?c'"
    using assms(5-7) by (simp_all add: in_authority_def raw_credentials_def)
  have "blind (url_Parse (with_userinfo scheme ?c rest)) = blind (url_Parse (with_userinfo scheme ?c' rest))"
  proof (cases "refused ?c \<or> refused ?c'")
    case True
    then have "\<not> parses (with_userinfo scheme ?c rest) \<or> \<not> parses (with_userinfo scheme ?c' rest)"
      using refused_url_Parse [OF assms(1-3) inside(1)] refused_url_Parse [OF assms(1-3) inside(2)]
      by (metis parses_def sum.case(1))
    with assms(8) have "\<not> parses (with_userinfo scheme ?c rest)" "\<not> parses (with_userinfo scheme ?c' rest)" by simp_all
    then have "blind (url_Parse (with_userinfo scheme ?c rest)) = Inl ()"
      "blind (url_Parse (with_userinfo scheme ?c' rest)) = Inl ()"
      unfolding blind_Inl by (simp_all add: parses_def split: sum.splits)
    then show ?thesis by simp
  next
    case False
    then obtain u p p' where "reads_as ?c u p" "reads_as ?c' u p'"
      using raw_credentials_read [OF assms(4), of pw] raw_credentials_read [OF assms(4), of pw'] by auto
    then show ?thesis by (rule blind_url_Parse [OF assms(1-3) inside])
  qed
  then show ?thesis by (simp add: redactURL_blind with_userinfo_def)
qed

text \<open>Two connection strings to the same place, by the same user; percent-encoding gives such strings.\<close>

definition differ_in_password :: "gostring \<Rightarrow> gostring \<Rightarrow> bool" where
  "differ_in_password url url' \<longleftrightarrow> (\<exists>scheme user pw pw' rest.
     list_all is_alpha scheme \<and> scheme \<noteq> [] \<and> CHR ''@'' \<notin> set rest \<and> CHR '':'' \<notin> set user
     \<and> in_authority user \<and> in_authority pw \<and> in_authority pw'
     \<and> url = with_userinfo scheme (raw_credentials user pw) rest
     \<and> url' = with_userinfo scheme (raw_credentials user pw') rest)"

lemma redactURL_same_place:
  assumes "differ_in_password url url'" and "parses url = parses url'"
  shows "redactURL url = redactURL url'"
  using assms redactURL_hides_raw_password unfolding differ_in_password_def by metis

lemma escape_in_authority: "in_authority (url_escape s encodeUserPassword)"
  by (simp add: in_authority_def userinfo_escape_avoids not_user_char)

lemma encoded_differ_in_password:
  assumes "list_all is_alpha scheme" and "scheme \<noteq> []" and "CHR ''@'' \<notin> set rest"
  shows "differ_in_password (connection_string scheme user pw rest) (connection_string scheme user pw' rest)"
    and "parses (connection_string scheme user pw rest) = parses (connection_string scheme user pw' rest)"
proof -
  show "differ_in_password (connection_string scheme user pw rest) (connection_string scheme user pw' rest)"
    unfolding differ_in_password_def connection_string_def credentials_def
    using assms escape_in_authority userinfo_escape_avoids [OF not_user_char(2)] by blast
  have "parses url \<longleftrightarrow> blind (url_Parse url) \<noteq> Inl ()" for url
    by (cases "url_Parse url") (simp_all add: parses_def)
  then show "parses (connection_string scheme user pw rest) = parses (connection_string scheme user pw' rest)"
    using blind_url_Parse [OF assms credentials_in_authority credentials_in_authority credentials_read credentials_read,
        of user pw pw'] by (simp add: connection_string_def)
qed

text \<open>The configuration with its secrets replaced; what is logged is the same.\<close>

definition replace_secrets :: "gostring \<Rightarrow> gostring \<Rightarrow> Config \<Rightarrow> Config" where
  "replace_secrets jwt key c =
     c\<lparr>cfg_Auth := cfg_Auth c\<lparr>ac_JWTSecret := (if ac_JWTSecret (cfg_Auth c) = [] then [] else jwt)\<rparr>,
       cfg_AI := cfg_AI c\<lparr>ai_OpenAIAPIKey := (if ai_OpenAIAPIKey (cfg_AI c) = [] then [] else key)\<rparr>\<rparr>"

lemma LogValue_replace_secrets:
  assumes "jwt \<noteq> []" and "key \<noteq> []"
  shows "Config_LogValue (replace_secrets jwt key c) = Config_LogValue c"
  using assms
  by (simp add: Config_LogValue_def replace_secrets_def AuthConfig_LogValue_def AIConfig_LogValue_def
      secretState_def)

end
