(* ===== verification/Queue_Sessions.thy ===== *)
theory Queue_Sessions
  imports Session_Interface Auth_Token
begin

text \<open>
  \<open>internal/queue/sessions.go\<close>: the revocation store over a Redis client. The client
  (\<open>go-redis\<close>) and the server are parameters, the record \<open>redis_ops\<close>; the locale \<open>redis_client\<close>
  states what they promise: a key set with a lifetime is there until the lifetime, which go-redis
  rounds down to a whole number of milliseconds, is over. Under these laws the store keeps the
  promises of \<open>session_store\<close>.
\<close>

datatype get_result = Got gostring | RedisNil | GetError gostring

record 'r redis_ops =
  rd_Set :: "gostring \<Rightarrow> gostring \<Rightarrow> duration \<Rightarrow> 'r \<Rightarrow> gostring option \<times> 'r"
  rd_Get :: "gostring \<Rightarrow> 'r \<Rightarrow> get_result"

definition revokedKeyPrefix :: gostring where
  "revokedKeyPrefix = ''flowcast:auth:revoked:''"

definition revokedKey :: "uuid_lib \<Rightarrow> uuid \<Rightarrow> gostring" where
  "revokedKey ul tokenID = revokedKeyPrefix @ uuid_String ul tokenID"

definition Revoke :: "uuid_lib \<Rightarrow> 'r redis_ops \<Rightarrow> uuid \<Rightarrow> duration \<Rightarrow> 'r \<Rightarrow> gostring option \<times> 'r" where
  "Revoke ul client tokenID ttl r =
     (if ttl \<le> 0 then (None, r)
      else case rd_Set client (revokedKey ul tokenID) ''1'' ttl r of
        (Some err, r') \<Rightarrow> (Some (''revoking token: '' @ err), r')
      | (None, r') \<Rightarrow> (None, r'))"

definition IsRevoked :: "uuid_lib \<Rightarrow> 'r redis_ops \<Rightarrow> uuid \<Rightarrow> 'r \<Rightarrow> (gostring, bool) result" where
  "IsRevoked ul client tokenID r =
     (case rd_Get client (revokedKey ul tokenID) r of
        Got _ \<Rightarrow> Inr True
      | RedisNil \<Rightarrow> Inr False
      | GetError err \<Rightarrow> Inl (''checking token revocation: '' @ err))"

definition NewSessionStore :: "uuid_lib \<Rightarrow> 'r redis_ops \<Rightarrow> 'r session_ops" where
  "NewSessionStore ul client = \<lparr>so_Revoke = Revoke ul client, so_IsRevoked = IsRevoked ul client\<rparr>"

lemma revokedKey_inj: "uuid_laws ul \<Longrightarrow> revokedKey ul i = revokedKey ul j \<longleftrightarrow> i = j"
  unfolding revokedKey_def uuid_laws_def by (metis append_same_eq same_append_eq sum.inject(2))

subsection \<open>The client's promises\<close>

locale redis_client =
  fixes ul :: uuid_lib
    and client :: "'r redis_ops"
    and clock :: "'r \<Rightarrow> time"
    and environment :: "'r \<Rightarrow> 'r \<Rightarrow> bool"
    and lives :: "gostring \<Rightarrow> time \<Rightarrow> 'r \<Rightarrow> bool"
    and present :: "gostring \<Rightarrow> 'r \<Rightarrow> bool"
  assumes uuids: "uuid_laws ul"
    and set_lives: "rd_Set client k v ttl r = (None, r') \<Longrightarrow> 0 < ttl \<Longrightarrow>
      lives k (clock r + ttl - millisecond) r'"
    and lives_get: "lives k t r \<Longrightarrow> clock r < t \<Longrightarrow> rd_Get client k r \<noteq> RedisNil"
    and lives_mono: "lives k t r \<Longrightarrow> t' \<le> t \<Longrightarrow> lives k t' r"
    and lives_environment: "lives k t r \<Longrightarrow> environment r r' \<Longrightarrow> lives k t r'"
    and lives_set: "lives k t r \<Longrightarrow> k' \<noteq> k \<Longrightarrow> lives k t (snd (rd_Set client k' v ttl r))"
    and lives_failed: "lives k t r \<Longrightarrow> rd_Set client k v ttl r = (Some e, r') \<Longrightarrow> lives k t r'"
    and clock_set: "clock (snd (rd_Set client k v ttl r)) = clock r"
    and clock_moves: "environment r r' \<Longrightarrow> clock r \<le> clock r'"
    and absent_get: "\<not> present k r \<Longrightarrow> rd_Get client k r \<noteq> Got v"
    and present_set: "present k (snd (rd_Set client k' v ttl r)) \<Longrightarrow> k = k' \<or> present k r"
    and present_environment: "environment r r' \<Longrightarrow> present k r' \<Longrightarrow> present k r"

sublocale redis_client \<subseteq> session_store
  "NewSessionStore ul client" clock environment
  "\<lambda>i t r. lives (revokedKey ul i) t r" "\<lambda>i r. present (revokedKey ul i) r"
proof
  note inj = revokedKey_inj [OF uuids]
  show "so_Revoke (NewSessionStore ul client) i ttl s = (None, s') \<Longrightarrow> 0 < ttl \<Longrightarrow>
      lives (revokedKey ul i) (clock s + ttl - millisecond) s'" for i ttl s s'
    by (auto simp: NewSessionStore_def Revoke_def intro: set_lives split: prod.splits option.splits)
  show "lives (revokedKey ul i) t s \<Longrightarrow> clock s < t \<Longrightarrow>
      so_IsRevoked (NewSessionStore ul client) i s \<noteq> Inr False" for i t s
    by (auto simp: NewSessionStore_def IsRevoked_def dest: lives_get split: get_result.splits)
  show "lives (revokedKey ul i) t s \<Longrightarrow> t' \<le> t \<Longrightarrow> lives (revokedKey ul i) t' s" for i t t' s
    by (rule lives_mono)
  show "lives (revokedKey ul i) t s \<Longrightarrow> environment s s' \<Longrightarrow> lives (revokedKey ul i) t s'" for i t s s'
    by (rule lives_environment)
  show "lives (revokedKey ul i) t s \<Longrightarrow> j \<noteq> i \<Longrightarrow>
      lives (revokedKey ul i) t (snd (so_Revoke (NewSessionStore ul client) j ttl s))" for i t s j ttl
    using lives_set [of "revokedKey ul i" t s "revokedKey ul j" "''1''" ttl]
    by (auto simp: NewSessionStore_def Revoke_def inj split: prod.splits option.splits)
  show "lives (revokedKey ul i) t s \<Longrightarrow> so_Revoke (NewSessionStore ul client) i ttl s = (Some e, s') \<Longrightarrow>
      lives (revokedKey ul i) t s'" for i t s ttl e s'
    by (auto simp: NewSessionStore_def Revoke_def intro: lives_failed split: prod.splits option.splits if_splits)
  show "clock (snd (so_Revoke (NewSessionStore ul client) j ttl s)) = clock s" for j ttl s
    using clock_set [of "revokedKey ul j" "''1''" ttl s]
    by (auto simp: NewSessionStore_def Revoke_def split: prod.splits option.splits)
  show "environment s s' \<Longrightarrow> clock s \<le> clock s'" for s s'
    by (rule clock_moves)
  show "\<not> present (revokedKey ul i) s \<Longrightarrow> so_IsRevoked (NewSessionStore ul client) i s \<noteq> Inr True" for i s
    by (auto simp: NewSessionStore_def IsRevoked_def dest: absent_get split: get_result.splits)
  show "present (revokedKey ul i) (snd (so_Revoke (NewSessionStore ul client) j ttl s)) \<Longrightarrow>
      i = j \<or> present (revokedKey ul i) s" for i j ttl s
    using present_set [of "revokedKey ul i" "revokedKey ul j" "''1''" ttl s]
    by (auto simp: NewSessionStore_def Revoke_def inj split: prod.splits option.splits if_splits)
  show "environment s s' \<Longrightarrow> present (revokedKey ul i) s' \<Longrightarrow> present (revokedKey ul i) s" for s s' i
    by (rule present_environment)
qed

context redis_client
begin

lemma store_laws:
  "session_store (NewSessionStore ul client) clock environment
     (\<lambda>i t r. lives (revokedKey ul i) t r) (\<lambda>i r. present (revokedKey ul i) r)"
  by unfold_locales

end

subsection \<open>A Redis server\<close>

text \<open>
  The documented behaviour of \<open>SET key value PX ms\<close> and \<open>GET key\<close>, over a server that may be
  down: the values with the time at which they go, and the server's clock.
\<close>

record redis_server =
  rs_entries :: "gostring \<Rightarrow> (gostring \<times> time) option"
  rs_clock :: time
  rs_up :: bool

definition expiry_ms :: "duration \<Rightarrow> duration" where
  "expiry_ms ttl = (if ttl < millisecond then millisecond else ttl - ttl mod millisecond)"

definition server_Set :: "gostring \<Rightarrow> gostring \<Rightarrow> duration \<Rightarrow> redis_server \<Rightarrow> gostring option \<times> redis_server" where
  "server_Set k v ttl r =
     (if rs_up r then (None, r\<lparr>rs_entries := (rs_entries r)(k \<mapsto> (v, rs_clock r + expiry_ms ttl))\<rparr>)
      else (Some ''connection refused'', r))"

definition server_Get :: "gostring \<Rightarrow> redis_server \<Rightarrow> get_result" where
  "server_Get k r =
     (if \<not> rs_up r then GetError ''connection refused''
      else case rs_entries r k of
        None \<Rightarrow> RedisNil
      | Some (v, t) \<Rightarrow> if rs_clock r < t then Got v else RedisNil)"

definition redis_reference :: "redis_server redis_ops" where
  "redis_reference = \<lparr>rd_Set = server_Set, rd_Get = server_Get\<rparr>"

definition server_moves :: "redis_server \<Rightarrow> redis_server \<Rightarrow> bool" where
  "server_moves r r' \<longleftrightarrow> rs_entries r' = rs_entries r \<and> rs_clock r \<le> rs_clock r'"

definition entry_until :: "gostring \<Rightarrow> time \<Rightarrow> redis_server \<Rightarrow> bool" where
  "entry_until k t r \<longleftrightarrow> (case rs_entries r k of None \<Rightarrow> False | Some (_, t') \<Rightarrow> t \<le> t')"

text \<open>A UUID library: the decimal numeral of the 128 bits.\<close>

definition decimal_uuid :: uuid_lib where
  "decimal_uuid = \<lparr>uuid_String = (\<lambda>u. show_nat (unat u)),
     uuid_Parse = (\<lambda>s. case parse_unsigned s of
        Some n \<Rightarrow> if n < 2 ^ 128 then Inr (of_nat n) else Inl ''invalid UUID length''
      | None \<Rightarrow> Inl ''invalid UUID length'')\<rparr>"

lemma uuid_laws_decimal: "uuid_laws decimal_uuid"
proof -
  have "unat u < 2 ^ 128" for u :: uuid
    using unsigned_less [of u] by simp
  then show ?thesis
    using show_nat_digits
    by (fastforce simp: uuid_laws_def decimal_uuid_def parse_unsigned_def digits_value_show_nat is_ascii_def
        is_digit_def list_all_iff)
qed

interpretation redis: redis_client decimal_uuid redis_reference rs_clock server_moves
  entry_until "\<lambda>k r. rs_entries r k \<noteq> None"
proof
  have ms: "0 < ttl \<Longrightarrow> ttl - millisecond \<le> expiry_ms ttl" for ttl
    by (simp add: expiry_ms_def millisecond_def) presburger
  show "rd_Set redis_reference k v ttl r = (None, r') \<Longrightarrow> 0 < ttl \<Longrightarrow>
      entry_until k (rs_clock r + ttl - millisecond) r'" for k v ttl r r'
    using ms [of ttl] by (auto simp: redis_reference_def server_Set_def entry_until_def split: if_splits)
qed (auto simp: uuid_laws_decimal redis_reference_def server_Set_def server_Get_def entry_until_def
    server_moves_def split: option.splits if_splits prod.splits)

end
