(* ===== verification/Main_Server.thy ===== *)
theory Main_Server
  imports Handlers_Router Server Startup_Services DB_Migrate Config_DotEnv Config_Logging Queue_Sessions
begin

text \<open>
  \<open>cmd/server/main.go\<close>: the startup, in order, and what is released on every way out. The record
  \<open>surroundings\<close> is what the process meets: the environment and the \<open>.env\<close> library, the two
  clients, the database and its migrations, the listener and the events of the server's life.
\<close>

subsection \<open>What the process meets\<close>

record 'd surroundings =
  su_environ :: environ
  su_godotenv :: "gostring \<Rightarrow> environ \<Rightarrow> (gostring, environ) result"
  su_stat :: "gostring \<Rightarrow> stat_result"
  su_getwd :: "(gostring, gostring) result"
  su_pgxParse :: "gostring \<Rightarrow> pool_config option"
  su_pgxNew :: "pool_config \<Rightarrow> gostring option"
  su_poolPing :: ping
  su_redisParse :: "gostring \<Rightarrow> unit option"
  su_redisPing :: ping
  su_cancelled :: "time option"
  su_timerFirst :: "nat \<Rightarrow> bool"
  su_dbTime :: time
  su_redisTime :: time
  su_sha256 :: "gostring \<Rightarrow> gostring"
  su_migrations :: fsys
  su_migrateEnv :: "'d run_env"
  su_column :: query_outcome
  su_bcrypt :: bcrypt
  su_salt :: nat
  su_listen :: "(gostring, gostring) result"
  su_ctxDone :: bool
  su_events :: "server_event list"
  su_redisClose :: "gostring option"

datatype main_error =
    LoadingDotEnv dotenv_error
  | InvalidConfig ConfigValidationError
  | ConnectingDatabase pool_error
  | RunningMigrations migrate_error
  | EmbeddingWidth embedding_error
  | ConnectingRedis redis_connect_error
  | ConfiguringHasher password_error
  | ConfiguringTokens token_error
  | ServingHTTP server_error

text \<open>What a run does to the outside, in order.\<close>

datatype main_event =
    PoolEvent client_event
  | RedisEvent client_event
  | LoggedConfig slog_value
  | LoggedMigrations nat
  | Served "server_call list"
  | Stopped
  | LoggedRedisClose gostring

datatype 'a exit = Exited 'a | StillServing

subsection \<open>main.go\<close>

definition os_Getenv :: "environ \<Rightarrow> gostring \<Rightarrow> gostring" where
  "os_Getenv env k = (case env k of None \<Rightarrow> [] | Some v \<Rightarrow> v)"

text \<open>The dependencies of the router; the probes turn the answers of the two clients into results.\<close>

definition ping_check :: "gostring \<Rightarrow> (duration \<Rightarrow> gostring option \<times> duration) \<Rightarrow> Check" where
  "ping_check name ping =
     \<lparr>hc_Name = name, hc_Probe = (\<lambda>timeout. case ping timeout of
        (None, took) \<Rightarrow> (ProbeOK, took) | (Some e, took) \<Rightarrow> (ProbeFailed e, took))\<rparr>"

definition router_deps ::
  "Config \<Rightarrow> gostring \<Rightarrow> 'u user_ops \<Rightarrow> 's session_ops \<Rightarrow> Hasher \<Rightarrow> Tokens
    \<Rightarrow> (duration \<Rightarrow> gostring option \<times> duration) \<Rightarrow> (duration \<Rightarrow> gostring option \<times> duration) \<Rightarrow> ('u, 's) Deps" where
  "router_deps cfg version users sessions hasher tokens poolPing redisPing =
     \<lparr>dp_Config = cfg_Server cfg,
      dp_Version = version,
      dp_HealthChecks = [ping_check ''postgres'' poolPing,
        ping_check ''redis'' (\<lambda>timeout. (queue_Ping (fst (redisPing timeout)), snd (redisPing timeout)))],
      dp_Users = Some users,
      dp_Sessions = Some sessions,
      dp_Hasher = hasher,
      dp_Tokens = Some tokens,
      dp_SecureCookies = IsProduction (cfg_Env cfg),
      dp_ProtectedRoutes = []\<rparr>"

text \<open>\<open>server.New(...).Run(ctx)\<close>: the state after the events so far.\<close>

fun server_after :: "Server \<Rightarrow> server_event list \<Rightarrow> server_state \<Rightarrow> server_state" where
  "server_after s [] st = st"
| "server_after s (ev # evs) st =
     (case server_step s ev st of None \<Rightarrow> server_after s evs st | Some st' \<Rightarrow> server_after s evs st')"

text \<open>
  The parts of \<open>run\<close> under each deferred release. \<open>trace\<close> is what happened before; a function
  returns how \<open>run\<close> ends (with an error, or none) and the trace to then.
\<close>

definition run_server ::
  "'d surroundings \<Rightarrow> Config \<Rightarrow> main_event list \<Rightarrow> main_error option exit \<times> main_event list" where
  "run_server su cfg trace =
     (case NewHasher (su_bcrypt su) (su_salt su) (ac_BcryptCost (cfg_Auth cfg)) of
        Inl e \<Rightarrow> (Exited (Some (ConfiguringHasher e)), trace)
      | Inr hasher \<Rightarrow>
          (case NewTokens (cfg_Auth cfg) of
             Inl e \<Rightarrow> (Exited (Some (ConfiguringTokens e)), trace)
           | Inr tokens \<Rightarrow>
               (let s = New (cfg_Server cfg);
                    st = server_after s (su_events su) (Run_start s (su_listen su) (su_ctxDone su) \<lparr>w_log = []\<rparr>);
                    trace = trace @ [Served (ss_calls st)]
                in case ss_phase st of
                     Finished (Some e) \<Rightarrow> (Exited (Some (ServingHTTP e)), trace)
                   | Finished None \<Rightarrow> (Exited None, trace @ [Stopped])
                   | _ \<Rightarrow> (StillServing, trace))))"

definition release ::
  "main_event list \<Rightarrow> main_error option exit \<times> main_event list \<Rightarrow> main_error option exit \<times> main_event list" where
  "release evs res = (case res of (StillServing, trace) \<Rightarrow> (StillServing, trace) | (out, trace) \<Rightarrow> (out, trace @ evs))"

definition closing_redis :: "'d surroundings \<Rightarrow> main_event list" where
  "closing_redis su = RedisEvent ClientClosed # (case su_redisClose su of None \<Rightarrow> [] | Some e \<Rightarrow> [LoggedRedisClose e])"

definition run_services ::
  "'d surroundings \<Rightarrow> Config \<Rightarrow> 'd database \<Rightarrow> main_event list \<Rightarrow> (main_error option exit \<times> main_event list) \<times> 'd database" where
  "run_services su cfg db trace =
     (case Migrate (su_sha256 su) (su_migrateEnv su) (su_migrations su) db of
        (Inl e, db) \<Rightarrow> ((Exited (Some (RunningMigrations e)), trace), db)
      | (Inr applied, db) \<Rightarrow>
          (let trace = trace @ [LoggedMigrations (length applied)]
           in case VerifyEmbeddingDimensions (su_column su) (ai_EmbeddingDimensions (cfg_AI cfg)) of
                Some e \<Rightarrow> ((Exited (Some (EmbeddingWidth e)), trace), db)
              | None \<Rightarrow>
                  (case queue_Connect (su_redisParse su) (su_redisPing su) (su_cancelled su) (su_timerFirst su)
                          (cfg_Redis cfg) (su_redisTime su) of
                     (Inl e, evs) \<Rightarrow> ((Exited (Some (ConnectingRedis e)), trace @ map RedisEvent evs), db)
                   | (Inr _, evs) \<Rightarrow>
                       (release (closing_redis su) (run_server su cfg (trace @ map RedisEvent evs)), db))))"

definition run_configured ::
  "'d surroundings \<Rightarrow> Config \<Rightarrow> 'd database \<Rightarrow> (main_error option exit \<times> main_event list) \<times> 'd database" where
  "run_configured su cfg db =
     (let trace = [LoggedConfig (Config_LogValue cfg)]
      in case db_Connect (su_pgxParse su) (su_pgxNew su) (su_poolPing su) (su_cancelled su) (su_timerFirst su)
                (cfg_Database cfg) (su_dbTime su) of
           (Inl e, evs) \<Rightarrow> ((Exited (Some (ConnectingDatabase e)), trace @ map PoolEvent evs), db)
         | (Inr _, evs) \<Rightarrow>
             (let (res, db) = run_services su cfg db (trace @ map PoolEvent evs)
              in (release [PoolEvent ClientClosed] res, db)))"

definition run :: "'d surroundings \<Rightarrow> 'd database \<Rightarrow> (main_error option exit \<times> main_event list) \<times> 'd database" where
  "run su db =
     (case LoadDotEnv (su_godotenv su) (su_stat su) (su_getwd su) (su_environ su) of
        Inl e \<Rightarrow>
          if e = ErrNoDotEnv then
            (case Load (os_Getenv (su_environ su)) of
               Inl err \<Rightarrow> ((Exited (Some (InvalidConfig err)), []), db)
             | Inr cfg \<Rightarrow> run_configured su cfg db)
          else ((Exited (Some (LoadingDotEnv e)), []), db)
      | Inr (path, env) \<Rightarrow>
          (case Load (os_Getenv env) of
             Inl err \<Rightarrow> ((Exited (Some (InvalidConfig err)), []), db)
           | Inr cfg \<Rightarrow> run_configured su cfg db))"

subsection \<open>Ways out\<close>

text \<open>
  The environment that \<open>Load\<close> reads: the one of the process, with what \<open>.env\<close> has put into it when
  there is such a file; none when looking for the file or reading it has failed.
\<close>

definition startup_environ :: "'d surroundings \<Rightarrow> environ option" where
  "startup_environ su =
     (case LoadDotEnv (su_godotenv su) (su_stat su) (su_getwd su) (su_environ su) of
        Inl e \<Rightarrow> if e = ErrNoDotEnv then Some (su_environ su) else None
      | Inr (path, env) \<Rightarrow> Some env)"

lemma run_cases:
  obtains (no_config) e where "run su db = ((Exited (Some e), []), db)"
      "(\<exists>x. e = LoadingDotEnv x) \<or> (\<exists>x. e = InvalidConfig x)"
  | (configured) env cfg where "startup_environ su = Some env" "Load (os_Getenv env) = Inr cfg"
      "run su db = run_configured su cfg db"
proof (cases "startup_environ su")
  case None
  then show thesis
    using no_config by (auto simp: startup_environ_def run_def split: sum.splits if_splits)
next
  case (Some env)
  then have "run su db = (case Load (os_Getenv env) of
      Inl err \<Rightarrow> ((Exited (Some (InvalidConfig err)), []), db) | Inr cfg \<Rightarrow> run_configured su cfg db)"
    by (auto simp: startup_environ_def run_def split: sum.splits if_splits)
  with Some show thesis by (cases "Load (os_Getenv env)") (auto intro: no_config configured)
qed

text \<open>What \<open>Load\<close> has accepted, the constructors accept: neither of them is a way out.\<close>

lemma run_server_accepts:
  assumes "config_ok cfg" and "bcrypt_laws (su_bcrypt su)"
  obtains st tail where "run_server su cfg trace =
      ((case ss_phase st of Finished r \<Rightarrow> Exited (map_option ServingHTTP r) | _ \<Rightarrow> StillServing),
       trace @ Served (ss_calls st) # tail)"
    "tail = (if ss_phase st = Finished None then [Stopped] else [])"
    "st = server_after (New (cfg_Server cfg)) (su_events su)
       (Run_start (New (cfg_Server cfg)) (su_listen su) (su_ctxDone su) \<lparr>w_log = []\<rparr>)"
proof -
  obtain h where h: "NewHasher (su_bcrypt su) (su_salt su) (ac_BcryptCost (cfg_Auth cfg)) = Inr h"
    using NewHasher_succeeds [OF assms(2)] assms(1) by (auto simp: config_ok_def auth_ok_def)
  obtain t where t: "NewTokens (cfg_Auth cfg) = Inr t"
    using assms(1) by (simp add: result_iff config_ok_def auth_ok_def)
  define st where "st = server_after (New (cfg_Server cfg)) (su_events su)
       (Run_start (New (cfg_Server cfg)) (su_listen su) (su_ctxDone su) \<lparr>w_log = []\<rparr>)"
  show thesis
    by (rule that [of st "if ss_phase st = Finished None then [Stopped] else []"])
      (auto simp: run_server_def h t st_def [symmetric] Let_def split: server_phase.split option.split)
qed

text \<open>A trace in which a resource that was opened is closed again: the second list is what is still open.\<close>

fun still_open :: "main_event list \<Rightarrow> main_event list \<Rightarrow> main_event list option" where
  "still_open [] opened = Some opened"
| "still_open (PoolEvent ClientOpened # evs) opened = still_open evs (PoolEvent ClientOpened # opened)"
| "still_open (RedisEvent ClientOpened # evs) opened = still_open evs (RedisEvent ClientOpened # opened)"
| "still_open (PoolEvent ClientClosed # evs) opened =
     (case opened of PoolEvent ClientOpened # rest \<Rightarrow> still_open evs rest | _ \<Rightarrow> None)"
| "still_open (RedisEvent ClientClosed # evs) opened =
     (case opened of RedisEvent ClientOpened # rest \<Rightarrow> still_open evs rest | _ \<Rightarrow> None)"
| "still_open (_ # evs) opened = still_open evs opened"

lemma still_open_append:
  "still_open (xs @ ys) opened = (case still_open xs opened of None \<Rightarrow> None | Some o' \<Rightarrow> still_open ys o')"
  by (induction xs opened rule: still_open.induct) (auto split: list.split main_event.split client_event.split)

lemma release_trace:
  "snd (release evs res) = snd res @ (if fst res = StillServing then [] else evs)"
  "fst (release evs res) = fst res"
  by (auto simp: release_def split: prod.split exit.split)

lemma run_server_open: "still_open (snd (run_server su cfg trace)) opened = still_open trace opened"
  by (auto simp: run_server_def Let_def still_open_append split: sum.split server_phase.split option.split)

lemma queue_connect_open:
  assumes "queue_Connect pu ping c tf cfg now = (res, evs)"
  shows "still_open (map RedisEvent evs) opened =
    Some (case res of Inl _ \<Rightarrow> opened | Inr _ \<Rightarrow> RedisEvent ClientOpened # opened)"
  using queue_Connect_events [OF assms] by (auto split: sum.splits)

lemma db_connect_open:
  assumes "db_Connect pc nw ping c tf cfg now = (res, evs)"
  shows "still_open (map PoolEvent evs) opened =
    Some (case res of Inl _ \<Rightarrow> opened | Inr _ \<Rightarrow> PoolEvent ClientOpened # opened)"
  using db_Connect_events [OF assms] by (auto split: sum.splits)

lemma run_services_open:
  assumes "still_open trace [] = Some opened"
  shows "still_open (snd (fst (run_services su cfg db trace))) [] =
    Some (if fst (fst (run_services su cfg db trace)) = StillServing then RedisEvent ClientOpened # opened else opened)"
proof -
  obtain res db' where mig: "Migrate (su_sha256 su) (su_migrateEnv su) (su_migrations su) db = (res, db')"
    by fastforce
  show ?thesis
  proof (cases res)
    case (Inr applied)
    obtain qres evs where q: "queue_Connect (su_redisParse su) (su_redisPing su) (su_cancelled su) (su_timerFirst su)
        (cfg_Redis cfg) (su_redisTime su) = (qres, evs)" by fastforce
    show ?thesis
      by (cases "VerifyEmbeddingDimensions (su_column su) (ai_EmbeddingDimensions (cfg_AI cfg))"; cases qres)
        (simp_all add: run_services_def mig Inr q Let_def still_open_append assms queue_connect_open [OF q]
          release_trace run_server_open closing_redis_def split: option.split)
  qed (simp add: run_services_def mig assms)
qed

text \<open>Whenever the process ends, every client that was opened has been closed, the last one first.\<close>

lemma run_configured_open:
  "still_open (snd (fst (run_configured su cfg db))) [] =
    Some (if fst (fst (run_configured su cfg db)) = StillServing
          then [RedisEvent ClientOpened, PoolEvent ClientOpened] else [])"
proof -
  obtain res evs where db: "db_Connect (su_pgxParse su) (su_pgxNew su) (su_poolPing su) (su_cancelled su)
      (su_timerFirst su) (cfg_Database cfg) (su_dbTime su) = (res, evs)" by fastforce
  show ?thesis
  proof (cases res)
    case (Inr p)
    define trace where "trace = [LoggedConfig (Config_LogValue cfg)] @ map PoolEvent evs"
    have "still_open trace [] = Some [PoolEvent ClientOpened]"
      by (simp add: trace_def db_connect_open [OF db] Inr)
    from run_services_open [OF this, of su cfg db] show ?thesis
      by (simp add: run_configured_def db Inr Let_def split_beta release_trace trace_def still_open_append
          split: if_splits)
  qed (simp add: run_configured_def db still_open_append db_connect_open [OF db])
qed

text \<open>The server in \<open>run\<close> is in a state that its machine can reach.\<close>

lemma server_after_run: "\<exists>evs'. server_run s st evs' (server_after s evs st)"
proof (induction s evs st rule: server_after.induct)
  case (1 s st)
  show ?case by (auto intro: run_none)
next
  case (2 s ev evs st)
  then show ?case by (cases "server_step s ev st") (auto intro: run_event)
qed

text \<open>Reaching the server takes every earlier step to have succeeded.\<close>

lemma run_server_served:
  assumes "Served calls \<in> set (snd (run_server su cfg trace))" and "\<forall>c. Served c \<notin> set trace"
  shows "calls = ss_calls (server_after (New (cfg_Server cfg)) (su_events su)
    (Run_start (New (cfg_Server cfg)) (su_listen su) (su_ctxDone su) \<lparr>w_log = []\<rparr>))"
  using assms by (auto simp: run_server_def Let_def split: sum.splits server_phase.splits option.splits)

lemma run_services_served:
  assumes "Served calls \<in> set (snd (fst (run_services su cfg db trace)))" and "\<forall>c. Served c \<notin> set trace"
  obtains applied evs where "Migrate (su_sha256 su) (su_migrateEnv su) (su_migrations su) db =
      (Inr applied, snd (run_services su cfg db trace))"
    "VerifyEmbeddingDimensions (su_column su) (ai_EmbeddingDimensions (cfg_AI cfg)) = None"
    "queue_Connect (su_redisParse su) (su_redisPing su) (su_cancelled su) (su_timerFirst su)
        (cfg_Redis cfg) (su_redisTime su) = (Inr (), evs)"
    "calls = ss_calls (server_after (New (cfg_Server cfg)) (su_events su)
       (Run_start (New (cfg_Server cfg)) (su_listen su) (su_ctxDone su) \<lparr>w_log = []\<rparr>))"
proof -
  obtain res db' where mig: "Migrate (su_sha256 su) (su_migrateEnv su) (su_migrations su) db = (res, db')"
    by fastforce
  obtain qres evs where q: "queue_Connect (su_redisParse su) (su_redisPing su) (su_cancelled su) (su_timerFirst su)
        (cfg_Redis cfg) (su_redisTime su) = (qres, evs)" by fastforce
  have before: "\<exists>applied. res = Inr applied"
      "VerifyEmbeddingDimensions (su_column su) (ai_EmbeddingDimensions (cfg_AI cfg)) = None" "qres = Inr ()"
    using assms mig q
    by (cases res; cases "VerifyEmbeddingDimensions (su_column su) (ai_EmbeddingDimensions (cfg_AI cfg))"; cases qres;
        auto simp: run_services_def)+
  then obtain applied where res: "res = Inr applied" by blast
  define trace' where "trace' = (trace @ [LoggedMigrations (length applied)]) @ map RedisEvent evs"
  have run: "run_services su cfg db trace = (release (closing_redis su) (run_server su cfg trace'), db')"
    by (simp add: run_services_def mig q res before(2,3) trace'_def)
  have "Served calls \<in> set (snd (run_server su cfg trace'))"
    using assms(1) unfolding run by (auto simp: release_trace closing_redis_def split: if_splits option.splits)
  then have "calls = ss_calls (server_after (New (cfg_Server cfg)) (su_events su)
       (Run_start (New (cfg_Server cfg)) (su_listen su) (su_ctxDone su) \<lparr>w_log = []\<rparr>))"
    by (rule run_server_served) (use assms(2) in \<open>auto simp: trace'_def\<close>)
  then show thesis using that [of applied evs] before mig q by (simp add: run res)
qed

end
