(* ===== verification/Session_Safety.thy ===== *)
theory Session_Safety
  imports Handlers_Auth Queue_Sessions
begin

text \<open>
  What the authentication handlers guarantee across requests, over any stores that keep the
  interfaces: a refresh token is used once, a logged-out one not at all, and an account that was
  registered can log in and cannot be registered again.
\<close>

subsection \<open>Refresh tokens\<close>

text \<open>\<open>presents lb h r now claims i\<close>: the request carries a refresh token with these claims and id.\<close>

definition presents :: "lib \<Rightarrow> ('u, 's) AuthHandler \<Rightarrow> request \<Rightarrow> time \<Rightarrow> claims \<Rightarrow> uuid \<Rightarrow> bool" where
  "presents lb h r now claims i \<longleftrightarrow>
     (\<exists>cookie. request_cookie r RefreshCookieName = Some cookie
        \<and> ParseRefresh (lb_jwt lb) (lb_uuid lb) (ah_tokens h) now cookie = Inr claims)
     \<and> uuid_Parse (lb_uuid lb) (cl_ID claims) = Inr i"

lemma Refresh_presents:
  assumes "encodes_errors lb" and "unsent rw" and "status_of (Refresh lb h d r w rw) = Some 200"
  obtains claims i where "presents lb h r (dr_parse d) claims i"
    "so_IsRevoked (ah_sessions h) i (aw_sessions w) = Inr False"
    "so_Revoke (ah_sessions h) i (remainingLife (dr_life d) claims) (aw_sessions w) =
       (None, aw_sessions (final_world (Refresh lb h d r w rw)))"
proof (rule Refresh_session [OF assms])
  fix cookie claims i u v ss pair
  assume "request_cookie r RefreshCookieName = Some cookie"
    and "ParseRefresh (lb_jwt lb) (lb_uuid lb) (ah_tokens h) (dr_parse d) cookie = Inr claims"
    and "uuid_Parse (lb_uuid lb) (cl_ID claims) = Inr i"
    and "so_IsRevoked (ah_sessions h) i (aw_sessions w) = Inr False"
    and "so_Revoke (ah_sessions h) i (remainingLife (dr_life d) claims) (aw_sessions w) = (None, ss)"
    and "aw_sessions (final_world (Refresh lb h d r w rw)) = ss"
  then show thesis by (intro that) (auto simp: presents_def)
qed

lemma presents_same:
  assumes "jwt_laws (lb_jwt lb)" and "presents lb h r now claims i" and "presents lb h r' now' claims' i'"
    and "request_cookie r' RefreshCookieName = request_cookie r RefreshCookieName"
  shows "claims' = claims \<and> i' = i"
proof -
  from assms(2-4) obtain cookie where
    "parse (lb_jwt lb) (lb_uuid lb) (ah_tokens h) now cookie TokenRefresh = Inr claims"
    "parse (lb_jwt lb) (lb_uuid lb) (ah_tokens h) now' cookie TokenRefresh = Inr claims'"
    by (auto simp only: presents_def ParseRefresh_def option.inject)
  then have "claims' = claims" by (rule parse_deterministic [OF assms(1)])
  with assms(2,3) show ?thesis by (simp add: presents_def)
qed

text \<open>A token that has expired is not refreshed, whatever was revoked.\<close>

lemma expired_not_refreshed:
  assumes "encodes_errors lb" "unsent rw" and "jwt_laws (lb_jwt lb)" and "presents lb h r0 now0 claims i"
    and "cl_ExpiresAt claims = Some e" and "e \<le> dr_parse d"
    and "request_cookie r RefreshCookieName = request_cookie r0 RefreshCookieName"
  shows "status_of (Refresh lb h d r w rw) \<noteq> Some 200"
proof
  assume "status_of (Refresh lb h d r w rw) = Some 200"
  then obtain claims' i' where p: "presents lb h r (dr_parse d) claims' i'"
    by (rule Refresh_presents [OF assms(1,2)])
  with presents_same [OF assms(3,4) p assms(7)] have "claims_verified (lb_uuid lb) (dr_parse d) TokenRefresh claims"
    using parse_verified [OF assms(3)] by (auto simp: presents_def ParseRefresh_def)
  with assms(5,6) show False by (simp add: claims_verified_def)
qed

context session_store
begin

text \<open>
  A refresh with a token that was withdrawn is not answered with a session, as long as the
  withdrawal lasts.
\<close>

lemma withdrawn_not_refreshed:
  assumes "encodes_errors lb" "unsent rw" and "jwt_laws (lb_jwt lb)" and "ah_sessions h = ops"
    and "so_Revoke ops i ttl s = (None, s1)" and "evolves ops environment allowed s1 (aw_sessions w)"
    and "\<forall>ttl' u. allowed i ttl' u \<longrightarrow> now_of s + ttl \<le> now_of u + ttl'"
    and "now_of (aw_sessions w) + millisecond < now_of s + ttl"
    and "presents lb h r0 now0 claims i"
    and "request_cookie r RefreshCookieName = request_cookie r0 RefreshCookieName"
  shows "status_of (Refresh lb h d r w rw) \<noteq> Some 200"
proof
  assume "status_of (Refresh lb h d r w rw) = Some 200"
  then obtain claims' i' where
    "presents lb h r (dr_parse d) claims' i'" and good: "so_IsRevoked ops i' (aw_sessions w) = Inr False"
    by (rule Refresh_presents [OF assms(1,2)]) (auto simp: assms(4))
  with presents_same [OF assms(3) assms(9) _ assms(10)] have "i' = i" by blast
  with good stays_revoked [OF assms(5,6) _ assms(8)] assms(7) show False by blast
qed

lemma refresh_once:
  assumes "encodes_errors lb" "unsent rw" "unsent rw'" and "jwt_laws (lb_jwt lb)" and "ah_sessions h = ops"
    and "status_of (Refresh lb h d r w rw) = Some 200" and "presents lb h r (dr_parse d) claims i"
    and "evolves ops environment allowed (aw_sessions (final_world (Refresh lb h d r w rw))) (aw_sessions w')"
    and "\<forall>ttl u. allowed i ttl u \<longrightarrow>
      now_of (aw_sessions w) + remainingLife (dr_life d) claims \<le> now_of u + ttl"
    and "now_of (aw_sessions w') + millisecond < now_of (aw_sessions w) + remainingLife (dr_life d) claims"
    and "request_cookie r' RefreshCookieName = request_cookie r RefreshCookieName"
  shows "status_of (Refresh lb h d' r' w' rw') \<noteq> Some 200"
proof -
  obtain claims' i' where p: "presents lb h r (dr_parse d) claims' i'"
    and rev: "so_Revoke ops i' (remainingLife (dr_life d) claims') (aw_sessions w) =
      (None, aw_sessions (final_world (Refresh lb h d r w rw)))"
    by (rule Refresh_presents [OF assms(1,2,6)]) (auto simp: assms(5))
  with presents_same [OF assms(4,7) p refl] have "i' = i" "claims' = claims" by simp_all
  with rev show ?thesis
    using withdrawn_not_refreshed [OF assms(1,3,4,5) _ assms(8-10) assms(7) assms(11)] by simp
qed

lemma logout_ends_session:
  assumes "encodes_errors lb" "unsent rw" "unsent rw'" and "jwt_laws (lb_jwt lb)" and "ah_sessions h = ops"
    and "status_of (Logout lb h d r w rw) = Some 204" and "presents lb h r (dr_parse d) claims i"
    and "evolves ops environment allowed (aw_sessions (final_world (Logout lb h d r w rw))) (aw_sessions w')"
    and "\<forall>ttl u. allowed i ttl u \<longrightarrow>
      now_of (aw_sessions w) + remainingLife (dr_life d) claims \<le> now_of u + ttl"
    and "now_of (aw_sessions w') + millisecond < now_of (aw_sessions w) + remainingLife (dr_life d) claims"
    and "request_cookie r' RefreshCookieName = request_cookie r RefreshCookieName"
  shows "status_of (Refresh lb h d' r' w' rw') \<noteq> Some 200"
proof -
  from assms(7) obtain cookie where "request_cookie r RefreshCookieName = Some cookie"
    "ParseRefresh (lb_jwt lb) (lb_uuid lb) (ah_tokens h) (dr_parse d) cookie = Inr claims"
    "uuid_Parse (lb_uuid lb) (cl_ID claims) = Inr i"
    by (auto simp: presents_def)
  from Logout_revokes [OF assms(1,2) this assms(6)]
  show ?thesis
    using withdrawn_not_refreshed [OF assms(1,3,4,5) _ assms(8-10) assms(7) assms(11)]
    by (simp add: assms(5))
qed

end

subsection \<open>Accounts\<close>

context user_store
begin

text \<open>After a registration, the same address and password log in, if the services answer.\<close>

lemma register_then_login:
  assumes "encodes_errors lb" "unsent rw" "unsent rw'" and "ah_users h = ops" and "inv (aw_users w)"
    and "bcrypt_laws (lb_bcrypt lb)" "hasher_ok (lb_bcrypt lb) (ah_hasher h)"
    and "status_of (Register lb rdec h d r w rw) = Some 201" and "DecodeJSON lb rdec r = Inr req"
    and "aw_users w' = aw_users (final_world (Register lb rdec h d r w rw))"
    and "DecodeJSON lb ldec r' = Inr lreq" and "norm (lr_Email lreq) = norm (rr_Email req)"
    and "lr_Password lreq = rr_Password req"
  shows "status_of (Login lb ldec h d' r' w' rw') = Some 200 \<or> status_of (Login lb ldec h d' r' w' rw') = Some 500"
proof (rule Register_session [OF assms(1,2,8)])
  fix req' hash t v us pair
  assume "DecodeJSON lb rdec r = Inr req'" and "registration_ok req'"
    and hash: "Hash (lb_bcrypt lb) (dr_salt d) (ah_hasher h) (rr_Password req') = Inr hash"
    and create: "uo_Create (ah_users h) (rr_TeamName req') (new_account req' hash) (aw_users w) = (Inr (t, v), us)"
    and us: "aw_users (final_world (Register lb rdec h d r w rw)) = us"
  with assms(9) have req: "req' = req" by simp
  have w': "aw_users w' = us" using assms(10) us by simp
  note create = create [unfolded assms(4) req]
  have email: "norm (lr_Email lreq) = norm (user_Email (new_account req hash))"
    using assms(12) by (simp add: new_account_def)
  have stored: "user_PasswordHash v = hash"
    using create_ok [OF assms(5) create] by (simp add: new_account_def)
  have "Verify (lb_bcrypt lb) hash (lr_Password lreq) = (None, [hash])"
    using Hash_result(1) [OF assms(6,7) hash] by (simp add: req assms(13))
  from created_found [OF assms(5) create email]
  show ?thesis
  proof
    assume v: "uo_FindByEmail ops (lr_Email lreq) us = Inr v"
    obtain w'' where log: "Login lb ldec h d' r' w' rw' =
        returned (respondWithSession lb h d' r' 200 v (zero_Team\<lparr>team_ID := user_TeamID v\<rparr>) w'' rw')"
      using v \<open>Verify _ _ _ = _\<close> by (auto simp: Login_def assms(4,11) w' stored Let_def)
    note cases = respondWithSession_cases [OF assms(1,3), where status = 200 and h = h and d = d'
        and r = r' and user = v and team = "zero_Team\<lparr>team_ID := user_TeamID v\<rparr>" and w = w'']
    show ?thesis
    proof (rule cases)
      fix pair b
      assume "respondWithSession lb h d' r' 200 v (zero_Team\<lparr>team_ID := user_TeamID v\<rparr>) w'' rw' =
        (w'', writeRaw 200 (b @ [CHR 0x0A]) (setRefreshCookie h pair rw'))"
      then show ?thesis by (simp add: log session_response(1) [OF assms(3)])
    qed (simp_all add: log)
  next
    assume "\<exists>err. err \<noteq> NotFound \<and> uo_FindByEmail ops (lr_Email lreq) us = Inl err"
    then obtain err where "err \<noteq> NotFound" "uo_FindByEmail ops (lr_Email lreq) us = Inl err" by blast
    then show ?thesis
      by (cases err) (simp_all add: Login_def assms(4,11) w' error_responses [OF assms(1,3)])
  qed
qed

text \<open>An address that has an account cannot be registered.\<close>

lemma taken_address:
  assumes "encodes_errors lb" "unsent rw" and "ah_users h = ops" and "inv (aw_users w)"
    and "DecodeJSON lb rdec r = Inr req" and "v \<in> accounts (aw_users w)" and "user_Email v = norm (rr_Email req)"
  shows "status_of (Register lb rdec h d r w rw) \<noteq> Some 201"
proof
  assume "status_of (Register lb rdec h d r w rw) = Some 201"
  then show False
  proof (rule Register_session [OF assms(1,2)])
    fix req' hash t v' us
    assume "DecodeJSON lb rdec r = Inr req'"
      and c: "uo_Create (ah_users h) (rr_TeamName req') (new_account req' hash) (aw_users w) = (Inr (t, v'), us)"
    then have "req' = req" using assms(5) by simp
    with no_second_account [OF assms(4,6), of "new_account req hash" "rr_TeamName req"] c assms(3,7)
    show False by (auto simp: new_account_def)
  qed
qed

end

end
