(* ===== verification/SQL_Incidents.thy ===== *)
theory SQL_Incidents
  imports Repository_User Models_Incident
begin

text \<open>
  The table \<open>incidents\<close> of \<open>migrations/0003_incidents.sql\<close> and the statements that
  \<open>internal/repository/incident.go\<close> runs on it. The repository builds two of its statements at run
  time, numbering the placeholders as it appends arguments; here such a statement is its list of
  conditions or assignments, with the numbers, and is executed on the argument list.

  Instants are stored in microseconds; \<open>idb_json\<close> is what the server keeps of a JSON object, if it
  accepts it; \<open>idb_fault\<close> and \<open>idb_kept\<close> are the failures of the connection, as for the accounts.
\<close>

subsection \<open>The table\<close>

datatype incident_site =
  AtCreate | AtGet | AtFindExternal | AtQuery | AtScan nat | AtRows | AtUpdate | AtDelete

record incident_db =
  idb_teams :: "uuid list"
  idb_rows :: "Incident list"
  idb_uuid :: "nat \<Rightarrow> uuid"
  idb_next :: nat
  idb_now :: time
  idb_json :: "(gostring \<times> json) list \<Rightarrow> (gostring \<times> json) list option"
  idb_fault :: "incident_site \<Rightarrow> gostring option"
  idb_kept :: bool

definition pg_time :: "time \<Rightarrow> time" where
  "pg_time t = t - t mod 1000"

definition external_id_check :: "gostring option \<Rightarrow> bool" where
  "external_id_check x = (case x of None \<Rightarrow> True | Some e \<Rightarrow> 0 < rune_count (btrim e))"

definition title_check :: "gostring \<Rightarrow> bool" where
  "title_check s \<longleftrightarrow> 1 \<le> rune_count (btrim s) \<and> rune_count (btrim s) \<le> 500"

definition severity_check :: "gostring \<Rightarrow> bool" where
  "severity_check s \<longleftrightarrow> s \<in> {''P1'', ''P2'', ''P3'', ''P4''}"

definition status_check :: "gostring \<Rightarrow> bool" where
  "status_check s \<longleftrightarrow> s \<in> {''open'', ''processing'', ''analysis_ready'', ''resolved''}"

definition source_check :: "gostring \<Rightarrow> bool" where
  "source_check s \<longleftrightarrow> s \<in> {''manual'', ''pagerduty'', ''datadog'', ''slack'', ''simulation''}"

definition resolved_after_start :: "time \<Rightarrow> time option \<Rightarrow> bool" where
  "resolved_after_start s r = (case r of None \<Rightarrow> True | Some t \<Rightarrow> s \<le> t)"

definition incident_checks :: "Incident \<Rightarrow> bool" where
  "incident_checks r \<longleftrightarrow> external_id_check (inc_ExternalID r) \<and> title_check (inc_Title r)
     \<and> severity_check (inc_Severity r) \<and> status_check (inc_Status r) \<and> source_check (inc_Source r)
     \<and> resolved_after_start (inc_StartedAt r) (inc_ResolvedAt r)"

definition incident_texts :: "Incident \<Rightarrow> gostring list" where
  "incident_texts r = (case inc_ExternalID r of None \<Rightarrow> [] | Some e \<Rightarrow> [e])
     @ [inc_Title r, inc_Description r, inc_Severity r, inc_Status r, inc_Source r]"

text \<open>The partial unique index on \<open>(team_id, external_id)\<close>.\<close>

definition external_key :: "Incident \<Rightarrow> (uuid \<times> gostring) option" where
  "external_key r = map_option (Pair (inc_TeamID r)) (inc_ExternalID r)"

text \<open>
  A statement of its own transaction: when the connection fails, the change may or may not have
  been made.
\<close>

definition autocommit ::
  "incident_site \<Rightarrow> (sql_error, 'a \<times> incident_db) result \<Rightarrow> incident_db \<Rightarrow> (sql_error, 'a) result \<times> incident_db" where
  "autocommit site res db =
     (case idb_fault db site of
        Some e \<Rightarrow> (Inl (SqlError e),
           if idb_kept db then (case res of Inl _ \<Rightarrow> db | Inr (_, db') \<Rightarrow> db') else db)
      | None \<Rightarrow> (case res of Inl e \<Rightarrow> (Inl e, db) | Inr (x, db') \<Rightarrow> (Inr x, db')))"

definition stored_row :: "uuid \<Rightarrow> time \<Rightarrow> (gostring \<times> json) list \<Rightarrow> Incident \<Rightarrow> Incident" where
  "stored_row i now meta v = v\<lparr>inc_ID := i, inc_StartedAt := pg_time (inc_StartedAt v),
     inc_ResolvedAt := map_option pg_time (inc_ResolvedAt v), inc_Embedding := [],
     inc_Metadata := Some meta, inc_CreatedAt := now, inc_UpdatedAt := now\<rparr>"

definition insertIncident :: "Incident \<Rightarrow> incident_db \<Rightarrow> (sql_error, Incident \<times> incident_db) result" where
  "insertIncident v db =
     (if \<not> list_all pg_text (incident_texts v) then Inl (SqlError ''invalid byte sequence for encoding'')
      else
        case idb_json db (case inc_Metadata v of None \<Rightarrow> [] | Some m \<Rightarrow> m) of
          None \<Rightarrow> Inl (SqlError ''invalid input syntax for type json'')
        | Some meta \<Rightarrow>
            let i = idb_uuid db (idb_next db);
                r = stored_row i (idb_now db) meta v
            in if \<not> incident_checks r then Inl (SqlError ''violates check constraint'')
               else if i \<in> inc_ID ` set (idb_rows db)
                  \<or> (external_key r \<noteq> None \<and> external_key r \<in> external_key ` set (idb_rows db))
               then Inl UniqueViolation
               else if inc_TeamID v \<notin> set (idb_teams db) then Inl (SqlError ''violates foreign key constraint'')
               else Inr (r, db\<lparr>idb_rows := idb_rows db @ [r], idb_next := Suc (idb_next db)\<rparr>))"

subsection \<open>Statements with numbered arguments\<close>

datatype sql_arg = ArgUuid uuid | ArgText gostring | ArgTexts "gostring list" | ArgInt int | ArgTime time

datatype column = ColTitle | ColDescription | ColSeverity | ColStatus | ColSource | ColResolvedAt

definition param :: "sql_arg list \<Rightarrow> nat \<Rightarrow> sql_arg option" where
  "param args n = (if 1 \<le> n \<and> n \<le> length args then Some (args ! (n - 1)) else None)"

fun arg_texts :: "sql_arg \<Rightarrow> gostring list" where
  "arg_texts (ArgText s) = [s]"
| "arg_texts (ArgTexts ss) = ss"
| "arg_texts _ = []"

definition args_encodable :: "sql_arg list \<Rightarrow> bool" where
  "args_encodable args \<longleftrightarrow> list_all (\<lambda>a. list_all pg_text (arg_texts a)) args"

datatype condition = TeamIs nat | AnyOf column nat

record select_query =
  sq_where :: "condition list"
  sq_limit :: nat
  sq_offset :: nat

fun column_text :: "column \<Rightarrow> Incident \<Rightarrow> gostring option" where
  "column_text ColTitle r = Some (inc_Title r)"
| "column_text ColDescription r = Some (inc_Description r)"
| "column_text ColSeverity r = Some (inc_Severity r)"
| "column_text ColStatus r = Some (inc_Status r)"
| "column_text ColSource r = Some (inc_Source r)"
| "column_text ColResolvedAt r = None"

text \<open>What a condition says of a row, when the arguments are there and have the right types.\<close>

fun condition_test :: "sql_arg list \<Rightarrow> condition \<Rightarrow> (Incident \<Rightarrow> bool) option" where
  "condition_test args (TeamIs n) =
     (case param args n of Some (ArgUuid t) \<Rightarrow> Some (\<lambda>r. inc_TeamID r = t) | _ \<Rightarrow> None)"
| "condition_test args (AnyOf col n) =
     (case param args n of
        Some (ArgTexts ss) \<Rightarrow> Some (\<lambda>r. case column_text col r of None \<Rightarrow> False | Some s \<Rightarrow> s \<in> set ss)
      | _ \<Rightarrow> None)"

fun conditions_test :: "sql_arg list \<Rightarrow> condition list \<Rightarrow> (Incident \<Rightarrow> bool) option" where
  "conditions_test args [] = Some (\<lambda>r. True)"
| "conditions_test args (c # cs) =
     (case condition_test args c of
        None \<Rightarrow> None
      | Some p \<Rightarrow> (case conditions_test args cs of None \<Rightarrow> None | Some q \<Rightarrow> Some (\<lambda>r. p r \<and> q r)))"

text \<open>\<open>ORDER BY started_at DESC, id DESC\<close>.\<close>

definition newer :: "Incident \<Rightarrow> Incident \<Rightarrow> bool" where
  "newer a b \<longleftrightarrow> inc_StartedAt b < inc_StartedAt a \<or> inc_StartedAt a = inc_StartedAt b \<and> inc_ID b < inc_ID a"

text \<open>Every row comes with \<open>count(*) OVER ()\<close>, the number of rows before the limit.\<close>

definition selectIncidents ::
  "select_query \<Rightarrow> sql_arg list \<Rightarrow> incident_db \<Rightarrow> (sql_error, (Incident \<times> int) list) result" where
  "selectIncidents q args db =
     (case idb_fault db AtQuery of
        Some e \<Rightarrow> Inl (SqlError e)
      | None \<Rightarrow>
          if \<not> args_encodable args then Inl (SqlError ''invalid byte sequence for encoding'')
          else
            (case (conditions_test args (sq_where q), param args (sq_limit q), param args (sq_offset q)) of
               (Some p, Some (ArgInt limit), Some (ArgInt offset)) \<Rightarrow>
                 if limit < 0 then Inl (SqlError ''LIMIT must not be negative'')
                 else if offset < 0 then Inl (SqlError ''OFFSET must not be negative'')
                 else
                   let rows = sortSlice (filter p (idb_rows db)) newer
                   in Inr (map (\<lambda>r. (r, int (length rows))) (take (nat limit) (drop (nat offset) rows)))
             | _ \<Rightarrow> Inl (SqlError ''there is no such parameter'')))"

datatype assignment = SetTo column nat | SetNull column

fun assign :: "sql_arg list \<Rightarrow> assignment \<Rightarrow> (Incident \<Rightarrow> Incident) option" where
  "assign args (SetTo col n) =
     (case (param args n, col) of
        (Some (ArgText s), ColTitle) \<Rightarrow> Some (\<lambda>r. r\<lparr>inc_Title := s\<rparr>)
      | (Some (ArgText s), ColDescription) \<Rightarrow> Some (\<lambda>r. r\<lparr>inc_Description := s\<rparr>)
      | (Some (ArgText s), ColSeverity) \<Rightarrow> Some (\<lambda>r. r\<lparr>inc_Severity := s\<rparr>)
      | (Some (ArgText s), ColStatus) \<Rightarrow> Some (\<lambda>r. r\<lparr>inc_Status := s\<rparr>)
      | (Some (ArgText s), ColSource) \<Rightarrow> Some (\<lambda>r. r\<lparr>inc_Source := s\<rparr>)
      | (Some (ArgTime t), ColResolvedAt) \<Rightarrow> Some (\<lambda>r. r\<lparr>inc_ResolvedAt := Some (pg_time t)\<rparr>)
      | _ \<Rightarrow> None)"
| "assign args (SetNull col) = (if col = ColResolvedAt then Some (\<lambda>r. r\<lparr>inc_ResolvedAt := None\<rparr>) else None)"

fun assign_all :: "sql_arg list \<Rightarrow> assignment list \<Rightarrow> (Incident \<Rightarrow> Incident) option" where
  "assign_all args [] = Some (\<lambda>r. r)"
| "assign_all args (a # as) =
     (case assign args a of
        None \<Rightarrow> None
      | Some f \<Rightarrow> (case assign_all args as of None \<Rightarrow> None | Some g \<Rightarrow> Some (\<lambda>r. g (f r))))"

text \<open>
  \<open>UPDATE ... WHERE id = $i AND team_id = $t RETURNING\<close>: the matching row, if there is one. The
  trigger of the table stamps \<open>updated_at\<close>.
\<close>

definition updateIncident ::
  "assignment list \<Rightarrow> nat \<Rightarrow> nat \<Rightarrow> sql_arg list \<Rightarrow> incident_db \<Rightarrow> (sql_error, Incident option \<times> incident_db) result" where
  "updateIncident as i t args db =
     (if \<not> args_encodable args then Inl (SqlError ''invalid byte sequence for encoding'')
      else
        case (assign_all args as, param args i, param args t) of
          (Some f, Some (ArgUuid wanted), Some (ArgUuid team)) \<Rightarrow>
            (case find (\<lambda>r. inc_ID r = wanted \<and> inc_TeamID r = team) (idb_rows db) of
               None \<Rightarrow> Inr (None, db)
             | Some r \<Rightarrow>
                 let r' = (f r)\<lparr>inc_UpdatedAt := idb_now db\<rparr>
                 in if \<not> incident_checks r' then Inl (SqlError ''violates check constraint'')
                    else Inr (Some r', db\<lparr>idb_rows :=
                      map (\<lambda>x. if inc_ID x = wanted \<and> inc_TeamID x = team then r' else x) (idb_rows db)\<rparr>))
        | _ \<Rightarrow> Inl (SqlError ''there is no such parameter''))"

definition deleteIncident :: "uuid \<Rightarrow> uuid \<Rightarrow> incident_db \<Rightarrow> (sql_error, nat \<times> incident_db) result" where
  "deleteIncident wanted team db =
     (let gone = (\<lambda>r. inc_ID r = wanted \<and> inc_TeamID r = team)
      in Inr (length (filter gone (idb_rows db)), db\<lparr>idb_rows := filter (\<lambda>r. \<not> gone r) (idb_rows db)\<rparr>))"

subsection \<open>Facts about the statements\<close>

lemma pg_time_mono: "s \<le> t \<Longrightarrow> pg_time s \<le> pg_time t"
proof -
  have "pg_time x = 1000 * (x div 1000)" for x
    by (simp add: pg_time_def minus_mod_eq_mult_div)
  then show "s \<le> t \<Longrightarrow> pg_time s \<le> pg_time t" by (simp add: zdiv_mono1)
qed

lemma pg_time_idem [simp]: "pg_time (pg_time t) = pg_time t"
  by (simp add: pg_time_def mod_diff_left_eq [symmetric])

lemma weak_order_newer: "weak_order newer"
  unfolding weak_order_def newer_def by auto

lemma newer_total: "inc_ID a \<noteq> inc_ID b \<Longrightarrow> newer a b \<or> newer b a"
  by (auto simp: newer_def)

lemma param_append: "1 \<le> n \<Longrightarrow> n \<le> length xs \<Longrightarrow> param (xs @ ys) n = param xs n"
  by (cases n) (simp_all add: param_def nth_append)

lemma param_next [simp]: "param (xs @ y # ys) (Suc (length xs)) = Some y"
  by (simp add: param_def)

lemma autocommit_cases:
  obtains (kept) x db' where "res = Inr (x, db')" "snd (autocommit site res db) = db'"
  | (unchanged) "snd (autocommit site res db) = db"
  by (cases "idb_fault db site"; cases res; cases "idb_kept db")
     (auto simp: autocommit_def split: prod.splits)

lemma autocommit_Inr:
  "autocommit site res db = (Inr x, db') \<longleftrightarrow> idb_fault db site = None \<and> res = Inr (x, db')"
  by (auto simp: autocommit_def split: option.splits sum.splits)

end
