(* ===== verification/Repository_Incident.thy ===== *)
theory Repository_Incident
  imports SQL_Incidents
begin

text \<open>
  \<open>internal/repository/incident.go\<close>: incidents of one team, read and written by the statements of
  \<open>SQL_Incidents\<close>.
\<close>

subsection \<open>incident.go\<close>

definition DefaultIncidentLimit :: int where "DefaultIncidentLimit = 25"
definition MaxIncidentLimit :: int where "MaxIncidentLimit = 100"

record IncidentFilter =
  if_Status :: "IncidentStatus list"
  if_Severity :: "Severity list"
  if_Source :: "Source list"
  if_Limit :: int
  if_Offset :: int

record IncidentPage =
  ip_Incidents :: "Incident list"
  ip_Total :: int

record IncidentPatch =
  pt_Title :: "gostring option"
  pt_Description :: "gostring option"
  pt_Severity :: "Severity option"
  pt_Status :: "IncidentStatus option"
  pt_ResolvedAt :: "time option"
  pt_ClearResolvedAt :: bool

definition bounds :: "IncidentFilter \<Rightarrow> int \<times> int" where
  "bounds f =
     (let limit = (if if_Limit f \<le> 0 then DefaultIncidentLimit
                   else if MaxIncidentLimit < if_Limit f then MaxIncidentLimit
                   else if_Limit f);
          offset = (if if_Offset f < 0 then 0 else if_Offset f)
      in (limit, offset))"

definition Create :: "Incident \<Rightarrow> incident_db \<Rightarrow> (store_error, Incident) result \<times> incident_db" where
  "Create incident db =
     (let values = incident\<lparr>inc_Title := TrimSpace (inc_Title incident)\<rparr>
      in case autocommit AtCreate (insertIncident values db) db of
           (Inl e, db') \<Rightarrow>
             if isUniqueViolation e then (Inl Conflict, db')
             else (Inl (StoreFailure (''creating incident: '' @ sql_error_text e)), db')
         | (Inr created, db') \<Rightarrow> (Inr created, db'))"

definition GetByID :: "uuid \<Rightarrow> uuid \<Rightarrow> incident_db \<Rightarrow> (store_error, Incident) result" where
  "GetByID teamID i db =
     (case idb_fault db AtGet of
        Some e \<Rightarrow> Inl (StoreFailure (''getting incident: '' @ e))
      | None \<Rightarrow>
          (case find (\<lambda>r. inc_ID r = i \<and> inc_TeamID r = teamID) (idb_rows db) of
             None \<Rightarrow> Inl NotFound
           | Some r \<Rightarrow> Inr r))"

definition FindByExternalID :: "uuid \<Rightarrow> gostring \<Rightarrow> incident_db \<Rightarrow> (store_error, Incident) result" where
  "FindByExternalID teamID externalID db =
     (case idb_fault db AtFindExternal of
        Some e \<Rightarrow> Inl (StoreFailure (''finding incident by external id: '' @ e))
      | None \<Rightarrow>
          if \<not> pg_text externalID
          then Inl (StoreFailure ''finding incident by external id: invalid byte sequence for encoding'')
          else (case find (\<lambda>r. inc_TeamID r = teamID \<and> inc_ExternalID r = Some externalID) (idb_rows db) of
             None \<Rightarrow> Inl NotFound
           | Some r \<Rightarrow> Inr r))"

text \<open>The statement of \<open>List\<close>, with one more argument and condition for each filter that is not empty.\<close>

definition any_of ::
  "column \<Rightarrow> gostring list \<Rightarrow> condition list \<times> sql_arg list \<Rightarrow> condition list \<times> sql_arg list" where
  "any_of col values ca =
     (let (query, args) = ca
      in if 0 < length values
         then let args = args @ [ArgTexts (enumStrings values)] in (query @ [AnyOf col (length args)], args)
         else (query, args))"

definition list_query :: "uuid \<Rightarrow> IncidentFilter \<Rightarrow> select_query \<times> sql_arg list" where
  "list_query teamID flt =
     (let (limit, offset) = bounds flt;
          qa = ([TeamIs 1], [ArgUuid teamID]);
          qa = any_of ColStatus (if_Status flt) qa;
          qa = any_of ColSeverity (if_Severity flt) qa;
          (query, args) = any_of ColSource (if_Source flt) qa;
          args = args @ [ArgInt limit, ArgInt offset]
      in (\<lparr>sq_where = query, sq_limit = length args - 1, sq_offset = length args\<rparr>, args))"

fun scan_rows :: "incident_db \<Rightarrow> (Incident \<times> int) list \<Rightarrow> IncidentPage \<Rightarrow> (gostring, IncidentPage) result" where
  "scan_rows db [] page = Inr page"
| "scan_rows db ((incident, n) # rows) page =
     (case idb_fault db (AtScan (length (ip_Incidents page))) of
        Some e \<Rightarrow> Inl e
      | None \<Rightarrow> scan_rows db rows (page\<lparr>ip_Incidents := ip_Incidents page @ [incident], ip_Total := n\<rparr>))"

definition List_incidents :: "uuid \<Rightarrow> IncidentFilter \<Rightarrow> incident_db \<Rightarrow> (store_error, IncidentPage) result" where
  "List_incidents teamID flt db =
     (let (query, args) = list_query teamID flt
      in case selectIncidents query args db of
           Inl e \<Rightarrow> Inl (StoreFailure (''listing incidents: '' @ sql_error_text e))
         | Inr rows \<Rightarrow>
             (case scan_rows db rows \<lparr>ip_Incidents = [], ip_Total = 0\<rparr> of
                Inl e \<Rightarrow> Inl (StoreFailure (''scanning incident: '' @ e))
              | Inr page \<Rightarrow>
                  (case idb_fault db AtRows of
                     Some e \<Rightarrow> Inl (StoreFailure (''listing incidents: '' @ e))
                   | None \<Rightarrow> Inr page)))"

text \<open>The closure \<open>set\<close> of \<open>Update\<close>, and the assignments that it builds.\<close>

definition set_column ::
  "column \<Rightarrow> sql_arg \<Rightarrow> assignment list \<times> sql_arg list \<Rightarrow> assignment list \<times> sql_arg list" where
  "set_column col value aa =
     (let (assignments, args) = aa;
          args = args @ [value]
      in (assignments @ [SetTo col (length args)], args))"

definition set_given ::
  "column \<Rightarrow> sql_arg option \<Rightarrow> assignment list \<times> sql_arg list \<Rightarrow> assignment list \<times> sql_arg list" where
  "set_given col value aa = (case value of None \<Rightarrow> aa | Some v \<Rightarrow> set_column col v aa)"

definition update_assignments :: "IncidentPatch \<Rightarrow> assignment list \<times> sql_arg list" where
  "update_assignments patch =
     (let aa = ([], []);
          aa = set_given ColTitle (map_option (\<lambda>t. ArgText (TrimSpace t)) (pt_Title patch)) aa;
          aa = set_given ColDescription (map_option ArgText (pt_Description patch)) aa;
          aa = set_given ColSeverity (map_option ArgText (pt_Severity patch)) aa;
          aa = set_given ColStatus (map_option ArgText (pt_Status patch)) aa
      in if pt_ClearResolvedAt patch then (fst aa @ [SetNull ColResolvedAt], snd aa)
         else set_given ColResolvedAt (map_option ArgTime (pt_ResolvedAt patch)) aa)"

definition Update :: "uuid \<Rightarrow> uuid \<Rightarrow> IncidentPatch \<Rightarrow> incident_db \<Rightarrow> (store_error, Incident) result \<times> incident_db" where
  "Update teamID i patch db =
     (let (assignments, args) = update_assignments patch
      in if length assignments = 0 then (GetByID teamID i db, db)
         else
           let args = args @ [ArgUuid i, ArgUuid teamID]
           in case autocommit AtUpdate
                  (updateIncident assignments (length args - 1) (length args) args db) db of
                (Inl e, db') \<Rightarrow> (Inl (StoreFailure (''updating incident: '' @ sql_error_text e)), db')
              | (Inr None, db') \<Rightarrow> (Inl NotFound, db')
              | (Inr (Some r), db') \<Rightarrow> (Inr r, db'))"

definition Delete :: "uuid \<Rightarrow> uuid \<Rightarrow> incident_db \<Rightarrow> store_error option \<times> incident_db" where
  "Delete teamID i db =
     (case autocommit AtDelete (deleteIncident i teamID db) db of
        (Inl e, db') \<Rightarrow> (Some (StoreFailure (''deleting incident: '' @ sql_error_text e)), db')
      | (Inr affected, db') \<Rightarrow> (if affected = 0 then Some NotFound else None, db'))"

subsection \<open>Listing\<close>

text \<open>The rows that a filter selects, in the order of the listing; a page is a window of them.\<close>

definition selected :: "uuid \<Rightarrow> IncidentFilter \<Rightarrow> Incident \<Rightarrow> bool" where
  "selected t f r \<longleftrightarrow> inc_TeamID r = t
     \<and> (if_Status f = [] \<or> inc_Status r \<in> set (if_Status f))
     \<and> (if_Severity f = [] \<or> inc_Severity r \<in> set (if_Severity f))
     \<and> (if_Source f = [] \<or> inc_Source r \<in> set (if_Source f))"

definition listing :: "uuid \<Rightarrow> IncidentFilter \<Rightarrow> incident_db \<Rightarrow> Incident list" where
  "listing t f db = sortSlice (filter (selected t f) (idb_rows db)) newer"

definition window :: "IncidentFilter \<Rightarrow> 'a list \<Rightarrow> 'a list" where
  "window f rows = take (nat (fst (bounds f))) (drop (nat (snd (bounds f))) rows)"

lemma bounds_range: "1 \<le> fst (bounds f) \<and> fst (bounds f) \<le> 100 \<and> 0 \<le> snd (bounds f)"
  by (simp add: bounds_def DefaultIncidentLimit_def MaxIncidentLimit_def)

lemma bounds_exact:
  "1 \<le> if_Limit f \<Longrightarrow> if_Limit f \<le> 100 \<Longrightarrow> 0 \<le> if_Offset f \<Longrightarrow> bounds f = (if_Limit f, if_Offset f)"
  by (simp add: bounds_def MaxIncidentLimit_def)

text \<open>
  Conditions and arguments that say a predicate, whatever arguments come after them: \<open>any_of\<close> adds
  to the predicate what it should.
\<close>

definition means :: "condition list \<times> sql_arg list \<Rightarrow> (Incident \<Rightarrow> bool) \<Rightarrow> bool" where
  "means ca p \<longleftrightarrow> (\<forall>more. conditions_test (snd ca @ more) (fst ca) = Some p)"

lemma conditions_test_append:
  "conditions_test args (xs @ ys) =
     (case (conditions_test args xs, conditions_test args ys) of
        (Some p, Some q) \<Rightarrow> Some (\<lambda>r. p r \<and> q r) | _ \<Rightarrow> None)"
  by (induction xs) (auto split: option.splits)

lemma means_any_of:
  assumes "means ca p" and "\<And>r. column_text col r = Some (g r)"
  shows "means (any_of col values ca) (\<lambda>r. p r \<and> (values = [] \<or> g r \<in> set values))"
proof (cases "values = []")
  case False
  have "conditions_test (snd ca @ ArgTexts values # more) (fst ca) = Some p" for more
    using assms(1) by (simp add: means_def)
  with False show ?thesis
    by (simp add: means_def any_of_def case_prod_beta conditions_test_append assms(2) Let_def)
qed (use assms(1) in \<open>simp add: any_of_def\<close>)

lemma args_encodable_any_of:
  "args_encodable (snd (any_of col values ca)) \<longleftrightarrow> args_encodable (snd ca) \<and> list_all pg_text values"
  by (auto simp: any_of_def args_encodable_def case_prod_beta Let_def)

lemma list_query_means:
  "means (sq_where (fst (list_query t f)), take (length (snd (list_query t f)) - 2) (snd (list_query t f))) (selected t f)"
proof -
  have "means ([TeamIs 1], [ArgUuid t]) (\<lambda>r. inc_TeamID r = t)"
    by (simp add: means_def param_def)
  from means_any_of [OF this, of ColStatus inc_Status "if_Status f"]
  have "means (any_of ColStatus (if_Status f) ([TeamIs 1], [ArgUuid t]))
      (\<lambda>r. inc_TeamID r = t \<and> (if_Status f = [] \<or> inc_Status r \<in> set (if_Status f)))"
    by simp
  from means_any_of [OF this, of ColSeverity inc_Severity "if_Severity f"]
  have "means (any_of ColSeverity (if_Severity f) (any_of ColStatus (if_Status f) ([TeamIs 1], [ArgUuid t])))
      (\<lambda>r. (inc_TeamID r = t \<and> (if_Status f = [] \<or> inc_Status r \<in> set (if_Status f)))
        \<and> (if_Severity f = [] \<or> inc_Severity r \<in> set (if_Severity f)))"
    by simp
  from means_any_of [OF this, of ColSource inc_Source "if_Source f"]
  show ?thesis
    by (simp add: list_query_def case_prod_beta Let_def selected_def [abs_def] conj_assoc)
qed

lemma list_query_bounds:
  "param (snd (list_query t f)) (sq_limit (fst (list_query t f))) = Some (ArgInt (fst (bounds f)))"
  "param (snd (list_query t f)) (sq_offset (fst (list_query t f))) = Some (ArgInt (snd (bounds f)))"
  by (simp_all add: list_query_def case_prod_beta Let_def param_def nth_append)

lemma list_query_encodable:
  "args_encodable (snd (list_query t f)) \<longleftrightarrow>
     list_all pg_text (if_Status f @ if_Severity f @ if_Source f)"
proof -
  have "args_encodable (xs @ [ArgInt i, ArgInt j]) \<longleftrightarrow> args_encodable xs" for xs i j
    by (simp add: args_encodable_def)
  then show ?thesis
    by (simp add: list_query_def case_prod_beta Let_def args_encodable_any_of)
      (simp add: args_encodable_def)
qed

lemma selectIncidents_listing:
  "selectIncidents (fst (list_query t f)) (snd (list_query t f)) db =
     (case idb_fault db AtQuery of
        Some e \<Rightarrow> Inl (SqlError e)
      | None \<Rightarrow>
          if \<not> list_all pg_text (if_Status f @ if_Severity f @ if_Source f)
          then Inl (SqlError ''invalid byte sequence for encoding'')
          else Inr (map (\<lambda>r. (r, int (length (listing t f db)))) (window f (listing t f db))))"
proof -
  define args where "args = snd (list_query t f)"
  have two: "2 \<le> length args"
    by (simp add: args_def list_query_def case_prod_beta Let_def)
  have "\<forall>more. conditions_test (take (length args - 2) args @ more) (sq_where (fst (list_query t f))) = Some (selected t f)"
    using list_query_means [of t f] by (simp add: means_def args_def)
  from this [rule_format, of "drop (length args - 2) args"] have "conditions_test args (sq_where (fst (list_query t f))) = Some (selected t f)"
    by simp
  then show ?thesis
    using bounds_range [of f]
    by (auto simp: selectIncidents_def args_def list_query_bounds list_query_encodable listing_def window_def
        Let_def split: option.splits)
qed

lemma scan_rows_Inr:
  "scan_rows db rows page = Inr page' \<Longrightarrow>
     ip_Incidents page' = ip_Incidents page @ map fst rows
     \<and> ip_Total page' = (if rows = [] then ip_Total page else snd (last rows))"
  by (induction db rows page rule: scan_rows.induct) (auto split: option.splits)

lemma scan_rows_ok:
  "(\<And>n. idb_fault db (AtScan n) = None) \<Longrightarrow> \<exists>page'. scan_rows db rows page = Inr page'"
  by (induction db rows page rule: scan_rows.induct) auto

lemma List_Inr:
  assumes "List_incidents t f db = Inr page"
  shows "ip_Incidents page = window f (listing t f db)"
    and "ip_Total page = (if ip_Incidents page = [] then 0 else int (length (listing t f db)))"
proof -
  from assms obtain rows where
    rows: "selectIncidents (fst (list_query t f)) (snd (list_query t f)) db = Inr rows"
    and scan: "scan_rows db rows \<lparr>ip_Incidents = [], ip_Total = 0\<rparr> = Inr page"
    by (auto simp: List_incidents_def case_prod_beta split: sum.splits option.splits)
  from rows have eq: "rows = map (\<lambda>r. (r, int (length (listing t f db)))) (window f (listing t f db))"
    by (auto simp: selectIncidents_listing split: option.splits if_splits)
  from scan_rows_Inr [OF scan] show "ip_Incidents page = window f (listing t f db)"
    by (simp add: eq comp_def)
  with scan_rows_Inr [OF scan]
  show "ip_Total page = (if ip_Incidents page = [] then 0 else int (length (listing t f db)))"
    by (simp add: eq last_map)
qed

lemma List_succeeds:
  assumes "idb_fault db = (\<lambda>_. None)" and "list_all pg_text (if_Status f @ if_Severity f @ if_Source f)"
  shows "\<exists>page. List_incidents t f db = Inr page"
proof -
  have "selectIncidents (fst (list_query t f)) (snd (list_query t f)) db =
      Inr (map (\<lambda>r. (r, int (length (listing t f db)))) (window f (listing t f db)))" (is "_ = Inr ?rows")
    using assms(2) by (simp only: selectIncidents_listing) (simp add: assms(1))
  moreover obtain page where "scan_rows db ?rows \<lparr>ip_Incidents = [], ip_Total = 0\<rparr> = Inr page"
    using scan_rows_ok [of db] by (auto simp: assms(1))
  ultimately show ?thesis by (simp add: List_incidents_def case_prod_beta assms(1))
qed

lemma listing_sorted: "sorted_wrt (\<lambda>a b. \<not> newer b a) (listing t f db)"
  unfolding listing_def by (rule sorted_sortSlice) (rule weak_order_newer)

lemma set_listing: "set (listing t f db) = {r \<in> set (idb_rows db). selected t f r}"
  by (auto simp: listing_def)

text \<open>Windows at consecutive offsets are consecutive pieces of the listing.\<close>

lemma concat_windows:
  "0 < l \<Longrightarrow> concat (map (\<lambda>k. take l (drop (k * l) xs)) [0..<n]) = take (n * l) xs"
proof (induction n)
  case (Suc n)
  have "take (l + n * l) xs = take (n * l) xs @ take l (drop (n * l) xs)"
    by (simp add: take_add [symmetric] add.commute)
  with Suc show ?case by simp
qed simp

subsection \<open>Updating\<close>

text \<open>What a patch does to a row.\<close>

definition patched :: "IncidentPatch \<Rightarrow> Incident \<Rightarrow> Incident" where
  "patched p r = r\<lparr>
     inc_Title := (case pt_Title p of None \<Rightarrow> inc_Title r | Some t \<Rightarrow> TrimSpace t),
     inc_Description := (case pt_Description p of None \<Rightarrow> inc_Description r | Some d \<Rightarrow> d),
     inc_Severity := (case pt_Severity p of None \<Rightarrow> inc_Severity r | Some v \<Rightarrow> v),
     inc_Status := (case pt_Status p of None \<Rightarrow> inc_Status r | Some v \<Rightarrow> v),
     inc_ResolvedAt := (if pt_ClearResolvedAt p then None
       else case pt_ResolvedAt p of None \<Rightarrow> inc_ResolvedAt r | Some t \<Rightarrow> Some (pg_time t))\<rparr>"

definition empty_patch :: "IncidentPatch \<Rightarrow> bool" where
  "empty_patch p \<longleftrightarrow> pt_Title p = None \<and> pt_Description p = None \<and> pt_Severity p = None
     \<and> pt_Status p = None \<and> pt_ResolvedAt p = None \<and> \<not> pt_ClearResolvedAt p"

definition does :: "assignment list \<times> sql_arg list \<Rightarrow> (Incident \<Rightarrow> Incident) \<Rightarrow> bool" where
  "does aa f \<longleftrightarrow> (\<forall>more. assign_all (snd aa @ more) (fst aa) = Some f)"

lemma assign_all_append:
  "assign_all args (xs @ ys) =
     (case (assign_all args xs, assign_all args ys) of (Some f, Some g) \<Rightarrow> Some (\<lambda>r. g (f r)) | _ \<Rightarrow> None)"
  by (induction xs) (auto split: option.splits)

lemma does_set_given:
  assumes "does aa f"
    and "\<And>v xs ys. value = Some v \<Longrightarrow> assign (xs @ v # ys) (SetTo col (Suc (length xs))) = Some (g v)"
  shows "does (set_given col value aa) (\<lambda>r. case value of None \<Rightarrow> f r | Some v \<Rightarrow> g v (f r))"
proof (cases "value")
  case (Some v)
  have "assign_all (snd aa @ v # more) (fst aa) = Some f" for more
    using assms(1) by (simp add: does_def)
  with Some assms(2) [OF Some] show ?thesis
    by (simp add: does_def set_given_def set_column_def case_prod_beta assign_all_append Let_def)
qed (use assms(1) in \<open>simp add: set_given_def\<close>)

lemma assign_texts:
  "assign (xs @ ArgText s # ys) (SetTo ColTitle (Suc (length xs))) = Some (\<lambda>r. r\<lparr>inc_Title := s\<rparr>)"
  "assign (xs @ ArgText s # ys) (SetTo ColDescription (Suc (length xs))) = Some (\<lambda>r. r\<lparr>inc_Description := s\<rparr>)"
  "assign (xs @ ArgText s # ys) (SetTo ColSeverity (Suc (length xs))) = Some (\<lambda>r. r\<lparr>inc_Severity := s\<rparr>)"
  "assign (xs @ ArgText s # ys) (SetTo ColStatus (Suc (length xs))) = Some (\<lambda>r. r\<lparr>inc_Status := s\<rparr>)"
  "assign (xs @ ArgTime t # ys) (SetTo ColResolvedAt (Suc (length xs))) = Some (\<lambda>r. r\<lparr>inc_ResolvedAt := Some (pg_time t)\<rparr>)"
  by simp_all

lemma does_set_text:
  assumes "does aa f"
    and "\<And>v xs ys. assign (xs @ ArgText v # ys) (SetTo col (Suc (length xs))) = Some (g v)"
  shows "does (set_given col (map_option ArgText value) aa) (\<lambda>r. case value of None \<Rightarrow> f r | Some v \<Rightarrow> g v (f r))"
proof -
  have "does (set_given col (map_option ArgText value) aa)
      (\<lambda>r. case map_option ArgText value of None \<Rightarrow> f r | Some v \<Rightarrow> (case v of ArgText s \<Rightarrow> g s | _ \<Rightarrow> id) (f r))"
    by (rule does_set_given [OF assms(1)]) (use assms(2) in auto)
  then show ?thesis by (cases "value") simp_all
qed

lemma does_clear:
  "does aa f \<Longrightarrow> does (fst aa @ [SetNull ColResolvedAt], snd aa) (\<lambda>r. (f r)\<lparr>inc_ResolvedAt := None\<rparr>)"
  by (simp add: does_def assign_all_append)

lemma does_set_time:
  assumes "does aa f"
  shows "does (set_given ColResolvedAt (map_option ArgTime value) aa)
    (\<lambda>r. case value of None \<Rightarrow> f r | Some t \<Rightarrow> (f r)\<lparr>inc_ResolvedAt := Some (pg_time t)\<rparr>)"
proof -
  have "does (set_given ColResolvedAt (map_option ArgTime value) aa)
      (\<lambda>r. case map_option ArgTime value of None \<Rightarrow> f r
         | Some v \<Rightarrow> (case v of ArgTime t \<Rightarrow> (\<lambda>r. r\<lparr>inc_ResolvedAt := Some (pg_time t)\<rparr>) | _ \<Rightarrow> id) (f r))"
    by (rule does_set_given [OF assms]) auto
  then show ?thesis by (cases "value") simp_all
qed

lemma update_assignments_does: "does (update_assignments p) (patched p)"
proof -
  have "does ([], []) (\<lambda>r. r)" by (simp add: does_def)
  from does_set_text [OF this assign_texts(1), of "map_option TrimSpace (pt_Title p)"]
  have title: "does (set_given ColTitle (map_option (\<lambda>t. ArgText (TrimSpace t)) (pt_Title p)) ([], []))
      (\<lambda>r. case map_option TrimSpace (pt_Title p) of None \<Rightarrow> r | Some v \<Rightarrow> r\<lparr>inc_Title := v\<rparr>)"
    by (simp add: option.map_comp comp_def)
  note status = does_set_text [OF does_set_text [OF does_set_text [OF title
    assign_texts(2), of "pt_Description p"] assign_texts(3), of "pt_Severity p"] assign_texts(4), of "pt_Status p"]
  show ?thesis
  proof (cases "pt_ClearResolvedAt p")
    case True
    with does_clear [OF status] show ?thesis
      by (simp add: update_assignments_def Let_def patched_def [abs_def] option.case_eq_if cong: if_cong)
        (erule back_subst [where P = "does _"], auto simp: fun_eq_iff option.map_sel split: option.splits)
  next
    case False
    with does_set_time [OF status, of "pt_ResolvedAt p"] show ?thesis
      by (simp add: update_assignments_def Let_def patched_def [abs_def] option.case_eq_if)
        (erule back_subst [where P = "does _"], auto simp: fun_eq_iff option.map_sel split: option.splits)
  qed
qed

lemma update_assignments_empty: "fst (update_assignments p) = [] \<longleftrightarrow> empty_patch p"
  by (auto simp: update_assignments_def Let_def set_given_def set_column_def case_prod_beta empty_patch_def
      split: option.splits)

subsection \<open>The invariant of the table\<close>

text \<open>
  The ids are distinct; the columns satisfy their checks; the team of a row exists; no two rows of a
  team have the same external id.
\<close>

definition row_ok :: "uuid list \<Rightarrow> Incident \<Rightarrow> bool" where
  "row_ok teams r \<longleftrightarrow> incident_checks r \<and> inc_TeamID r \<in> set teams \<and> inc_Embedding r = []
     \<and> inc_Metadata r \<noteq> None"

definition incident_inv :: "incident_db \<Rightarrow> bool" where
  "incident_inv db \<longleftrightarrow>
     distinct (map inc_ID (idb_rows db))
     \<and> (\<forall>r \<in> set (idb_rows db). row_ok (idb_teams db) r)
     \<and> distinct (filter (\<lambda>k. k \<noteq> None) (map external_key (idb_rows db)))"

lemma incident_invD:
  assumes "incident_inv db"
  shows "distinct (map inc_ID (idb_rows db))" "r \<in> set (idb_rows db) \<Longrightarrow> row_ok (idb_teams db) r"
    "distinct (filter (\<lambda>k. k \<noteq> None) (map external_key (idb_rows db)))"
  using assms by (simp_all add: incident_inv_def)

lemma same_id: "incident_inv db \<Longrightarrow> r \<in> set (idb_rows db) \<Longrightarrow> r' \<in> set (idb_rows db) \<Longrightarrow>
    inc_ID r = inc_ID r' \<Longrightarrow> r = r'"
  by (drule incident_invD(1)) (auto simp: distinct_map inj_on_def)

lemma insertIncident_Inr:
  assumes "insertIncident v db = Inr (r, db')"
  obtains meta where
    "r = stored_row (idb_uuid db (idb_next db)) (idb_now db) meta v"
    "db' = db\<lparr>idb_rows := idb_rows db @ [r], idb_next := Suc (idb_next db)\<rparr>"
    "row_ok (idb_teams db) r" "external_key r \<noteq> None \<Longrightarrow> external_key r \<notin> external_key ` set (idb_rows db)"
    "inc_ID r \<notin> inc_ID ` set (idb_rows db)"
proof -
  obtain meta where meta: "idb_json db (case inc_Metadata v of None \<Rightarrow> [] | Some m \<Rightarrow> m) = Some meta"
    using assms unfolding insertIncident_def by (auto split: option.splits if_splits)
  define x where "x = stored_row (idb_uuid db (idb_next db)) (idb_now db) meta v"
  have id: "inc_ID x = idb_uuid db (idb_next db)" and team: "inc_TeamID x = inc_TeamID v"
    and more: "inc_Embedding x = []" "inc_Metadata x = Some meta"
    by (simp_all add: x_def stored_row_def)
  have r: "r = x" and db': "db' = db\<lparr>idb_rows := idb_rows db @ [x], idb_next := Suc (idb_next db)\<rparr>"
    and ok: "incident_checks x" "idb_uuid db (idb_next db) \<notin> inc_ID ` set (idb_rows db)"
      "external_key x \<noteq> None \<longrightarrow> external_key x \<notin> external_key ` set (idb_rows db)"
      "inc_TeamID v \<in> set (idb_teams db)"
    using assms unfolding insertIncident_def meta option.case Let_def x_def [symmetric]
    by (auto split: if_splits)
  show thesis
    by (rule that [of meta]) (use ok id team more in \<open>simp_all add: r db' x_def [symmetric] row_ok_def\<close>)
qed

lemma insertIncident_inv:
  assumes "incident_inv db" and "insertIncident v db = Inr (r, db')"
  shows "incident_inv db'"
proof (rule insertIncident_Inr [OF assms(2)])
  fix meta
  assume r: "r = stored_row (idb_uuid db (idb_next db)) (idb_now db) meta v"
    and db': "db' = db\<lparr>idb_rows := idb_rows db @ [r], idb_next := Suc (idb_next db)\<rparr>"
    and ok: "row_ok (idb_teams db) r" "inc_ID r \<notin> inc_ID ` set (idb_rows db)"
    and key: "external_key r \<noteq> None \<Longrightarrow> external_key r \<notin> external_key ` set (idb_rows db)"
  show ?thesis
    using incident_invD [OF assms(1)] ok key by (auto simp: incident_inv_def db')
qed

text \<open>An update changes one row, in the columns of the patch; the key of the row is not among them.\<close>

lemma updateIncident_patch:
  assumes "does (as, args) f"
  shows "updateIncident as (Suc (length args)) (Suc (Suc (length args))) (args @ [ArgUuid i, ArgUuid t]) db =
     (if \<not> args_encodable args then Inl (SqlError ''invalid byte sequence for encoding'')
      else case find (\<lambda>r. inc_ID r = i \<and> inc_TeamID r = t) (idb_rows db) of
               None \<Rightarrow> Inr (None, db)
             | Some r \<Rightarrow>
                 let r' = (f r)\<lparr>inc_UpdatedAt := idb_now db\<rparr>
                 in if \<not> incident_checks r' then Inl (SqlError ''violates check constraint'')
                    else Inr (Some r', db\<lparr>idb_rows :=
                      map (\<lambda>x. if inc_ID x = i \<and> inc_TeamID x = t then r' else x) (idb_rows db)\<rparr>))"
proof -
  have "assign_all (args @ [ArgUuid i, ArgUuid t]) as = Some f"
    using assms by (simp add: does_def)
  moreover have "param (args @ [ArgUuid i, ArgUuid t]) (Suc (length args)) = Some (ArgUuid i)"
    "param (args @ [ArgUuid i, ArgUuid t]) (Suc (Suc (length args))) = Some (ArgUuid t)"
    by (simp_all add: param_def nth_append)
  moreover have "args_encodable (args @ [ArgUuid i, ArgUuid t]) \<longleftrightarrow> args_encodable args"
    by (simp add: args_encodable_def)
  ultimately show ?thesis by (simp add: updateIncident_def)
qed

lemma map_one_row:
  assumes "incident_inv db" and "r \<in> set (idb_rows db)" and "inc_ID r' = inc_ID r"
  shows "map (\<lambda>x. if inc_ID x = inc_ID r \<and> inc_TeamID x = inc_TeamID r then r' else x) (idb_rows db) =
    map (\<lambda>x. if x = r then r' else x) (idb_rows db)"
  using same_id [OF assms(1) _ assms(2)] by auto

lemma update_row_inv:
  assumes inv: "incident_inv db" and r: "r \<in> set (idb_rows db)" and "inc_ID r' = inc_ID r"
    and "external_key r' = external_key r" and "row_ok (idb_teams db) r'"
  shows "incident_inv (db\<lparr>idb_rows := map (\<lambda>x. if x = r then r' else x) (idb_rows db)\<rparr>)"
proof -
  define rows where "rows = map (\<lambda>x. if x = r then r' else x) (idb_rows db)"
  have ids: "map inc_ID rows = map inc_ID (idb_rows db)"
    and keys: "map external_key rows = map external_key (idb_rows db)"
    using assms(3,4) by (auto simp: rows_def)
  have sub: "set rows \<subseteq> insert r' (set (idb_rows db))"
    by (auto simp: rows_def)
  then have "\<forall>x \<in> set rows. row_ok (idb_teams db) x"
    using incident_invD(2) [OF inv] assms(5) by blast
  moreover have "inc_ID ` set rows = inc_ID ` set (idb_rows db)"
    using ids by (metis set_map)
  ultimately show ?thesis
    unfolding rows_def [symmetric]
    using incident_invD(1,3) [OF inv] by (simp add: incident_inv_def ids keys)
qed

lemma patched_keeps [simp]:
  "inc_ID (patched p r) = inc_ID r" "inc_TeamID (patched p r) = inc_TeamID r"
  "inc_ExternalID (patched p r) = inc_ExternalID r" "external_key (patched p r) = external_key r"
  "inc_Embedding (patched p r) = inc_Embedding r" "inc_Metadata (patched p r) = inc_Metadata r"
  "inc_Source (patched p r) = inc_Source r" "inc_StartedAt (patched p r) = inc_StartedAt r"
  "inc_CreatedAt (patched p r) = inc_CreatedAt r"
  by (simp_all add: patched_def external_key_def)

end
