(* ===== verification/Incident_Runs.thy ===== *)
theory Incident_Runs
  imports Repository_Incident
begin

text \<open>
  The incident repository over time: the invariant of the table along any sequence of requests and
  failures, and the isolation of the teams from each other.
\<close>

subsection \<open>One operation\<close>

lemma Create_cases:
  obtains (created) r meta where
      "snd (Create v db) = db\<lparr>idb_rows := idb_rows db @ [r], idb_next := Suc (idb_next db)\<rparr>"
      "insertIncident (v\<lparr>inc_Title := TrimSpace (inc_Title v)\<rparr>) db = Inr (r, snd (Create v db))"
      "r = stored_row (idb_uuid db (idb_next db)) (idb_now db) meta (v\<lparr>inc_Title := TrimSpace (inc_Title v)\<rparr>)"
  | (unchanged) "snd (Create v db) = db"
proof -
  define v' where "v' = v\<lparr>inc_Title := TrimSpace (inc_Title v)\<rparr>"
  have snd: "snd (Create v db) = snd (autocommit AtCreate (insertIncident v' db) db)"
    by (auto simp: Create_def v'_def [symmetric] split: prod.splits sum.splits)
  show thesis
  proof (rule autocommit_cases [of "insertIncident v' db" AtCreate db])
    fix x db'
    assume "insertIncident v' db = Inr (x, db')" and "snd (autocommit AtCreate (insertIncident v' db) db) = db'"
    then show thesis
      by (rule_tac insertIncident_Inr [of v' db x db']) (auto simp: snd v'_def intro: created)
  qed (use snd unchanged in simp)
qed

lemma Create_Inr:
  assumes "Create v db = (Inr r, db')"
  shows "insertIncident (v\<lparr>inc_Title := TrimSpace (inc_Title v)\<rparr>) db = Inr (r, db')"
  using assms by (auto simp: Create_def autocommit_Inr split: prod.splits sum.splits if_splits)

lemma Create_Conflict:
  assumes "Create v db = (Inl Conflict, db')"
  shows "insertIncident (v\<lparr>inc_Title := TrimSpace (inc_Title v)\<rparr>) db = Inl UniqueViolation \<and> db' = db"
  using assms
  by (auto simp: Create_def Let_def autocommit_def isUniqueViolation_def
      split: prod.splits sum.splits option.splits if_splits)

text \<open>The statement of an update with something to change, on its row.\<close>

definition updated :: "IncidentPatch \<Rightarrow> time \<Rightarrow> Incident \<Rightarrow> Incident" where
  "updated p now r = (patched p r)\<lparr>inc_UpdatedAt := now\<rparr>"

definition replace_row :: "Incident \<Rightarrow> Incident \<Rightarrow> incident_db \<Rightarrow> incident_db" where
  "replace_row r r' db = db\<lparr>idb_rows := map (\<lambda>x. if x = r then r' else x) (idb_rows db)\<rparr>"

definition update_result ::
  "uuid \<Rightarrow> uuid \<Rightarrow> IncidentPatch \<Rightarrow> incident_db \<Rightarrow> (sql_error, Incident option \<times> incident_db) result" where
  "update_result t i p db =
     (if \<not> args_encodable (snd (update_assignments p)) then Inl (SqlError ''invalid byte sequence for encoding'')
      else case find (\<lambda>r. inc_ID r = i \<and> inc_TeamID r = t) (idb_rows db) of
             None \<Rightarrow> Inr (None, db)
           | Some r \<Rightarrow>
               if \<not> incident_checks (updated p (idb_now db) r) then Inl (SqlError ''violates check constraint'')
               else Inr (Some (updated p (idb_now db) r), replace_row r (updated p (idb_now db) r) db))"

lemma update_result_Inr:
  assumes "update_result t i p db = Inr (x, db')"
  shows "(x = None \<and> db' = db) \<or> (\<exists>r \<in> set (idb_rows db). inc_ID r = i \<and> inc_TeamID r = t
    \<and> x = Some (updated p (idb_now db) r) \<and> incident_checks (updated p (idb_now db) r)
    \<and> db' = replace_row r (updated p (idb_now db) r) db)"
proof (cases "find (\<lambda>r. inc_ID r = i \<and> inc_TeamID r = t) (idb_rows db)")
  case (Some r)
  then have "r \<in> set (idb_rows db) \<and> inc_ID r = i \<and> inc_TeamID r = t"
    by (auto simp: find_Some_iff)
  with Some assms show ?thesis by (auto simp: update_result_def split: if_splits)
qed (use assms in \<open>auto simp: update_result_def split: if_splits\<close>)

lemma updateIncident_result:
  assumes "incident_inv db"
  shows "updateIncident (fst (update_assignments p)) (Suc (length (snd (update_assignments p))))
      (Suc (Suc (length (snd (update_assignments p))))) (snd (update_assignments p) @ [ArgUuid i, ArgUuid t]) db =
    update_result t i p db"
proof -
  have does: "does (fst (update_assignments p), snd (update_assignments p)) (patched p)"
    by (simp add: update_assignments_does)
  show ?thesis
  proof (cases "find (\<lambda>r. inc_ID r = i \<and> inc_TeamID r = t) (idb_rows db)")
    case None
    then show ?thesis by (simp add: updateIncident_patch [OF does] update_result_def)
  next
    case (Some r)
    then have r: "r \<in> set (idb_rows db)" "inc_ID r = i" "inc_TeamID r = t"
      by (auto simp: find_Some_iff)
    note one = map_one_row [OF assms r(1), of "updated p (idb_now db) r", unfolded r(2,3)]
    have "inc_ID (updated p (idb_now db) r) = i" by (simp add: updated_def r)
    from one [OF this] Some show ?thesis
      unfolding updateIncident_patch [OF does] update_result_def Some option.case Let_def
        updated_def [symmetric] replace_row_def by simp
  qed
qed

lemma Update_eq:
  assumes "incident_inv db" and "\<not> empty_patch p"
  shows "Update t i p db =
    (case autocommit AtUpdate (update_result t i p db) db of
       (Inl e, db') \<Rightarrow> (Inl (StoreFailure (''updating incident: '' @ sql_error_text e)), db')
     | (Inr None, db') \<Rightarrow> (Inl NotFound, db')
     | (Inr (Some r), db') \<Rightarrow> (Inr r, db'))"
proof -
  have "updateIncident (fst (update_assignments p)) (length (snd (update_assignments p) @ [ArgUuid i, ArgUuid t]) - 1)
      (length (snd (update_assignments p) @ [ArgUuid i, ArgUuid t])) (snd (update_assignments p) @ [ArgUuid i, ArgUuid t]) db =
    update_result t i p db"
    using updateIncident_result [OF assms(1), of p i t] by simp
  moreover have "length (fst (update_assignments p)) \<noteq> 0"
    using assms(2) by (simp add: update_assignments_empty)
  ultimately show ?thesis
    unfolding Update_def Let_def case_prod_beta by (simp only: if_False)
qed

lemma Update_empty:
  "empty_patch p \<Longrightarrow> Update t i p db = (GetByID t i db, db)"
  by (simp add: Update_def case_prod_beta update_assignments_empty)

lemma Update_cases:
  assumes "incident_inv db"
  obtains (changed) r where "r \<in> set (idb_rows db)" "inc_ID r = i" "inc_TeamID r = t"
      "incident_checks (updated p (idb_now db) r)"
      "snd (Update t i p db) = replace_row r (updated p (idb_now db) r) db"
  | (unchanged) "snd (Update t i p db) = db"
proof (cases "empty_patch p")
  case True
  then show thesis by (intro unchanged) (simp add: Update_empty)
next
  case False
  have eq: "snd (Update t i p db) = snd (autocommit AtUpdate (update_result t i p db) db)"
    by (auto simp: Update_eq [OF assms False] split: prod.splits sum.splits option.splits)
  show thesis
  proof (rule autocommit_cases [of "update_result t i p db" AtUpdate db])
    fix x db'
    assume res: "update_result t i p db = Inr (x, db')"
      and db': "snd (autocommit AtUpdate (update_result t i p db) db) = db'"
    from update_result_Inr [OF res] show thesis
      by (elim disjE bexE conjE) (rule changed unchanged, (simp_all add: eq db')?)+
  qed (use eq unchanged in simp)
qed

lemma Update_Inr:
  assumes "incident_inv db" "\<not> empty_patch p" "Update t i p db = (Inr r', db')"
  obtains r where "r \<in> set (idb_rows db)" "inc_ID r = i" "inc_TeamID r = t"
    "r' = updated p (idb_now db) r" "incident_checks r'" "db' = replace_row r r' db"
proof -
  have "update_result t i p db = Inr (Some r', db')"
    using assms(3) unfolding Update_eq [OF assms(1,2)]
    by (auto simp: autocommit_Inr split: prod.splits sum.splits option.splits)
  from update_result_Inr [OF this] show thesis by (auto intro: that)
qed

lemma Delete_rows:
  "snd (Delete t i db) = db
   \<or> snd (Delete t i db) = db\<lparr>idb_rows := filter (\<lambda>r. \<not> (inc_ID r = i \<and> inc_TeamID r = t)) (idb_rows db)\<rparr>"
  by (auto simp: Delete_def deleteIncident_def autocommit_def split: option.splits prod.splits sum.splits)

subsection \<open>Sequences of requests\<close>

datatype incident_request =
    ReqCreate Incident
  | ReqUpdate uuid uuid IncidentPatch
  | ReqDelete uuid uuid

fun request_team :: "incident_request \<Rightarrow> uuid" where
  "request_team (ReqCreate v) = inc_TeamID v"
| "request_team (ReqUpdate t i p) = t"
| "request_team (ReqDelete t i) = t"

fun serve :: "incident_request \<Rightarrow> incident_db \<Rightarrow> incident_db" where
  "serve (ReqCreate v) db = snd (Create v db)"
| "serve (ReqUpdate t i p) db = snd (Update t i p db)"
| "serve (ReqDelete t i) db = snd (Delete t i db)"

text \<open>
  The table along a sequence of requests: between two of them the clock goes on, and the connection
  may become better or worse.
\<close>

inductive incident_run :: "incident_db \<Rightarrow> incident_request list \<Rightarrow> incident_db \<Rightarrow> bool" where
  run_end: "incident_run db [] db"
| run_serve: "incident_run (serve q db) qs db' \<Longrightarrow> incident_run db (q # qs) db'"
| run_wait: "idb_now db \<le> now \<Longrightarrow>
    incident_run (db\<lparr>idb_now := now, idb_fault := fault, idb_kept := kept\<rparr>) qs db' \<Longrightarrow>
    incident_run db qs db'"

definition team_rows :: "uuid \<Rightarrow> incident_db \<Rightarrow> Incident list" where
  "team_rows t db = filter (\<lambda>r. inc_TeamID r = t) (idb_rows db)"

text \<open>Every request keeps the invariant.\<close>

lemma serve_inv:
  assumes inv: "incident_inv db"
  shows "incident_inv (serve q db)"
proof (cases q)
  case (ReqCreate v)
  show ?thesis
    by (rule Create_cases [of v db]) (use inv insertIncident_inv [OF inv] ReqCreate in auto)
next
  case (ReqUpdate t i p)
  show ?thesis
  proof (rule Update_cases [OF inv, of i t p])
    fix r
    assume r: "r \<in> set (idb_rows db)" and checks: "incident_checks (updated p (idb_now db) r)"
      and snd: "snd (Update t i p db) = replace_row r (updated p (idb_now db) r) db"
    have "row_ok (idb_teams db) (updated p (idb_now db) r)"
      using incident_invD(2) [OF inv r] checks by (simp add: row_ok_def updated_def)
    moreover have "external_key (updated p (idb_now db) r) = external_key r"
      by (simp add: updated_def external_key_def)
    ultimately show ?thesis
      using update_row_inv [OF inv r, of "updated p (idb_now db) r"]
      by (simp add: ReqUpdate snd replace_row_def) (simp add: updated_def)
  qed (use inv ReqUpdate in simp)
next
  case (ReqDelete t i)
  have keys: "distinct (filter (\<lambda>k. k \<noteq> None) (map external_key (filter P rows)))"
    if "distinct (filter (\<lambda>k. k \<noteq> None) (map external_key rows))" for P and rows :: "Incident list"
    using that by (induction rows) (auto simp: image_iff, metis)
  have "incident_inv (db\<lparr>idb_rows := filter P (idb_rows db)\<rparr>)" for P
    using incident_invD [OF inv] keys [OF incident_invD(3) [OF inv]]
    by (auto simp: incident_inv_def distinct_map_filter)
  with Delete_rows [of t i db] inv ReqDelete show ?thesis by auto
qed

lemma run_inv: "incident_run db qs db' \<Longrightarrow> incident_inv db \<Longrightarrow> incident_inv db'"
proof (induction rule: incident_run.induct)
  case (run_wait db now fault kept qs db')
  then show ?case by (simp add: incident_inv_def)
qed (auto intro: serve_inv)

text \<open>A request of one team does not touch the rows of another.\<close>

lemma filter_replaced:
  "\<not> P r \<Longrightarrow> \<not> P r' \<Longrightarrow> filter P (map (\<lambda>x. if x = r then r' else x) xs) = filter P xs"
  by (induction xs) auto

lemma serve_isolated:
  assumes inv: "incident_inv db" and other: "request_team q \<noteq> t"
  shows "team_rows t (serve q db) = team_rows t db"
proof (cases q)
  case (ReqCreate v)
  show ?thesis
    by (rule Create_cases [of v db]) (use other ReqCreate in \<open>auto simp: team_rows_def stored_row_def\<close>)
next
  case (ReqUpdate u i p)
  show ?thesis
  proof (rule Update_cases [OF inv, of i u p])
    fix r
    assume "inc_TeamID r = u" and snd: "snd (Update u i p db) = replace_row r (updated p (idb_now db) r) db"
    moreover have "inc_TeamID (updated p (idb_now db) r) = inc_TeamID r"
      by (simp add: updated_def)
    ultimately show ?thesis
      using other by (simp add: ReqUpdate team_rows_def replace_row_def filter_replaced)
  qed (use ReqUpdate in simp)
next
  case (ReqDelete u i)
  have "filter (\<lambda>r. inc_TeamID r = t) (filter (\<lambda>r. \<not> (inc_ID r = i \<and> inc_TeamID r = u)) xs) =
      filter (\<lambda>r. inc_TeamID r = t) xs" for xs
    using other ReqDelete by (induction xs) auto
  with ReqDelete Delete_rows [of u i db] show ?thesis by (auto simp: team_rows_def)
qed

lemma run_isolated:
  "incident_run db qs db' \<Longrightarrow> incident_inv db \<Longrightarrow> \<forall>q \<in> set qs. request_team q \<noteq> t \<Longrightarrow>
     team_rows t db' = team_rows t db"
proof (induction rule: incident_run.induct)
  case (run_serve q db qs db')
  then show ?case by (simp add: serve_inv serve_isolated)
next
  case (run_wait db now fault kept qs db')
  then show ?case by (simp add: incident_inv_def team_rows_def)
qed simp

text \<open>What a team reads depends on its own rows, and on the connection.\<close>

lemma find_team:
  "find (\<lambda>r. P r \<and> inc_TeamID r = t) rows = find P (filter (\<lambda>r. inc_TeamID r = t) rows)"
  by (induction rows) auto

lemma GetByID_team_rows:
  "idb_fault db' = idb_fault db \<Longrightarrow> team_rows t db' = team_rows t db \<Longrightarrow> GetByID t i db' = GetByID t i db"
  by (simp only: GetByID_def find_team team_rows_def)

lemma FindByExternalID_team_rows:
  assumes "idb_fault db' = idb_fault db" and "team_rows t db' = team_rows t db"
  shows "FindByExternalID t x db' = FindByExternalID t x db"
proof -
  have rows: "find (\<lambda>r. inc_TeamID r = t \<and> inc_ExternalID r = Some x) rows =
      find (\<lambda>r. inc_ExternalID r = Some x) (filter (\<lambda>r. inc_TeamID r = t) rows)" for rows
    by (induction rows) auto
  show ?thesis
    unfolding FindByExternalID_def rows assms(1) assms(2) [unfolded team_rows_def] ..
qed

lemma listing_team_rows: "listing t f db = sortSlice (filter (selected t f) (team_rows t db)) newer"
proof -
  have "filter (selected t f) (idb_rows db) = filter (selected t f) (team_rows t db)"
    by (auto simp: team_rows_def selected_def intro!: filter_cong)
  then show ?thesis by (simp add: listing_def)
qed

lemma scan_rows_fault: "idb_fault db' = idb_fault db \<Longrightarrow> scan_rows db' rows page = scan_rows db rows page"
  by (induction db rows page rule: scan_rows.induct) (auto split: option.splits)

lemma List_team_rows:
  assumes "idb_fault db' = idb_fault db" and "team_rows t db' = team_rows t db"
  shows "List_incidents t f db' = List_incidents t f db"
  unfolding List_incidents_def Let_def case_prod_beta selectIncidents_listing listing_team_rows assms
    scan_rows_fault [OF assms(1)] ..

subsection \<open>What validation promises the table\<close>

lemma dropWhile_Nil_iff: "dropWhile P xs = [] \<longleftrightarrow> (\<forall>x \<in> set xs. P x)"
  by (rule dropWhile_eq_Nil_conv)

lemma btrim_length: "length (btrim s) \<le> length s"
  unfolding btrim_def by (metis length_dropWhile_le length_rev order_trans)

lemma btrim_nonempty:
  assumes "TrimSpace s \<noteq> []"
  shows "btrim (TrimSpace s) \<noteq> []"
proof -
  obtain c t where t: "TrimSpace s = c # t" using assms by (cases "TrimSpace s") auto
  have "c \<noteq> CHR '' ''"
  proof
    assume "c = CHR '' ''"
    then have "fst (decode_rune (TrimSpace s)) = 32" by (simp add: t decode_rune_ascii)
    with TrimSpace_ends(1) [of "TrimSpace s"] assms show False by (simp add: is_space_def)
  qed
  then show ?thesis by (simp add: btrim_def t dropWhile_Nil_iff)
qed

lemma title_check_TrimSpace:
  assumes "TrimSpace s \<noteq> []" and "length (TrimSpace s) \<le> 500"
  shows "title_check (TrimSpace s)"
proof -
  have "rune_count (btrim (TrimSpace s)) \<noteq> 0"
    using btrim_nonempty [OF assms(1)] by simp
  moreover have "rune_count (btrim (TrimSpace s)) \<le> 500"
    using rune_count_le [of "btrim (TrimSpace s)"] btrim_length [of "TrimSpace s"] assms(2) by linarith
  ultimately show ?thesis by (simp add: title_check_def del: rune_count_eq_0_iff)
qed

lemma validated_checks:
  assumes "incident_ok v" and "external_id_check (inc_ExternalID v)"
  shows "incident_checks (stored_row i now meta (v\<lparr>inc_Title := TrimSpace (inc_Title v)\<rparr>))"
  using assms title_check_TrimSpace [of "inc_Title v"] pg_time_mono
  by (auto simp: incident_ok_def incident_checks_def stored_row_def resolved_after_start_def
      severity_check_def status_check_def source_check_def Severity_Valid_def IncidentStatus_Valid_def
      Source_Valid_def validEnum_iff severity_defs status_defs source_defs split: option.splits)

text \<open>What remains for a validated incident: created, in conflict with one of its team, or no such team.\<close>

lemma Create_validated:
  assumes ok: "incident_ok v" "external_id_check (inc_ExternalID v)"
    and fault: "idb_fault db AtCreate = None"
    and fresh: "idb_uuid db (idb_next db) \<notin> inc_ID ` set (idb_rows db)" and team: "inc_TeamID v \<in> set (idb_teams db)"
    and texts: "list_all pg_text (incident_texts (v\<lparr>inc_Title := TrimSpace (inc_Title v)\<rparr>))"
    and meta: "idb_json db (case inc_Metadata v of None \<Rightarrow> [] | Some m \<Rightarrow> m) = Some meta"
  shows "Create v db =
    (if \<exists>r \<in> set (idb_rows db). external_key r = external_key v \<and> inc_ExternalID v \<noteq> None
     then (Inl Conflict, db)
     else let r = stored_row (idb_uuid db (idb_next db)) (idb_now db) meta (v\<lparr>inc_Title := TrimSpace (inc_Title v)\<rparr>)
          in (Inr r, db\<lparr>idb_rows := idb_rows db @ [r], idb_next := Suc (idb_next db)\<rparr>))"
proof -
  define v' where "v' = v\<lparr>inc_Title := TrimSpace (inc_Title v)\<rparr>"
  define r where "r = stored_row (idb_uuid db (idb_next db)) (idb_now db) meta v'"
  have key: "external_key r = external_key v" "external_key v = None \<longleftrightarrow> inc_ExternalID v = None"
    by (simp_all add: r_def v'_def stored_row_def external_key_def)
  have "incident_checks r" using validated_checks [OF ok] by (simp add: r_def v'_def)
  then have ins: "insertIncident v' db =
      (if external_key r \<noteq> None \<and> external_key r \<in> external_key ` set (idb_rows db) then Inl UniqueViolation
       else Inr (r, db\<lparr>idb_rows := idb_rows db @ [r], idb_next := Suc (idb_next db)\<rparr>))"
  proof -
    have v': "list_all pg_text (incident_texts v')" "inc_Metadata v' = inc_Metadata v" "inc_TeamID v' = inc_TeamID v"
      using texts by (simp_all add: v'_def)
    show ?thesis
      using \<open>incident_checks r\<close> team fresh
      unfolding insertIncident_def v' meta option.case Let_def r_def [symmetric] by (simp add: v'(1))
  qed
  have "Create v db = (case autocommit AtCreate (insertIncident v' db) db of
      (Inl e, db') \<Rightarrow> if isUniqueViolation e then (Inl Conflict, db')
        else (Inl (StoreFailure (''creating incident: '' @ sql_error_text e)), db')
    | (Inr created, db') \<Rightarrow> (Inr created, db'))"
    by (simp add: Create_def v'_def)
  also have "\<dots> = (if external_key r \<noteq> None \<and> external_key r \<in> external_key ` set (idb_rows db) then (Inl Conflict, db)
       else (Inr r, db\<lparr>idb_rows := idb_rows db @ [r], idb_next := Suc (idb_next db)\<rparr>))"
    by (simp add: ins autocommit_def fault isUniqueViolation_def)
  also have "\<dots> = (if \<exists>r \<in> set (idb_rows db). external_key r = external_key v \<and> inc_ExternalID v \<noteq> None
     then (Inl Conflict, db)
     else (Inr r, db\<lparr>idb_rows := idb_rows db @ [r], idb_next := Suc (idb_next db)\<rparr>))"
    using key by (auto simp: image_iff eq_commute [of "external_key v"])
  finally show ?thesis by (simp add: r_def v'_def Let_def)
qed

end
