(* ===== verification/Instances.thy ===== *)
theory Instances
  imports Main_Server Session_Safety Incident_Runs
begin

text \<open>
  Libraries that keep the laws which the theorems assume of the real ones: a JWT library whose
  tokens are the encoded claims next to the secret, a password hash that keeps the password, a JSON
  encoder, a router and a CORS handler. The examples that accompany the theorems run on them.
\<close>

subsection \<open>Netstrings\<close>

definition net :: "gostring \<Rightarrow> gostring" where
  "net s = show_nat (length s) @ CHR '':'' # s"

definition unnet :: "gostring \<Rightarrow> (gostring \<times> gostring) option" where
  "unnet s = (let n = takeWhile is_digit s; rest = drop 1 (dropWhile is_digit s)
     in case digits_value 0 n of None \<Rightarrow> None | Some k \<Rightarrow> Some (take k rest, drop k rest))"

fun unnets :: "nat \<Rightarrow> gostring \<Rightarrow> gostring list option" where
  "unnets 0 s = None"
| "unnets (Suc n) s = (if s = [] then Some []
     else case unnet s of None \<Rightarrow> None
       | Some (x, rest) \<Rightarrow> (case unnets n rest of None \<Rightarrow> None | Some xs \<Rightarrow> Some (x # xs)))"

lemma takeWhile_show_nat:
  "takeWhile is_digit (show_nat n @ CHR '':'' # s) = show_nat n"
  "dropWhile is_digit (show_nat n @ CHR '':'' # s) = CHR '':'' # s"
proof -
  have "\<not> is_digit CHR '':''" by (simp add: is_digit_def)
  then show "takeWhile is_digit (show_nat n @ CHR '':'' # s) = show_nat n"
    "dropWhile is_digit (show_nat n @ CHR '':'' # s) = CHR '':'' # s"
    using show_nat_digits [of _ n] by (simp_all add: takeWhile_append dropWhile_append)
qed

lemma unnet_net: "unnet (net s @ t) = Some (s, t)"
  by (simp add: unnet_def net_def takeWhile_show_nat digits_value_show_nat)

lemma net_ne [simp]: "net s \<noteq> []" by (simp add: net_def)

lemma unnets_nets: "length xs < n \<Longrightarrow> unnets n (concat (map net xs)) = Some xs"
proof (induction xs arbitrary: n)
  case (Cons x xs)
  then show ?case by (cases n) (simp_all add: unnet_net)
next
  case Nil
  then show ?case by (cases n) simp_all
qed

lemma length_nets: "length xs \<le> length (concat (map net xs))"
proof (induction xs)
  case (Cons x xs)
  have "1 \<le> length (net x)" by (simp add: net_def)
  with Cons show ?case by simp
qed simp

subsection \<open>Tokens\<close>

definition enc_time :: "time option \<Rightarrow> gostring" where
  "enc_time t = (case t of None \<Rightarrow> [] | Some i \<Rightarrow> (if i < 0 then CHR ''-'' else CHR ''+'') # show_nat (nat \<bar>i\<bar>))"

definition dec_time :: "gostring \<Rightarrow> time option" where
  "dec_time s = (case s of [] \<Rightarrow> None
     | c # ds \<Rightarrow> (case digits_value 0 ds of None \<Rightarrow> None | Some n \<Rightarrow> Some (if c = CHR ''-'' then - int n else int n)))"

lemma dec_enc_time [simp]: "dec_time (enc_time t) = t"
  by (cases t) (simp_all add: dec_time_def enc_time_def digits_value_show_nat)

definition claim_fields :: "claims \<Rightarrow> gostring list" where
  "claim_fields c = [cl_Subject c, cl_Issuer c, cl_ID c, enc_time (cl_IssuedAt c), enc_time (cl_NotBefore c),
     enc_time (cl_ExpiresAt c), show_nat (unat (cl_TeamID c)), cl_Kind c] @ cl_Audience c"

fun fields_claim :: "gostring list \<Rightarrow> claims option" where
  "fields_claim (s # i # d # ia # nb # ea # t # k # aud) =
     (case digits_value 0 t of None \<Rightarrow> None
      | Some n \<Rightarrow> Some \<lparr>cl_Subject = s, cl_Issuer = i, cl_Audience = aud, cl_ID = d, cl_IssuedAt = dec_time ia,
          cl_NotBefore = dec_time nb, cl_ExpiresAt = dec_time ea, cl_TeamID = of_nat n, cl_Kind = k\<rparr>)"
| "fields_claim _ = None"

lemma fields_claim_fields [simp]: "fields_claim (claim_fields c) = Some c"
  by (simp add: claim_fields_def digits_value_show_nat)

definition token_of :: "gostring \<Rightarrow> claims \<Rightarrow> gostring" where
  "token_of secret c = concat (map net (secret # claim_fields c))"

definition claims_of :: "gostring \<Rightarrow> gostring \<Rightarrow> claims option" where
  "claims_of secret tok =
     (case unnets (Suc (length tok)) tok of
        Some (s # fs) \<Rightarrow> if s = secret then fields_claim fs else None
      | _ \<Rightarrow> None)"

lemma claims_of_token [simp]: "claims_of secret (token_of secret c) = Some c"
proof -
  have "unnets (Suc (length (token_of secret c))) (token_of secret c) = Some (secret # claim_fields c)"
    unfolding token_of_def by (rule unnets_nets) (use length_nets [of "secret # claim_fields c"] in simp)
  then show ?thesis by (simp add: claims_of_def)
qed

definition plain_jwt :: jwt_lib where
  "plain_jwt = \<lparr>
     SignedString = (\<lambda>m c secret. Inr (token_of secret c)),
     ParseWithClaims = (\<lambda>po secret tok.
       case claims_of secret tok of
         None \<Rightarrow> Inl \<lparr>je_Expired = False, je_Text = ''token is malformed''\<rparr>
       | Some c \<Rightarrow>
           if \<not> not_expired po c then Inl \<lparr>je_Expired = cl_ExpiresAt c \<noteq> None, je_Text = ''token is expired''\<rparr>
           else if \<not> registered_ok po c then Inl \<lparr>je_Expired = False, je_Text = ''token has invalid claims''\<rparr>
           else Inr c)\<rparr>"

lemma plain_jwt_simps:
  "SignedString plain_jwt m c secret = Inr (token_of secret c)"
  "ParseWithClaims plain_jwt po secret tok = (case claims_of secret tok of
         None \<Rightarrow> Inl \<lparr>je_Expired = False, je_Text = ''token is malformed''\<rparr>
       | Some c \<Rightarrow>
           if \<not> not_expired po c then Inl \<lparr>je_Expired = cl_ExpiresAt c \<noteq> None, je_Text = ''token is expired''\<rparr>
           else if \<not> registered_ok po c then Inl \<lparr>je_Expired = False, je_Text = ''token has invalid claims''\<rparr>
           else Inr c)"
  by (simp_all add: plain_jwt_def)

lemma jwt_laws_plain: "jwt_laws plain_jwt"
proof -
  have parsed: "not_expired po c \<and> registered_ok po c \<and> claims_of secret raw = Some c"
    if "ParseWithClaims plain_jwt po secret raw = Inr c" for po secret raw c
    using that by (auto simp: plain_jwt_simps split: option.splits if_splits)
  show ?thesis
    unfolding jwt_laws_def
  proof (intro conjI allI impI)
    fix po po' :: parser_options and secret raw :: gostring and c c' :: claims
    assume "ParseWithClaims plain_jwt po secret raw = Inr c" "ParseWithClaims plain_jwt po' secret raw = Inr c'"
    then have "claims_of secret raw = Some c" "claims_of secret raw = Some c'"
      using parsed by blast+
    then show "c' = c" by simp
  qed (use parsed in \<open>auto simp: plain_jwt_simps\<close>)
qed

subsection \<open>Passwords\<close>

definition plain_bcrypt :: bcrypt where
  "plain_bcrypt = \<lparr>
     GenerateFromPassword = (\<lambda>salt plain cost.
       if 72 < length plain then Inl ''password length exceeds 72 bytes'' else Inr (CHR ''$'' # plain)),
     CompareHashAndPassword = (\<lambda>hash plain.
       if hash = CHR ''$'' # plain then Match else MismatchedHashAndPassword)\<rparr>"

lemma bcrypt_laws_plain: "bcrypt_laws plain_bcrypt"
  by (auto simp: bcrypt_laws_def plain_bcrypt_def split: if_splits)

subsection \<open>JSON, routing, CORS\<close>

text \<open>An encoder that fails on instants that RFC 3339 cannot write, and a library with it.\<close>

fun json_text :: "json \<Rightarrow> gostring option" and
  json_items :: "json list \<Rightarrow> gostring option" and
  json_members :: "(gostring \<times> json) list \<Rightarrow> gostring option" where
  "json_text JNull = Some ''null''"
| "json_text (JBool b) = Some (if b then ''true'' else ''false'')"
| "json_text (JInt i) = Some (show_int i)"
| "json_text (JString s) = Some (CHR 0x22 # s @ [CHR 0x22])"
| "json_text (JTime t) = (if t < 0 then None else Some (show_int t))"
| "json_text (JArray xs) = map_option (\<lambda>s. ''['' @ s @ '']'') (json_items xs)"
| "json_text (JObject ms) = map_option (\<lambda>s. ''{'' @ s @ ''}'') (json_members ms)"
| "json_items [] = Some []"
| "json_items (x # xs) = (case (json_text x, json_items xs) of (Some a, Some b) \<Rightarrow> Some (a @ '','' @ b) | _ \<Rightarrow> None)"
| "json_members [] = Some []"
| "json_members ((k, x) # xs) =
     (case (json_text x, json_members xs) of (Some a, Some b) \<Rightarrow> Some (k @ '':'' @ a @ '','' @ b) | _ \<Rightarrow> None)"

definition plain_lib :: lib where
  "plain_lib = \<lparr>lb_encode = json_text, lb_encode_error = (\<lambda>_. ''json: unsupported value''), lb_media = Some, lb_ulower = id, lb_uprint = (\<lambda>_. True),
     lb_uuid = decimal_uuid, lb_jwt = plain_jwt, lb_bcrypt = plain_bcrypt\<rparr>"

lemma plain_lib_sel [simp]:
  "lb_encode plain_lib = json_text" "lb_jwt plain_lib = plain_jwt" "lb_uuid plain_lib = decimal_uuid"
  "lb_bcrypt plain_lib = plain_bcrypt" "lb_ulower plain_lib = id" "lb_media plain_lib = Some"
  by (simp_all add: plain_lib_def)

lemma encodes_errors_plain: "encodes_errors plain_lib"
proof -
  have items: "\<exists>y. json_items (map (\<lambda>f. JObject [(''field'', JString (fi_Field f)),
      (''message'', JString (fi_Message f))]) fs) = Some y" for fs
    by (induction fs) auto
  show ?thesis
    unfolding encodes_errors_def
  proof
    fix e :: ErrorResponse
    obtain y where "json_items (map (\<lambda>f. JObject [(''field'', JString (fi_Field f)),
      (''message'', JString (fi_Message f))]) (er_Fields e)) = Some y"
      using items by blast
    then show "lb_encode plain_lib (ErrorResponse_json e) \<noteq> None"
      by (simp add: ErrorResponse_json_def)
  qed
qed

definition first_match :: chi where
  "first_match ps m p =
     (case filter (\<lambda>i. pattern_matches (ps ! i) m p) [0..<length ps] of
        i # _ \<Rightarrow> Matched i
      | [] \<Rightarrow> if \<exists>pat \<in> set ps. (case pat of Route _ q \<Rightarrow> q = p | MountAt q \<Rightarrow> False) then WrongMethod else NoRoute)"

lemma chi_laws_first: "chi_laws first_match"
proof -
  have "i < length ps \<and> pattern_matches (ps ! i) m p" if matched: "first_match ps m p = Matched i" for ps m p i
  proof -
    obtain js where "filter (\<lambda>i. pattern_matches (ps ! i) m p) [0..<length ps] = i # js"
      using matched by (cases "filter (\<lambda>i. pattern_matches (ps ! i) m p) [0..<length ps]")
        (auto simp: first_match_def split: if_splits)
    then have "i \<in> set (filter (\<lambda>i. pattern_matches (ps ! i) m p) [0..<length ps])" by simp
    then show ?thesis by simp
  qed
  then show ?thesis by (simp add: chi_laws_def)
qed

text \<open>A CORS handler that answers preflights and lets everything else through.\<close>

definition plain_cors :: "cors_options \<Rightarrow> 'w handler \<Rightarrow> 'w handler" where
  "plain_cors opts nxt r w rw =
     (if rq_Method r = ''OPTIONS'' then Returned w (WriteHeader 200 rw) else nxt r w rw)"

lemma rw_update_id: "rw_update (\<lambda>r. r) rw = rw"
  by (induction rw) auto

lemma cors_laws_plain: "cors_laws plain_cors"
proof -
  have "adds_headers (\<lambda>r. r)" by (simp add: adds_headers_def)
  then show ?thesis
    unfolding cors_laws_def plain_cors_def by (metis (full_types) rw_update_id)
qed

lemma cors_header_laws_plain: "cors_header_laws plain_cors"
proof -
  have "only_headers (\<lambda>r. r)" by (simp add: only_headers_def adds_headers_def)
  then show ?thesis
    unfolding cors_header_laws_def plain_cors_def by (metis (full_types) rw_update_id)
qed

text \<open>A decoder that reads nothing off the body and gives a fixed value.\<close>

definition constant_decoder :: "'a \<Rightarrow> 'a json_decoder" where
  "constant_decoder x = \<lparr>jd_Decode = (\<lambda>b. Inr (x, b)), jd_DecodeEmpty = (\<lambda>b. Some JsonEOF)\<rparr>"

subsection \<open>Texts\<close>

text \<open>ASCII texts are valid in the database.\<close>

lemma pg_text_ascii:
  assumes "is_ascii s" and "CHR 0x00 \<notin> set s"
  shows "pg_text s"
proof -
  have "decode_rune (drop i s) \<noteq> (rune_error, 1)" if "(i, r) \<in> set (runes_from 0 s)" for i r
  proof -
    have "i < length s"
      using that set_zip_leftD by (fastforce simp: runes_from_is_ascii [OF assms(1)])
    then have "drop i s = s ! i # drop (Suc i) s" by (simp add: Cons_nth_drop_Suc)
    moreover have "byte_of (s ! i) < 128"
      using assms(1) \<open>i < length s\<close> by (simp add: is_ascii_def list_all_length)
    ultimately show ?thesis by (simp add: decode_rune_ascii)
  qed
  with assms(2) show ?thesis by (auto simp: pg_text_def valid_utf8_def list_all_iff)
qed

lemma btrim_plain: "s \<noteq> [] \<Longrightarrow> hd s \<noteq> CHR '' '' \<Longrightarrow> last s \<noteq> CHR '' '' \<Longrightarrow> btrim s = s"
proof -
  assume s: "s \<noteq> []" "hd s \<noteq> CHR '' ''" "last s \<noteq> CHR '' ''"
  then have "dropWhile (\<lambda>c. c = CHR '' '') s = s" "dropWhile (\<lambda>c. c = CHR '' '') (rev s) = rev s"
    by (simp_all add: dropWhile_eq_self_iff hd_rev)
  then show "btrim s = s" by (simp add: btrim_def)
qed

end
