(* ===== verification/SQL_Rows.thy ===== *)
theory SQL_Rows
  imports Repository_Incident
begin

text \<open>
  Rows between the database and the records of the code. A query of \<open>internal/repository\<close> names the
  columns that it selects in one place and the destinations of \<open>Scan\<close> in another, and only their
  positions connect the two; so do the columns, the placeholders and the arguments of an \<open>INSERT\<close>.
  Here a row is the list of its cells, in the order of the query, and \<open>Scan\<close> takes it cell by cell,
  with the types that \<open>pgx\<close> accepts for each destination. The repositories of this development
  return the row itself: the lemmas say that this is what the code scans.
\<close>

subsection \<open>Cells and destinations\<close>

datatype cell =
    CUuid uuid | CText gostring | CTime time | CJson "(gostring \<times> json) list" | CVector "f32 list" | CInt int | CNull

text \<open>The columns that a projection names: the text of the query, split at its commas.\<close>

definition columns_of :: "gostring \<Rightarrow> gostring list" where
  "columns_of projection = map TrimSpace (split_on (CHR '','') projection)"

definition select_cells :: "gostring list \<Rightarrow> (gostring \<times> cell) list \<Rightarrow> cell list option" where
  "select_cells columns row = those (map (map_of row) columns)"

type_synonym 'r dest = "cell \<Rightarrow> 'r \<Rightarrow> (gostring, 'r) result"

definition cannot_scan :: gostring where "cannot_scan = ''cannot scan into destination''"

fun to_uuid :: "(uuid \<Rightarrow> 'r \<Rightarrow> 'r) \<Rightarrow> 'r dest" where
  "to_uuid put (CUuid u) r = Inr (put u r)"
| "to_uuid put _ r = Inl cannot_scan"

fun to_text :: "(gostring \<Rightarrow> 'r \<Rightarrow> 'r) \<Rightarrow> 'r dest" where
  "to_text put (CText s) r = Inr (put s r)"
| "to_text put _ r = Inl cannot_scan"

fun to_text_pointer :: "(gostring option \<Rightarrow> 'r \<Rightarrow> 'r) \<Rightarrow> 'r dest" where
  "to_text_pointer put (CText s) r = Inr (put (Some s) r)"
| "to_text_pointer put CNull r = Inr (put None r)"
| "to_text_pointer put _ r = Inl cannot_scan"

fun to_time :: "(time \<Rightarrow> 'r \<Rightarrow> 'r) \<Rightarrow> 'r dest" where
  "to_time put (CTime t) r = Inr (put t r)"
| "to_time put _ r = Inl cannot_scan"

fun to_time_pointer :: "(time option \<Rightarrow> 'r \<Rightarrow> 'r) \<Rightarrow> 'r dest" where
  "to_time_pointer put (CTime t) r = Inr (put (Some t) r)"
| "to_time_pointer put CNull r = Inr (put None r)"
| "to_time_pointer put _ r = Inl cannot_scan"

fun to_map :: "((gostring \<times> json) list option \<Rightarrow> 'r \<Rightarrow> 'r) \<Rightarrow> 'r dest" where
  "to_map put (CJson m) r = Inr (put (Some m) r)"
| "to_map put CNull r = Inr (put None r)"
| "to_map put _ r = Inl cannot_scan"

fun to_int :: "(int \<Rightarrow> 'r \<Rightarrow> 'r) \<Rightarrow> 'r dest" where
  "to_int put (CInt n) r = Inr (put n r)"
| "to_int put _ r = Inl cannot_scan"

fun Scan :: "'r dest list \<Rightarrow> cell list \<Rightarrow> 'r \<Rightarrow> (gostring, 'r) result" where
  "Scan [] [] r = Inr r"
| "Scan (d # ds) (c # cs) r = rbind (d c r) (Scan ds cs)"
| "Scan _ _ r = Inl ''number of field descriptions must equal number of destinations''"

definition text_cell :: "gostring option \<Rightarrow> cell" where
  "text_cell x = (case x of None \<Rightarrow> CNull | Some s \<Rightarrow> CText s)"

definition time_cell :: "time option \<Rightarrow> cell" where
  "time_cell x = (case x of None \<Rightarrow> CNull | Some t \<Rightarrow> CTime t)"

definition json_cell :: "(gostring \<times> json) list option \<Rightarrow> cell" where
  "json_cell x = (case x of None \<Rightarrow> CNull | Some m \<Rightarrow> CJson m)"

lemma pointer_cells [simp]:
  "to_text_pointer put (text_cell x) r = Inr (put x r)"
  "to_time_pointer put' (time_cell y) r = Inr (put' y r)"
  "to_map put'' (json_cell z) r = Inr (put'' z r)"
  by (cases x; cases y; cases z; simp add: text_cell_def time_cell_def json_cell_def)+

subsection \<open>Incidents\<close>

text \<open>A row of \<open>incidents\<close>, by the columns of the migration.\<close>

definition incident_row :: "Incident \<Rightarrow> (gostring \<times> cell) list" where
  "incident_row r =
     [(''id'', CUuid (inc_ID r)), (''team_id'', CUuid (inc_TeamID r)),
      (''external_id'', text_cell (inc_ExternalID r)), (''title'', CText (inc_Title r)),
      (''description'', CText (inc_Description r)), (''severity'', CText (inc_Severity r)),
      (''status'', CText (inc_Status r)), (''source'', CText (inc_Source r)),
      (''started_at'', CTime (inc_StartedAt r)), (''resolved_at'', time_cell (inc_ResolvedAt r)),
      (''embedding'', if inc_Embedding r = [] then CNull else CVector (inc_Embedding r)),
      (''metadata'', json_cell (inc_Metadata r)),
      (''created_at'', CTime (inc_CreatedAt r)), (''updated_at'', CTime (inc_UpdatedAt r))]"

definition incidentColumns :: gostring where
  "incidentColumns =
     [CHR 0x0A, CHR 0x09] @ ''id, team_id, external_id, title, description, severity, status, source,''
       @ [CHR 0x0A, CHR 0x09] @ ''started_at, resolved_at, metadata, created_at, updated_at''"

definition zero_Incident :: Incident where
  "zero_Incident =
     \<lparr>inc_ID = 0, inc_TeamID = 0, inc_ExternalID = None, inc_Title = [], inc_Description = [], inc_Severity = [],
      inc_Status = [], inc_Source = [], inc_StartedAt = zero_time, inc_ResolvedAt = None, inc_Embedding = [],
      inc_Metadata = None, inc_CreatedAt = zero_time, inc_UpdatedAt = zero_time\<rparr>"

definition scanIncident :: "cell list \<Rightarrow> (gostring, Incident) result" where
  "scanIncident cells = Scan
     [to_uuid (\<lambda>x r. r\<lparr>inc_ID := x\<rparr>), to_uuid (\<lambda>x r. r\<lparr>inc_TeamID := x\<rparr>),
      to_text_pointer (\<lambda>x r. r\<lparr>inc_ExternalID := x\<rparr>), to_text (\<lambda>x r. r\<lparr>inc_Title := x\<rparr>),
      to_text (\<lambda>x r. r\<lparr>inc_Description := x\<rparr>), to_text (\<lambda>x r. r\<lparr>inc_Severity := x\<rparr>),
      to_text (\<lambda>x r. r\<lparr>inc_Status := x\<rparr>), to_text (\<lambda>x r. r\<lparr>inc_Source := x\<rparr>),
      to_time (\<lambda>x r. r\<lparr>inc_StartedAt := x\<rparr>), to_time_pointer (\<lambda>x r. r\<lparr>inc_ResolvedAt := x\<rparr>),
      to_map (\<lambda>x r. r\<lparr>inc_Metadata := x\<rparr>),
      to_time (\<lambda>x r. r\<lparr>inc_CreatedAt := x\<rparr>), to_time (\<lambda>x r. r\<lparr>inc_UpdatedAt := x\<rparr>)]
     cells zero_Incident"

text \<open>The destinations of a listing have \<open>total\<close> behind them.\<close>

definition scanIncidentInto :: "cell list \<Rightarrow> Incident \<times> int \<Rightarrow> (gostring, Incident \<times> int) result" where
  "scanIncidentInto cells it = Scan
     [to_uuid (\<lambda>x (r, n). (r\<lparr>inc_ID := x\<rparr>, n)), to_uuid (\<lambda>x (r, n). (r\<lparr>inc_TeamID := x\<rparr>, n)),
      to_text_pointer (\<lambda>x (r, n). (r\<lparr>inc_ExternalID := x\<rparr>, n)), to_text (\<lambda>x (r, n). (r\<lparr>inc_Title := x\<rparr>, n)),
      to_text (\<lambda>x (r, n). (r\<lparr>inc_Description := x\<rparr>, n)), to_text (\<lambda>x (r, n). (r\<lparr>inc_Severity := x\<rparr>, n)),
      to_text (\<lambda>x (r, n). (r\<lparr>inc_Status := x\<rparr>, n)), to_text (\<lambda>x (r, n). (r\<lparr>inc_Source := x\<rparr>, n)),
      to_time (\<lambda>x (r, n). (r\<lparr>inc_StartedAt := x\<rparr>, n)), to_time_pointer (\<lambda>x (r, n). (r\<lparr>inc_ResolvedAt := x\<rparr>, n)),
      to_map (\<lambda>x (r, n). (r\<lparr>inc_Metadata := x\<rparr>, n)),
      to_time (\<lambda>x (r, n). (r\<lparr>inc_CreatedAt := x\<rparr>, n)), to_time (\<lambda>x (r, n). (r\<lparr>inc_UpdatedAt := x\<rparr>, n)),
      to_int (\<lambda>x (r, n). (r, x))]
     cells it"

lemma incidentColumns_names:
  "columns_of incidentColumns =
     [''id'', ''team_id'', ''external_id'', ''title'', ''description'', ''severity'', ''status'', ''source'',
      ''started_at'', ''resolved_at'', ''metadata'', ''created_at'', ''updated_at'']"
  by code_simp

definition incident_cells :: "Incident \<Rightarrow> cell list" where
  "incident_cells r =
     [CUuid (inc_ID r), CUuid (inc_TeamID r), text_cell (inc_ExternalID r), CText (inc_Title r),
      CText (inc_Description r), CText (inc_Severity r), CText (inc_Status r), CText (inc_Source r),
      CTime (inc_StartedAt r), time_cell (inc_ResolvedAt r), json_cell (inc_Metadata r),
      CTime (inc_CreatedAt r), CTime (inc_UpdatedAt r)]"

lemma select_incident: "select_cells (columns_of incidentColumns) (incident_row r) = Some (incident_cells r)"
  by (simp add: select_cells_def incidentColumns_names incident_row_def incident_cells_def)

text \<open>What is selected is scanned into the fields it came from; the embedding is not read.\<close>

lemma scan_incident:
  "scanIncident (incident_cells r) = Inr (r\<lparr>inc_Embedding := []\<rparr>)"
  "scanIncidentInto (incident_cells r @ [CInt n]) (zero_Incident, 0) = Inr (r\<lparr>inc_Embedding := []\<rparr>, n)"
  by (simp_all add: scanIncident_def scanIncidentInto_def incident_cells_def rbind_def zero_Incident_def)

subsection \<open>The INSERT of an incident\<close>

definition create_columns :: gostring where
  "create_columns = ''team_id, external_id, title, description, severity, status, source,''
     @ [CHR 0x0A, CHR 0x09, CHR 0x09, CHR 0x09] @ '' started_at, resolved_at, metadata''"

text \<open>The arguments of \<open>Create\<close>, in the order of the placeholders \<open>$1\<close> to \<open>$10\<close>; the last one goes
  through \<open>COALESCE\<close> with the empty object.\<close>

definition create_args :: "Incident \<Rightarrow> cell list" where
  "create_args i =
     [CUuid (inc_TeamID i), text_cell (inc_ExternalID i), CText (TrimSpace (inc_Title i)),
      CText (inc_Description i), CText (inc_Severity i), CText (inc_Status i), CText (inc_Source i),
      CTime (inc_StartedAt i), time_cell (inc_ResolvedAt i), json_cell (inc_Metadata i)]"

definition coalesce :: "cell \<Rightarrow> cell \<Rightarrow> cell" where
  "coalesce a b = (if a = CNull then b else a)"

definition inserted_cells :: "Incident \<Rightarrow> (gostring \<times> cell) list" where
  "inserted_cells i =
     zip (columns_of create_columns) (butlast (create_args i) @ [coalesce (last (create_args i)) (CJson [])])"

text \<open>
  The row that the model inserts, before the server adds the id and the times, has in each of the
  columns what the statement gives it.
\<close>

lemma create_columns_names:
  "columns_of create_columns = [''team_id'', ''external_id'', ''title'', ''description'', ''severity'',
      ''status'', ''source'', ''started_at'', ''resolved_at'', ''metadata'']"
  by code_simp

lemma inserted_as_modelled:
  "list_all (\<lambda>(column, c). map_of (incident_row (i\<lparr>inc_Title := TrimSpace (inc_Title i),
      inc_Metadata := Some (case inc_Metadata i of None \<Rightarrow> [] | Some m \<Rightarrow> m)\<rparr>)) column = Some c) (inserted_cells i)"
  by (cases "inc_Metadata i")
    (simp_all add: inserted_cells_def create_columns_names create_args_def coalesce_def json_cell_def incident_row_def)

subsection \<open>Accounts\<close>

definition user_row :: "User \<Rightarrow> (gostring \<times> cell) list" where
  "user_row u =
     [(''id'', CUuid (user_ID u)), (''team_id'', CUuid (user_TeamID u)), (''email'', CText (user_Email u)),
      (''password_hash'', CText (user_PasswordHash u)), (''name'', CText (user_Name u)),
      (''created_at'', CTime (user_CreatedAt u)), (''updated_at'', CTime (user_UpdatedAt u))]"

definition team_row :: "Team \<Rightarrow> (gostring \<times> cell) list" where
  "team_row t =
     [(''id'', CUuid (team_ID t)), (''name'', CText (team_Name t)),
      (''created_at'', CTime (team_CreatedAt t)), (''updated_at'', CTime (team_UpdatedAt t))]"

definition user_columns :: gostring where
  "user_columns = ''id, team_id, email, password_hash, name, created_at, updated_at''"

definition team_columns :: gostring where
  "team_columns = ''id, name, created_at, updated_at''"

definition scan_user :: "cell list \<Rightarrow> (gostring, User) result" where
  "scan_user cells = Scan
     [to_uuid (\<lambda>x u. u\<lparr>user_ID := x\<rparr>), to_uuid (\<lambda>x u. u\<lparr>user_TeamID := x\<rparr>), to_text (\<lambda>x u. u\<lparr>user_Email := x\<rparr>),
      to_text (\<lambda>x u. u\<lparr>user_PasswordHash := x\<rparr>), to_text (\<lambda>x u. u\<lparr>user_Name := x\<rparr>),
      to_time (\<lambda>x u. u\<lparr>user_CreatedAt := x\<rparr>), to_time (\<lambda>x u. u\<lparr>user_UpdatedAt := x\<rparr>)]
     cells zero_User"

definition scan_team :: "cell list \<Rightarrow> (gostring, Team) result" where
  "scan_team cells = Scan
     [to_uuid (\<lambda>x t. t\<lparr>team_ID := x\<rparr>), to_text (\<lambda>x t. t\<lparr>team_Name := x\<rparr>),
      to_time (\<lambda>x t. t\<lparr>team_CreatedAt := x\<rparr>), to_time (\<lambda>x t. t\<lparr>team_UpdatedAt := x\<rparr>)]
     cells zero_Team"

lemma account_columns:
  "columns_of user_columns = [''id'', ''team_id'', ''email'', ''password_hash'', ''name'', ''created_at'', ''updated_at'']"
  "columns_of team_columns = [''id'', ''name'', ''created_at'', ''updated_at'']"
  by code_simp+

definition user_cells :: "User \<Rightarrow> cell list" where
  "user_cells u = map snd (user_row u)"

definition team_cells :: "Team \<Rightarrow> cell list" where
  "team_cells t = map snd (team_row t)"

lemma select_account:
  "select_cells (columns_of user_columns) (user_row u) = Some (user_cells u)"
  "select_cells (columns_of team_columns) (team_row t) = Some (team_cells t)"
  by (simp_all add: select_cells_def account_columns user_row_def team_row_def user_cells_def team_cells_def)

lemma scan_account: "scan_user (user_cells u) = Inr u" "scan_team (team_cells t) = Inr t"
  by (simp_all add: scan_user_def scan_team_def user_cells_def team_cells_def user_row_def team_row_def rbind_def)

end
