(* ===== verification/Incident_Properties.thy ===== *)
theory Incident_Properties
  imports Instances SQL_Rows
begin

text \<open>
  What the incident repository promises a team: its incidents are its own, whatever the other teams
  do; what is stored can be read back, page by page; a change is the change that was asked for.
\<close>

subsection \<open>A table for the examples\<close>

definition sample_incident :: "uuid \<Rightarrow> uuid \<Rightarrow> time \<Rightarrow> gostring option \<Rightarrow> Incident" where
  "sample_incident i t started x =
     \<lparr>inc_ID = i, inc_TeamID = t, inc_ExternalID = x, inc_Title = ''disk full'', inc_Description = [],
      inc_Severity = ''P2'', inc_Status = ''open'', inc_Source = ''pagerduty'', inc_StartedAt = started,
      inc_ResolvedAt = None, inc_Embedding = [], inc_Metadata = Some [], inc_CreatedAt = 5000, inc_UpdatedAt = 5000\<rparr>"

definition sample_table :: incident_db where
  "sample_table =
     \<lparr>idb_teams = [1, 2], idb_rows = [sample_incident 11 1 1000 (Some ''Q1''), sample_incident 12 1 2000 None],
      idb_uuid = (\<lambda>n. of_nat n + 20), idb_next = 0, idb_now = 9000, idb_json = Some, idb_fault = (\<lambda>_. None),
      idb_kept = False\<rparr>"

lemma sample_incident_sel [simp]:
  "inc_ID (sample_incident i t s x) = i" "inc_TeamID (sample_incident i t s x) = t"
  "inc_ExternalID (sample_incident i t s x) = x" "inc_Title (sample_incident i t s x) = ''disk full''"
  "inc_Status (sample_incident i t s x) = ''open''" "inc_Severity (sample_incident i t s x) = ''P2''"
  "inc_Source (sample_incident i t s x) = ''pagerduty''" "inc_Description (sample_incident i t s x) = []"
  "inc_StartedAt (sample_incident i t s x) = s" "inc_ResolvedAt (sample_incident i t s x) = None"
  "inc_Embedding (sample_incident i t s x) = []" "inc_Metadata (sample_incident i t s x) = Some []"
  by (simp_all add: sample_incident_def)

lemma sample_table_sel [simp]:
  "idb_rows sample_table = [sample_incident 11 1 1000 (Some ''Q1''), sample_incident 12 1 2000 None]"
  "idb_teams sample_table = [1, 2]" "idb_fault sample_table = (\<lambda>_. None)" "idb_now sample_table = 9000"
  "idb_json sample_table = Some" "idb_next sample_table = 0" "idb_uuid sample_table n = of_nat n + 20"
  by (simp_all add: sample_table_def)

lemma sample_texts:
  "pg_text ''disk full''" "pg_text ''P2''" "pg_text ''open''" "pg_text ''pagerduty''" "pg_text ''Q1''" "pg_text []"
  by (rule pg_text_ascii; simp add: is_ascii_def)+

lemma sample_checks: "x \<in> {None, Some ''Q1'', Some ''Q2''} \<Longrightarrow> incident_checks (sample_incident i t s x)"
proof -
  have "btrim ''disk full'' = ''disk full''" "btrim ''Q1'' = ''Q1''" "btrim ''Q2'' = ''Q2''"
    by (rule btrim_plain; simp)+
  moreover have "rune_count ''disk full'' = 9" "rune_count ''Q1'' = 2" "rune_count ''Q2'' = 2"
    by (subst rune_count_ascii; simp add: is_ascii_def)+
  ultimately show "x \<in> {None, Some ''Q1'', Some ''Q2''} \<Longrightarrow> ?thesis"
    by (auto simp: incident_checks_def title_check_def severity_check_def status_check_def
        source_check_def resolved_after_start_def external_id_check_def)
qed

lemma sample_table_inv: "incident_inv sample_table"
  using sample_checks [of "Some ''Q1''" 11 1 1000] sample_checks [of None 12 1 2000]
  by (simp add: incident_inv_def row_ok_def external_key_def)

subsection \<open>The table over time\<close>

text \<open>
  C7. Whatever requests are served, with whatever failures in between, the table keeps its
  invariant: ids are distinct, every row satisfies the checks of its columns and belongs to an
  existing team, and no two rows of a team share an external id.
\<close>

lemma incident_table_invariant:
  assumes "incident_run db qs db'" and "incident_inv db"
  shows "incident_inv db'"
  by (rule run_inv [OF assms])

lemma incident_table_invariant_witness:
  "incident_inv (serve (ReqDelete 2 12) (serve (ReqDelete 1 11) sample_table))"
proof (rule incident_table_invariant [OF _ sample_table_inv])
  show "incident_run sample_table [ReqDelete 1 11, ReqDelete 2 12]
      (serve (ReqDelete 2 12) (serve (ReqDelete 1 11) sample_table))"
    by (intro run_serve run_end)
qed

text \<open>
  C1. Tenant isolation. Over any sequence of requests of other teams, and any failures, everything
  that a team can read stays as it was: an incident by its id, by its external id, and every page of
  every listing. (The two readings meet the same connection.)
\<close>

lemma tenant_isolation:
  assumes "incident_run db qs db'" and "incident_inv db" and "\<forall>q \<in> set qs. request_team q \<noteq> t"
    and "idb_fault db' = idb_fault db"
  shows "GetByID t i db' = GetByID t i db \<and> FindByExternalID t x db' = FindByExternalID t x db
    \<and> List_incidents t f db' = List_incidents t f db"
proof -
  have "team_rows t db' = team_rows t db" by (rule run_isolated [OF assms(1-3)])
  with assms(4) show ?thesis
    by (intro conjI GetByID_team_rows FindByExternalID_team_rows List_team_rows)
qed

lemma tenant_isolation_witness:
  "GetByID 1 11 (serve (ReqDelete 2 11) sample_table) = Inr (sample_incident 11 1 1000 (Some ''Q1''))"
proof -
  have run: "incident_run sample_table [ReqDelete 2 11] (serve (ReqDelete 2 11) sample_table)"
    by (intro run_serve run_end)
  have "\<forall>q \<in> set [ReqDelete 2 11]. request_team q \<noteq> 1" by simp
  from tenant_isolation [OF run sample_table_inv this, of 11]
  have "GetByID 1 11 (serve (ReqDelete 2 11) sample_table) = GetByID 1 11 sample_table"
    by (simp add: Delete_def autocommit_def deleteIncident_def Let_def)
  then show ?thesis by (simp add: GetByID_def)
qed

subsection \<open>Listings\<close>

text \<open>
  C13. A page is a window of the matching incidents of the team, newest first with ties by id, at
  most a hundred of them; when it is not empty it comes with the number of all that match.
\<close>

lemma page_is_window:
  assumes "List_incidents t f db = Inr page" and "incident_inv db"
  shows "ip_Incidents page = take (nat (fst (bounds f))) (drop (nat (snd (bounds f))) (listing t f db))
    \<and> set (listing t f db) = {r \<in> set (idb_rows db). selected t f r} \<and> distinct (map inc_ID (listing t f db))
    \<and> sorted_wrt newer (listing t f db)
    \<and> length (ip_Incidents page) \<le> 100
    \<and> ip_Total page = (if ip_Incidents page = [] then 0 else int (length (listing t f db)))"
proof (intro conjI)
  note page = List_Inr [OF assms(1)]
  show w: "ip_Incidents page = take (nat (fst (bounds f))) (drop (nat (snd (bounds f))) (listing t f db))"
    using page(1) by (simp add: window_def)
  show "length (ip_Incidents page) \<le> 100" using bounds_range [of f] by (simp add: w) linarith
  have m: "mset (listing t f db) = mset (filter (selected t f) (idb_rows db))"
    by (simp add: listing_def)
  have "mset (map inc_ID (listing t f db)) = mset (map inc_ID (filter (selected t f) (idb_rows db)))"
    by (simp add: m)
  then show d: "distinct (map inc_ID (listing t f db))"
    using incident_invD(1) [OF assms(2)] mset_eq_imp_distinct_iff distinct_map_filter by blast
  have "sorted_wrt (\<lambda>a b. \<not> newer b a \<and> inc_ID a \<noteq> inc_ID b) (listing t f db)"
    using listing_sorted [of t f db] d
    by (auto simp: sorted_wrt_iff_nth_less distinct_conv_nth)
  then show "sorted_wrt newer (listing t f db)"
    by (rule sorted_wrt_mono_rel [rotated]) (use newer_total in blast)
qed (use List_Inr(2) [OF assms(1)] set_listing in blast)+

definition all_incidents :: IncidentFilter where
  "all_incidents = \<lparr>if_Status = [], if_Severity = [], if_Source = [], if_Limit = 1, if_Offset = 0\<rparr>"

lemma sample_listing:
  "listing 1 all_incidents sample_table = [sample_incident 12 1 2000 None, sample_incident 11 1 1000 (Some ''Q1'')]"
  by (simp add: listing_def selected_def all_incidents_def sortSlice_def newer_def insert_right_def)

lemma page_is_window_witness:
  "ip_Incidents (projr (List_incidents 1 all_incidents sample_table)) = [sample_incident 12 1 2000 None]"
proof -
  have "list_all pg_text (if_Status all_incidents @ if_Severity all_incidents @ if_Source all_incidents)"
    by (simp add: all_incidents_def)
  then obtain page where page: "List_incidents 1 all_incidents sample_table = Inr page"
    using List_succeeds [of sample_table all_incidents 1] by auto
  have "bounds all_incidents = (1, 0)"
    by (simp add: bounds_def all_incidents_def MaxIncidentLimit_def)
  then show ?thesis
    using page_is_window [OF page sample_table_inv] by (simp add: page sample_listing)
qed

text \<open>
  C14. Paging loses and repeats nothing: when the database answers, the pages of a size from 1 to 100
  at consecutive offsets are consecutive pieces of the listing, from its start.
\<close>

lemma paging_covers:
  assumes "idb_fault db = (\<lambda>_. None)" and "list_all pg_text (if_Status f @ if_Severity f @ if_Source f)"
    and "1 \<le> l" and "l \<le> 100"
  shows "\<exists>pages. length pages = n
    \<and> (\<forall>k < n. List_incidents t (f\<lparr>if_Limit := int l, if_Offset := int (k * l)\<rparr>) db = Inr (pages ! k))
    \<and> concat (map ip_Incidents pages) = take (n * l) (listing t f db)"
proof -
  define asked where "asked k = f\<lparr>if_Limit := int l, if_Offset := int (k * l)\<rparr>" for k
  have "\<exists>page. List_incidents t (asked k) db = Inr page" for k
    by (rule List_succeeds) (use assms in \<open>simp_all add: asked_def\<close>)
  then obtain page where page: "List_incidents t (asked k) db = Inr (page k)" for k by metis
  have list: "listing t (asked k) db = listing t f db" for k
    by (simp add: listing_def asked_def selected_def [abs_def])
  have "bounds (asked k) = (int l, int (k * l))" for k
    by (subst bounds_exact) (use assms(3,4) in \<open>simp_all add: asked_def\<close>)
  then have "ip_Incidents (page k) = take l (drop (k * l) (listing t f db))" for k
    using List_Inr(1) [OF page] by (simp add: window_def list nat_mult_distrib del: of_nat_mult)
  then have "concat (map ip_Incidents (map page [0..<n])) = take (n * l) (listing t f db)"
    using concat_windows [of l "listing t f db" n] assms(3) by (simp add: comp_def)
  then show ?thesis
    by (intro exI [of _ "map page [0..<n]"]) (simp add: page [unfolded asked_def] del: of_nat_mult)
qed

lemma paging_covers_witness:
  "\<exists>pages :: IncidentPage list. length pages = 2
     \<and> concat (map ip_Incidents pages) = [sample_incident 12 1 2000 None, sample_incident 11 1 1000 (Some ''Q1'')]"
proof -
  have "list_all pg_text (if_Status all_incidents @ if_Severity all_incidents @ if_Source all_incidents)"
    by (simp add: all_incidents_def)
  from paging_covers [OF sample_table_sel(3) this, of 1 2 1] show ?thesis
    by (auto simp: sample_listing)
qed

subsection \<open>Changes\<close>

text \<open>
  C15. A successful update changes one incident of the team, in the columns of the patch and the
  time of the change, and gives back what it stored; every other incident stays as it was.
\<close>

lemma update_changes_patch:
  assumes "incident_inv db" and "\<not> empty_patch p" and "Update t i p db = (Inr r', db')"
  shows "\<exists>r \<in> set (idb_rows db). inc_ID r = i \<and> inc_TeamID r = t
    \<and> r' = (patched p r)\<lparr>inc_UpdatedAt := idb_now db\<rparr> \<and> incident_checks r'
    \<and> map inc_ID (idb_rows db') = map inc_ID (idb_rows db)
    \<and> set (idb_rows db') = insert r' (set (idb_rows db) - {r}) \<and> db' = db\<lparr>idb_rows := idb_rows db'\<rparr>"
proof (rule Update_Inr [OF assms])
  fix r
  assume r: "r \<in> set (idb_rows db)" "inc_ID r = i" "inc_TeamID r = t"
    and r': "r' = updated p (idb_now db) r" "incident_checks r'" and db': "db' = replace_row r r' db"
  have "inc_ID r' = inc_ID r" by (simp add: r'(1) updated_def)
  then have "map inc_ID (idb_rows db') = map inc_ID (idb_rows db)"
    by (auto simp: db' replace_row_def)
  moreover have "set (idb_rows db') = insert r' (set (idb_rows db) - {r})"
    using r(1) by (auto simp: db' replace_row_def)
  moreover have "db' = db\<lparr>idb_rows := idb_rows db'\<rparr>" by (simp add: db' replace_row_def)
  ultimately show ?thesis
    using r r' by (intro bexI [OF _ r(1)]) (simp add: updated_def)
qed

definition resolve_patch :: IncidentPatch where
  "resolve_patch = \<lparr>pt_Title = None, pt_Description = None, pt_Severity = None, pt_Status = Some ''resolved'',
     pt_ResolvedAt = Some 8000, pt_ClearResolvedAt = False\<rparr>"

lemma sample_update:
  "\<exists>db'. Update 1 12 resolve_patch sample_table =
     (Inr ((sample_incident 12 1 2000 None)\<lparr>inc_Status := ''resolved'', inc_ResolvedAt := Some 8000, inc_UpdatedAt := 9000\<rparr>), db')"
proof -
  have texts: "args_encodable (snd (update_assignments resolve_patch))"
    by (simp add: update_assignments_def resolve_patch_def set_given_def set_column_def args_encodable_def
        Let_def pg_text_ascii is_ascii_def)
  have "updated resolve_patch 9000 (sample_incident 12 1 2000 None) =
      (sample_incident 12 1 2000 None)\<lparr>inc_Status := ''resolved'', inc_ResolvedAt := Some 8000, inc_UpdatedAt := 9000\<rparr>"
    by (simp add: updated_def patched_def resolve_patch_def pg_time_def)
  moreover from sample_checks [of None 12 1 2000] this
  have "incident_checks (updated resolve_patch 9000 (sample_incident 12 1 2000 None))"
    by (simp add: incident_checks_def status_check_def resolved_after_start_def)
  moreover have "\<not> empty_patch resolve_patch" by (simp add: empty_patch_def resolve_patch_def)
  ultimately show ?thesis
    by (simp add: Update_eq [OF sample_table_inv] update_result_def texts autocommit_def)
qed

lemma update_changes_patch_witness:
  "inc_Status (projr (fst (Update 1 12 resolve_patch sample_table))) = ''resolved''"
proof -
  have "\<not> empty_patch resolve_patch" by (simp add: empty_patch_def resolve_patch_def)
  moreover obtain r' db' where up: "Update 1 12 resolve_patch sample_table = (Inr r', db')"
    using sample_update by blast
  ultimately show ?thesis
    using update_changes_patch [OF sample_table_inv _ up] by (auto simp: patched_def resolve_patch_def up)
qed

text \<open>
  An incident of another team is the same as none: reading, updating and deleting by an id that
  is no id of the team's own answer \<open>not found\<close> and change nothing, whoever else has that id.
\<close>

lemma foreign_is_missing:
  assumes "incident_inv db" and "\<forall>s. idb_fault db s = None" and "i \<notin> inc_ID ` set (team_rows t db)"
    and "\<not> empty_patch p" and "args_encodable (snd (update_assignments p))"
  shows "GetByID t i db = Inl NotFound \<and> Update t i p db = (Inl NotFound, db) \<and> Delete t i db = (Some NotFound, db)"
proof -
  have none: "find (\<lambda>r. inc_ID r = i \<and> inc_TeamID r = t) (idb_rows db) = None"
    "filter (\<lambda>r. inc_ID r = i \<and> inc_TeamID r = t) (idb_rows db) = []"
    "filter (\<lambda>r. \<not> (inc_ID r = i \<and> inc_TeamID r = t)) (idb_rows db) = idb_rows db"
    using assms(3) by (auto simp: team_rows_def find_None_iff filter_empty_conv filter_id_conv)
  show ?thesis
    by (simp add: GetByID_def Update_eq [OF assms(1,4)] update_result_def Delete_def deleteIncident_def Let_def
        autocommit_def assms(2,5) none del: de_Morgan_conj)
qed

lemma foreign_is_missing_witness: "Delete 2 11 sample_table = (Some NotFound, sample_table)"
proof -
  have "args_encodable (snd (update_assignments resolve_patch))"
    by (simp add: update_assignments_def resolve_patch_def set_given_def set_column_def args_encodable_def
        Let_def pg_text_ascii is_ascii_def)
  moreover have "\<not> empty_patch resolve_patch" by (simp add: empty_patch_def resolve_patch_def)
  moreover have "11 \<notin> inc_ID ` set (team_rows 2 sample_table)" by (simp add: team_rows_def)
  ultimately show ?thesis
    using foreign_is_missing [OF sample_table_inv, of 11 2 resolve_patch] by simp
qed

subsection \<open>Creation\<close>

lemma find_new: "P r \<Longrightarrow> \<forall>x \<in> set xs. \<not> P x \<Longrightarrow> find P (xs @ [r]) = Some r"
  by (induction xs) auto

lemma Create_taken:
  assumes "Some (inc_TeamID v, x) \<in> external_key ` set (idb_rows db)" and "inc_ExternalID v = Some x"
    and "idb_fault db AtCreate = None"
  shows "\<exists>e. Create v db = (Inl e, db)"
proof -
  define u where "u = v\<lparr>inc_Title := TrimSpace (inc_Title v)\<rparr>"
  have "\<exists>e. insertIncident u db = Inl e"
  proof (rule ccontr)
    assume "\<nexists>e. insertIncident u db = Inl e"
    then obtain y db2 where "insertIncident u db = Inr (y, db2)" by (metis sum.exhaust prod.exhaust)
    then obtain m where y: "y = stored_row (idb_uuid db (idb_next db)) (idb_now db) m u"
      and key: "external_key y \<noteq> None \<Longrightarrow> external_key y \<notin> external_key ` set (idb_rows db)"
      using insertIncident_Inr by metis
    have "external_key y = Some (inc_TeamID v, x)"
      using assms(2) by (simp add: y u_def stored_row_def external_key_def)
    then show False using key assms(1) by simp
  qed
  then show ?thesis by (auto simp: Create_def u_def [symmetric] autocommit_def assms(3))
qed

text \<open>
  C12. What a team creates it can read back, by its id and by its external id; and the same external
  id is not accepted from that team again, so that a redelivered webhook makes no second incident.
\<close>

lemma created_is_read_back:
  assumes "incident_inv db" and "Create v db = (Inr r, db')" and "\<forall>s. idb_fault db s = None"
  shows "GetByID (inc_TeamID v) (inc_ID r) db' = Inr r
    \<and> inc_Title r = TrimSpace (inc_Title v) \<and> inc_ExternalID r = inc_ExternalID v
    \<and> (\<forall>x. inc_ExternalID v = Some x \<longrightarrow> FindByExternalID (inc_TeamID v) x db' = Inr r
        \<and> (\<forall>v'. inc_TeamID v' = inc_TeamID v \<longrightarrow> inc_ExternalID v' = Some x \<longrightarrow>
             (\<exists>e. Create v' db' = (Inl e, db'))))"
proof -
  define v0 where "v0 = v\<lparr>inc_Title := TrimSpace (inc_Title v)\<rparr>"
  have ins: "insertIncident v0 db = Inr (r, db')"
    using Create_Inr [OF assms(2)] by (simp add: v0_def)
  from insertIncident_Inr [OF ins] obtain meta where
    r: "r = stored_row (idb_uuid db (idb_next db)) (idb_now db) meta v0"
    and db': "db' = db\<lparr>idb_rows := idb_rows db @ [r], idb_next := Suc (idb_next db)\<rparr>"
    and new: "external_key r \<noteq> None \<Longrightarrow> external_key r \<notin> external_key ` set (idb_rows db)"
      "inc_ID r \<notin> inc_ID ` set (idb_rows db)" by metis
  have row: "inc_TeamID r = inc_TeamID v" "inc_ExternalID r = inc_ExternalID v" "inc_Title r = TrimSpace (inc_Title v)"
    by (simp_all add: r v0_def stored_row_def)
  have ok: "idb_fault db' s = None" for s using assms(3) by (simp add: db')
  have "GetByID (inc_TeamID v) (inc_ID r) db' = Inr r"
  proof -
    have "find (\<lambda>y. inc_ID y = inc_ID r \<and> inc_TeamID y = inc_TeamID v) (idb_rows db @ [r]) = Some r"
      by (rule find_new) (use new(2) row in \<open>auto simp: image_iff\<close>)
    then show ?thesis by (simp add: GetByID_def ok) (simp add: db')
  qed
  moreover have "FindByExternalID (inc_TeamID v) x db' = Inr r \<and> (\<exists>e. Create v' db' = (Inl e, db'))"
    if x: "inc_ExternalID v = Some x" and v': "inc_TeamID v' = inc_TeamID v" "inc_ExternalID v' = Some x" for x v'
  proof
    have "pg_text x"
      using ins x by (auto simp: insertIncident_def incident_texts_def v0_def split: if_splits)
    moreover have "find (\<lambda>y. inc_TeamID y = inc_TeamID v \<and> inc_ExternalID y = Some x) (idb_rows db @ [r]) = Some r"
      by (rule find_new) (use new(1) row x in \<open>auto simp: external_key_def image_iff\<close>)
    ultimately show "FindByExternalID (inc_TeamID v) x db' = Inr r"
      by (simp add: FindByExternalID_def ok) (simp add: db')
    have "external_key r = Some (inc_TeamID v', x)" by (simp add: external_key_def row x v'(1))
    then show "\<exists>e. Create v' db' = (Inl e, db')"
      by (intro Create_taken [OF _ v'(2)]) (simp_all add: db' assms(3))
  qed
  ultimately show ?thesis using row by blast
qed

definition new_incident :: Incident where
  "new_incident = sample_incident 0 2 3000 (Some ''Q2'')"

lemma sample_title: "TrimSpace ''disk full'' = ''disk full''"
  by code_simp

lemma sample_stored: "stored_row 20 9000 [] new_incident =
    (sample_incident 20 2 3000 (Some ''Q2''))\<lparr>inc_CreatedAt := 9000, inc_UpdatedAt := 9000\<rparr>"
  by (simp add: stored_row_def new_incident_def sample_incident_def pg_time_def)

lemma new_incident_ok: "Incident_Validate new_incident = None"
  unfolding Incident_Validate_None
  by (simp add: incident_ok_def new_incident_def sample_title Severity_Valid_def IncidentStatus_Valid_def
      Source_Valid_def AllSeverities_def AllIncidentStatuses_def AllSources_def zero_time_def
      SeverityP1_def SeverityP2_def StatusOpen_def SourceManual_def SourcePagerDuty_def)

lemma sample_given:
  "external_id_check (inc_ExternalID new_incident)"
  "idb_uuid sample_table (idb_next sample_table) \<notin> inc_ID ` set (idb_rows sample_table)"
  "inc_TeamID new_incident \<in> set (idb_teams sample_table)"
  "list_all pg_text (incident_texts (new_incident\<lparr>inc_Title := TrimSpace (inc_Title new_incident)\<rparr>))"
  "idb_json sample_table (case inc_Metadata new_incident of None \<Rightarrow> [] | Some m \<Rightarrow> m) = Some []"
  using sample_checks [of "Some ''Q2''" 0 2 3000] pg_text_ascii [of "''Q2''"]
  by (simp_all add: new_incident_def incident_checks_def incident_texts_def sample_title sample_texts is_ascii_def)

lemma sample_create:
  "\<exists>r db'. Create new_incident sample_table = (Inr r, db') \<and> inc_ID r = 20"
  using Create_validated [OF new_incident_ok [unfolded Incident_Validate_None] sample_given(1) _ sample_given(2-5)]
  by (simp add: external_key_def new_incident_def stored_row_def Let_def)

lemma created_is_read_back_witness:
  "\<exists>r db'. Create new_incident sample_table = (Inr r, db') \<and> GetByID 2 20 db' = Inr r \<and> FindByExternalID 2 ''Q2'' db' = Inr r"
proof -
  obtain r db' where c: "Create new_incident sample_table = (Inr r, db')" and i: "inc_ID r = 20"
    using sample_create by blast
  have "inc_TeamID new_incident = 2" "inc_ExternalID new_incident = Some ''Q2''" by (simp_all add: new_incident_def)
  with created_is_read_back [OF sample_table_inv c] c i show ?thesis by simp
qed

text \<open>
  C33. What validation leaves to the database: an incident that \<open>Validate\<close> accepts, for an existing
  team, with texts and metadata that the database can store, is created as it was given (title
  trimmed, instants cut to the microsecond) unless the team has one with its external id.
\<close>

lemma validated_is_created:
  assumes "Incident_Validate v = None" and "external_id_check (inc_ExternalID v)"
    and "idb_fault db AtCreate = None" and "idb_uuid db (idb_next db) \<notin> inc_ID ` set (idb_rows db)"
    and "inc_TeamID v \<in> set (idb_teams db)"
    and "list_all pg_text (incident_texts (v\<lparr>inc_Title := TrimSpace (inc_Title v)\<rparr>))"
    and "idb_json db (case inc_Metadata v of None \<Rightarrow> [] | Some m \<Rightarrow> m) = Some meta"
  shows "fst (Create v db) =
    (if \<exists>r \<in> set (idb_rows db). inc_TeamID r = inc_TeamID v \<and> inc_ExternalID r = inc_ExternalID v \<and> inc_ExternalID v \<noteq> None
     then Inl Conflict
     else Inr (v\<lparr>inc_ID := idb_uuid db (idb_next db), inc_Title := TrimSpace (inc_Title v),
       inc_StartedAt := pg_time (inc_StartedAt v), inc_ResolvedAt := map_option pg_time (inc_ResolvedAt v),
       inc_Embedding := [], inc_Metadata := Some meta, inc_CreatedAt := idb_now db, inc_UpdatedAt := idb_now db\<rparr>))"
proof -
  have key: "(\<exists>r \<in> set (idb_rows db). external_key r = external_key v \<and> inc_ExternalID v \<noteq> None) \<longleftrightarrow>
      (\<exists>r \<in> set (idb_rows db). inc_TeamID r = inc_TeamID v \<and> inc_ExternalID r = inc_ExternalID v \<and> inc_ExternalID v \<noteq> None)"
    by (auto simp: external_key_def)
  show ?thesis
    unfolding Create_validated [OF assms(1) [unfolded Incident_Validate_None] assms(2-7)] key
    by (cases "\<exists>r \<in> set (idb_rows db). inc_TeamID r = inc_TeamID v \<and> inc_ExternalID r = inc_ExternalID v \<and> inc_ExternalID v \<noteq> None")
      (simp_all only: if_True if_False fst_conv Let_def stored_row_def, simp)
qed

lemma validated_is_created_witness:
  "fst (Create new_incident sample_table) =
     Inr ((sample_incident 20 2 3000 (Some ''Q2''))\<lparr>inc_CreatedAt := 9000, inc_UpdatedAt := 9000\<rparr>)"
  using validated_is_created [OF new_incident_ok sample_given(1) _ sample_given(2-5)]
  by (simp add: new_incident_def sample_incident_def sample_title pg_time_def)

text \<open>
  C34. Rows and records agree column by column. The columns of every query and the destinations of its
  \<open>Scan\<close> have the same order and types, so each row that satisfies the constraints of its table is
  scanned without an error into the record it stands for (an incident in a listing with the total
  behind it); and each column of the \<open>INSERT\<close> gets, by its placeholder, the field of its name.
\<close>

lemma rows_scan_back:
  assumes "incident_inv db" and "r \<in> set (idb_rows db)"
  shows "(\<exists>cells. select_cells (columns_of incidentColumns) (incident_row r) = Some cells
       \<and> scanIncident cells = Inr r \<and> scanIncidentInto (cells @ [CInt n]) (zero_Incident, 0) = Inr (r, n))
     \<and> (\<exists>cells. select_cells (columns_of user_columns) (user_row u) = Some cells \<and> scan_user cells = Inr u)
     \<and> (\<exists>cells. select_cells (columns_of team_columns) (team_row t) = Some cells \<and> scan_team cells = Inr t)
     \<and> list_all (\<lambda>(column, c). map_of (incident_row (i\<lparr>inc_Title := TrimSpace (inc_Title i),
          inc_Metadata := Some (case inc_Metadata i of None \<Rightarrow> [] | Some m \<Rightarrow> m)\<rparr>)) column = Some c) (inserted_cells i)"
proof -
  have "inc_Embedding r = []" using incident_invD(2) [OF assms] by (simp add: row_ok_def)
  then have "r\<lparr>inc_Embedding := []\<rparr> = r" by simp
  with select_incident [of r] scan_incident(1) [of r] scan_incident(2) [of r n] select_account(1) [of u]
    select_account(2) [of t] scan_account(1) [of u] scan_account(2) [of t] inserted_as_modelled [of i]
  show ?thesis by (intro conjI exI) (assumption | simp only:)+
qed

lemma rows_scan_back_witness:
  "\<exists>cells. select_cells (columns_of incidentColumns) (incident_row (sample_incident 12 1 2000 None)) = Some cells
     \<and> scanIncident cells = Inr (sample_incident 12 1 2000 None)"
proof -
  have "sample_incident 12 1 2000 None \<in> set (idb_rows sample_table)" by simp
  from rows_scan_back [OF sample_table_inv this, THEN conjunct1] show ?thesis by blast
qed

end
