(* ===== verification/Account_Properties.thy ===== *)
theory Account_Properties
  imports Instances
begin

text \<open>
  What registration, login, refresh and logout promise together, on the stores of the program: the
  tables of the user repository and the revocation keys in Redis. The examples run on one user of
  one team.
\<close>

subsection \<open>When a session is granted\<close>

lemma issue_respond:
  assumes "unsent rw" and "status = 200 \<or> status = 201"
    and "issue_for lb h d user = Inr pair" and "lb_encode lb (session_payload lb user team pair) = Some b"
  shows "respondWithSession lb h d r status user team w rw =
      (w, writeRaw status (b @ [CHR 0x0A]) (setRefreshCookie h pair rw))"
  using assms(3,4) by (simp add: respondWithSession_def issue_for_def session_payload_def WriteJSON_def)

lemma Refresh_grants:
  assumes "unsent rw" and "request_cookie r RefreshCookieName = Some cookie"
    and "ParseRefresh (lb_jwt lb) (lb_uuid lb) (ah_tokens h) (dr_parse d) cookie = Inr claims"
    and "uuid_Parse (lb_uuid lb) (cl_ID claims) = Inr i"
    and "so_IsRevoked (ah_sessions h) i (aw_sessions w) = Inr False"
    and "UserID (lb_uuid lb) claims = Inr u" and "uo_FindByID (ah_users h) u (aw_users w) = Inr v"
    and "so_Revoke (ah_sessions h) i (remainingLife (dr_life d) claims) (aw_sessions w) = (None, ss)"
    and "issue_for lb h d v = Inr pair"
    and "lb_encode lb (session_payload lb v (zero_Team\<lparr>team_ID := user_TeamID v\<rparr>) pair) = Some b"
  shows "status_of (Refresh lb h d r w rw) = Some 200"
    and "aw_sessions (final_world (Refresh lb h d r w rw)) = ss"
proof -
  obtain w' where out: "Refresh lb h d r w rw =
      returned (respondWithSession lb h d r 200 v (zero_Team\<lparr>team_ID := user_TeamID v\<rparr>) w' rw)"
    and ss: "aw_sessions w' = ss"
    by (simp add: Refresh_def assms(2-8) emit_def)
  show "status_of (Refresh lb h d r w rw) = Some 200" "aw_sessions (final_world (Refresh lb h d r w rw)) = ss"
    using session_response(1) [OF assms(1), of 200]
    by (simp_all add: out ss issue_respond [OF assms(1) _ assms(9,10)])
qed

lemma Register_grants:
  assumes "unsent rw" and "DecodeJSON lb dec r = Inr req" and "registration_ok req"
    and "Hash (lb_bcrypt lb) (dr_salt d) (ah_hasher h) (rr_Password req) = Inr hash"
    and "uo_Create (ah_users h) (rr_TeamName req) (new_account req hash) (aw_users w) = (Inr (t, v), us)"
    and "issue_for lb h d v = Inr pair" and "lb_encode lb (session_payload lb v t pair) = Some b"
  shows "status_of (Register lb dec h d r w rw) = Some 201"
    and "aw_users (final_world (Register lb dec h d r w rw)) = us"
proof -
  obtain w' where out: "Register lb dec h d r w rw = returned (respondWithSession lb h d r 201 v t w' rw)"
    and us: "aw_users w' = us"
    using assms(3) [folded validateRegistration_None] by (simp add: Register_def assms(2,4,5) emit_def)
  show "status_of (Register lb dec h d r w rw) = Some 201"
    "aw_users (final_world (Register lb dec h d r w rw)) = us"
    using session_response(1) [OF assms(1), of 201]
    by (simp_all add: out us issue_respond [OF assms(1) _ assms(6,7)])
qed

subsection \<open>A user for the examples\<close>

definition sample_user :: User where
  "sample_user = \<lparr>user_ID = 2, user_TeamID = 1, user_Email = ''ann@acme.io'', user_PasswordHash = ''$correct horse'',
     user_Name = ''Ann'', user_CreatedAt = 5000, user_UpdatedAt = 5000\<rparr>"

definition sample_team :: Team where
  "sample_team = \<lparr>team_ID = 1, team_Name = ''Core'', team_CreatedAt = 5000, team_UpdatedAt = 5000\<rparr>"

definition empty_tables :: user_db where
  "empty_tables = \<lparr>ud_teams = [], ud_users = [], ud_uuid = (\<lambda>n. if even n then 1 else 2), ud_next = 0,
     ud_now = 5000, ud_lower = id, ud_fault = (\<lambda>_. None), ud_kept = False\<rparr>"

definition user_tables :: user_db where
  "user_tables = empty_tables\<lparr>ud_teams := [sample_team], ud_users := [sample_user], ud_next := 2\<rparr>"

definition redis_up :: redis_server where
  "redis_up = \<lparr>rs_entries = (\<lambda>_. None), rs_clock = 0, rs_up = True\<rparr>"

definition sample_tokens :: Tokens where
  "sample_tokens = \<lparr>tk_secret = ''an example secret of 32 or more bytes'', tk_accessTTL = 900 * 1000000000,
     tk_refreshTTL = 86400 * 1000000000\<rparr>"

definition sample_handler :: "(user_db, redis_server) AuthHandler" where
  "sample_handler = \<lparr>ah_users = NewUserRepository id, ah_sessions = NewSessionStore decimal_uuid redis_reference,
     ah_hasher = \<lparr>hs_cost = 12, hs_dummyHash = ''$flowcast-timing-equalizer''\<rparr>, ah_tokens = sample_tokens,
     ah_secureCookies = True\<rparr>"

definition world_of :: "user_db \<Rightarrow> redis_server \<Rightarrow> (user_db, redis_server) auth_world" where
  "world_of us ss = \<lparr>w_log = [], aw_users = us, aw_sessions = ss, aw_compared = []\<rparr>"

definition sample_request :: "(gostring \<times> gostring) list \<Rightarrow> request" where
  "sample_request cookies =
     \<lparr>rq_Method = ''POST'', rq_Path = ''/api/v1/auth/refresh'',
      rq_Header = Header_Set ''Content-Type'' ''application/json'' (\<lambda>_. []), rq_Cookies = cookies, rq_Body = [],
      rq_RemoteAddr = [], rq_ctx_id = None, rq_ctx_identity = None\<rparr>"

definition sample_draws :: "time \<Rightarrow> draws" where
  "sample_draws now = \<lparr>dr_salt = 0, dr_ids = (7, 8), dr_parse = now, dr_life = now, dr_issue = now\<rparr>"

lemma sample_user_sel [simp]:
  "user_ID sample_user = 2" "user_TeamID sample_user = 1" "user_Email sample_user = ''ann@acme.io''"
  "user_PasswordHash sample_user = ''$correct horse''" "user_Name sample_user = ''Ann''"
  "user_CreatedAt sample_user = 5000" "user_UpdatedAt sample_user = 5000"
  by (simp_all add: sample_user_def)

lemma sample_team_sel [simp]:
  "team_ID sample_team = 1" "team_Name sample_team = ''Core''"
  "team_CreatedAt sample_team = 5000" "team_UpdatedAt sample_team = 5000"
  by (simp_all add: sample_team_def)

lemma empty_tables_sel [simp]:
  "ud_teams empty_tables = []" "ud_users empty_tables = []" "ud_uuid empty_tables n = (if even n then 1 else 2)"
  "ud_next empty_tables = 0" "ud_now empty_tables = 5000" "ud_lower empty_tables = id"
  "ud_fault empty_tables = (\<lambda>_. None)"
  by (simp_all add: empty_tables_def)

lemma user_tables_sel [simp]:
  "ud_teams user_tables = [sample_team]" "ud_users user_tables = [sample_user]"
  "ud_uuid user_tables n = (if even n then 1 else 2)" "ud_fault user_tables = (\<lambda>_. None)"
  "ud_lower user_tables = id"
  by (simp_all add: user_tables_def)

lemma sample_handler_sel [simp]:
  "ah_users sample_handler = NewUserRepository id" "ah_sessions sample_handler = NewSessionStore decimal_uuid redis_reference"
  "ah_tokens sample_handler = sample_tokens" "hs_cost (ah_hasher sample_handler) = 12"
  by (simp_all add: sample_handler_def)

lemma world_of_sel [simp]:
  "aw_users (world_of us ss) = us" "aw_sessions (world_of us ss) = ss"
  by (simp_all add: world_of_def)

lemma sample_draws_sel [simp]:
  "dr_ids (sample_draws now) = (7, 8)" "dr_parse (sample_draws now) = now" "dr_life (sample_draws now) = now"
  "dr_issue (sample_draws now) = now"
  by (simp_all add: sample_draws_def)

lemma unsent_new [simp]: "unsent (Base new_response)"
  by (simp add: unsent_def new_response_def)

lemma sample_decoded: "DecodeJSON plain_lib (constant_decoder x) (sample_request cs) = Inr x"
  by (simp add: DecodeJSON_Inr constant_decoder_def sample_request_def Header_Get_def Header_Set_def)

lemma sample_hasher: "hasher_ok plain_bcrypt (ah_hasher sample_handler)"
  by (simp add: hasher_ok_def sample_handler_def plain_bcrypt_def bcrypt_MinCost_def bcrypt_MaxCost_def)

definition sample_pair :: "time \<Rightarrow> TokenPair" where
  "sample_pair now =
     (let t = sample_tokens; claims = (\<lambda>kind jti ttl. newClaims decimal_uuid 2 1 kind jti now (now + ttl))
      in \<lparr>tp_AccessToken = token_of (tk_secret t) (claims TokenAccess 8 (tk_accessTTL t)),
          tp_RefreshToken = token_of (tk_secret t) (claims TokenRefresh 7 (tk_refreshTTL t)),
          tp_AccessExpiresAt = now + tk_accessTTL t, tp_RefreshExpiresAt = now + tk_refreshTTL t, tp_RefreshID = 7\<rparr>)"

lemma sample_IssuePair: "IssuePair plain_jwt decimal_uuid sample_tokens now (7, 8) 2 1 = Inr (sample_pair now)"
  by (simp add: IssuePair_def Let_def rbind_def sign_def plain_jwt_simps sample_pair_def)

lemma sample_issue: "issue_for plain_lib sample_handler (sample_draws now) sample_user = Inr (sample_pair now)"
  by (simp add: issue_for_def sample_IssuePair)

lemma sample_encodes:
  assumes "0 \<le> now" and "team = sample_team \<or> team = zero_Team\<lparr>team_ID := 1\<rparr>"
  shows "\<exists>b. json_text (session_payload plain_lib sample_user team (sample_pair now)) = Some b"
  using assms
  by (auto simp: session_payload_def authResponse_json_def User_json_def Team_json_def sample_pair_def Let_def
      sample_tokens_def zero_Team_def zero_time_def)

subsection \<open>Sessions\<close>

text \<open>
  C2. A refresh token is good for one refresh. Once a refresh has been granted for a cookie, no later
  request with that cookie is granted one while the token could still verify (but for the last
  millisecond, which Redis rounds away): whatever tokens are revoked in between, that one too
  if it is revoked for as long as it has left.
\<close>

lemma refresh_token_single_use:
  assumes "redis_client (lb_uuid lb) client clock environment lives present"
    and "encodes_errors lb" and "jwt_laws (lb_jwt lb)"
    and "ah_sessions h = NewSessionStore (lb_uuid lb) client" and "unsent rw" and "unsent rw'"
    and "status_of (Refresh lb h d r w rw) = Some 200" and "presents lb h r (dr_parse d) claims i"
    and "evolves (NewSessionStore (lb_uuid lb) client) environment allowed
      (aw_sessions (final_world (Refresh lb h d r w rw))) (aw_sessions w')"
    and "\<forall>ttl u. allowed i ttl u \<longrightarrow>
      clock (aw_sessions w) + remainingLife (dr_life d) claims \<le> clock u + ttl"
    and "clock (aw_sessions w') + millisecond < clock (aw_sessions w) + remainingLife (dr_life d) claims"
    and "request_cookie r' RefreshCookieName = request_cookie r RefreshCookieName"
  shows "status_of (Refresh lb h d' r' w' rw') \<noteq> Some 200"
  by (rule session_store.refresh_once [OF redis_client.store_laws [OF assms(1)] assms(2,5,6,3,4,7-12)])

definition refresh_claims :: "time \<Rightarrow> claims" where
  "refresh_claims now = newClaims decimal_uuid 2 1 TokenRefresh 7 now (now + tk_refreshTTL sample_tokens)"

definition refresh_request :: "time \<Rightarrow> request" where
  "refresh_request issued = sample_request [(RefreshCookieName, tp_RefreshToken (sample_pair issued))]"

lemma refresh_request_cookie:
  "request_cookie (refresh_request issued) RefreshCookieName = Some (tp_RefreshToken (sample_pair issued))"
  by (simp add: request_cookie_def refresh_request_def sample_request_def)

lemma sample_ParseRefresh:
  "ParseRefresh plain_jwt decimal_uuid sample_tokens 3000000000 (tp_RefreshToken (sample_pair 1000000000)) =
     Inr (refresh_claims 1000000000)"
  using IssuePair_parse(2) [OF jwt_laws_plain uuid_laws_decimal sample_IssuePair, of 1000000000 3000000000 TokenRefresh]
  by (simp add: ParseRefresh_def refresh_claims_def)
    (simp add: sample_pair_def Let_def sample_tokens_def NewNumericDate_def second_def)

lemma sample_presents:
  "presents plain_lib sample_handler (refresh_request 1000000000) 3000000000 (refresh_claims 1000000000) 7"
  using uuid_laws_decimal
  by (simp add: presents_def refresh_request_cookie sample_ParseRefresh)
    (simp add: refresh_claims_def newClaims_def uuid_laws_def)

lemma sample_remaining: "remainingLife 3000000000 (refresh_claims 1000000000) = 86398 * 1000000000"
  by (simp add: remainingLife_def refresh_claims_def newClaims_def NewNumericDate_def second_def
      sample_tokens_def time_Sub_def min_int64_def max_int64_def)

definition first_refresh :: "(user_db, redis_server) auth_world outcome" where
  "first_refresh = Refresh plain_lib sample_handler (sample_draws 3000000000) (refresh_request 1000000000)
     (world_of user_tables redis_up) (Base new_response)"

lemma first_refresh_granted: "status_of first_refresh = Some 200"
  and first_refresh_clock: "rs_clock (aw_sessions (final_world first_refresh)) = 0"
proof -
  let ?ops = "NewSessionStore decimal_uuid redis_reference"
  obtain ss where rev: "so_Revoke ?ops 7 (86398 * 1000000000) redis_up = (None, ss)" and clock: "rs_clock ss = 0"
    by (simp add: NewSessionStore_def Revoke_def redis_reference_def server_Set_def redis_up_def)
  have free: "so_IsRevoked ?ops 7 redis_up = Inr False"
    by (simp add: NewSessionStore_def IsRevoked_def redis_reference_def server_Get_def redis_up_def)
  have ids: "uuid_Parse decimal_uuid (cl_ID (refresh_claims 1000000000)) = Inr 7"
    "UserID decimal_uuid (refresh_claims 1000000000) = Inr 2"
    using uuid_laws_decimal by (simp_all add: refresh_claims_def newClaims_def uuid_laws_def UserID_def)
  have user: "uo_FindByID (NewUserRepository id) 2 user_tables = Inr sample_user"
    by (simp add: NewUserRepository_def FindByID_def)
  obtain b where b: "json_text (session_payload plain_lib sample_user (zero_Team\<lparr>team_ID := 1\<rparr>) (sample_pair 3000000000)) = Some b"
    using sample_encodes by fastforce
  note facts = Refresh_grants [of "Base new_response" "refresh_request 1000000000" _ plain_lib sample_handler
      "sample_draws 3000000000" _ 7 "world_of user_tables redis_up", simplified,
      OF refresh_request_cookie sample_ParseRefresh ids(1) free ids(2) user _ sample_issue]
  show "status_of first_refresh = Some 200" "rs_clock (aw_sessions (final_world first_refresh)) = 0"
    using facts rev b clock by (simp_all add: first_refresh_def sample_remaining)
qed

lemma second_later:
  "evolves (NewSessionStore decimal_uuid redis_reference) server_moves (\<lambda>_ _ _. False) s
     (aw_sessions (world_of user_tables (s\<lparr>rs_clock := rs_clock s + 1000000000\<rparr>)))"
  by (rule evolves.moved [OF evolves.here]) (simp add: server_moves_def)

lemma refresh_token_single_use_witness:
  "status_of (Refresh plain_lib sample_handler (sample_draws 4000000000) (refresh_request 1000000000)
     (world_of user_tables ((aw_sessions (final_world first_refresh))\<lparr>rs_clock := 1000000000\<rparr>)) (Base new_response))
   \<noteq> Some 200"
proof (rule refresh_token_single_use [OF _ encodes_errors_plain _ _ unsent_new unsent_new
      first_refresh_granted [unfolded first_refresh_def], folded first_refresh_def])
  show "redis_client (lb_uuid plain_lib) redis_reference rs_clock server_moves entry_until (\<lambda>k r. rs_entries r k \<noteq> None)"
    using redis.redis_client_axioms by simp
  show "jwt_laws (lb_jwt plain_lib)" by (simp add: jwt_laws_plain)
  show "ah_sessions sample_handler = NewSessionStore (lb_uuid plain_lib) redis_reference" by simp
  show "presents plain_lib sample_handler (refresh_request 1000000000) (dr_parse (sample_draws 3000000000))
      (refresh_claims 1000000000) 7"
    by (simp add: sample_presents)
  show "evolves (NewSessionStore (lb_uuid plain_lib) redis_reference) server_moves (\<lambda>_ _ _. False) (aw_sessions (final_world first_refresh))
      (aw_sessions (world_of user_tables ((aw_sessions (final_world first_refresh))\<lparr>rs_clock := 1000000000\<rparr>)))"
    using second_later [of "aw_sessions (final_world first_refresh)"] by (simp add: first_refresh_clock)
  show "rs_clock (aw_sessions (world_of user_tables ((aw_sessions (final_world first_refresh))\<lparr>rs_clock := 1000000000\<rparr>))) + millisecond
      < rs_clock (aw_sessions (world_of user_tables redis_up)) + remainingLife (dr_life (sample_draws 3000000000)) (refresh_claims 1000000000)"
    by (simp add: sample_remaining redis_up_def millisecond_def)
qed simp_all

text \<open>
  C11. Logging out ends the session: when a logout that presents a valid refresh token is answered with
  204, no later request with that cookie is granted a refresh as long as the token could still verify (but
  for the last millisecond, which Redis rounds away), whatever tokens are revoked in between, that one
  too if it is revoked for as long as it has left; and none is granted once the token has expired on the
  clock of the backend that reads it.
\<close>

lemma logout_revokes_refresh:
  assumes "redis_client (lb_uuid lb) client clock environment lives present"
    and "encodes_errors lb" and "jwt_laws (lb_jwt lb)"
    and "ah_sessions h = NewSessionStore (lb_uuid lb) client" and "unsent rw" and "unsent rw'"
    and "status_of (Logout lb h d r w rw) = Some 204" and "presents lb h r (dr_parse d) claims i"
    and "evolves (NewSessionStore (lb_uuid lb) client) environment allowed
      (aw_sessions (final_world (Logout lb h d r w rw))) (aw_sessions w')"
    and "\<forall>ttl u. allowed i ttl u \<longrightarrow>
      clock (aw_sessions w) + remainingLife (dr_life d) claims \<le> clock u + ttl"
    and "clock (aw_sessions w') + millisecond < clock (aw_sessions w) + remainingLife (dr_life d) claims
      \<or> (\<exists>e. cl_ExpiresAt claims = Some e \<and> e \<le> dr_parse d')"
    and "request_cookie r' RefreshCookieName = request_cookie r RefreshCookieName"
  shows "status_of (Refresh lb h d' r' w' rw') \<noteq> Some 200"
  using assms(11)
proof
  assume "\<exists>e. cl_ExpiresAt claims = Some e \<and> e \<le> dr_parse d'"
  then show ?thesis using expired_not_refreshed [OF assms(2,6,3,8) _ _ assms(12)] by blast
qed (rule session_store.logout_ends_session [OF redis_client.store_laws [OF assms(1)] assms(2,5,6,3,4,7-10) _ assms(12)])

definition sample_logout :: "(user_db, redis_server) auth_world outcome" where
  "sample_logout = Logout plain_lib sample_handler (sample_draws 3000000000) (refresh_request 1000000000)
     (world_of user_tables redis_up) (Base new_response)"

lemma sample_logout_answer: "status_of sample_logout = Some 204"
  and sample_logout_clock: "rs_clock (aw_sessions (final_world sample_logout)) = 0"
proof -
  have id: "uuid_Parse decimal_uuid (cl_ID (refresh_claims 1000000000)) = Inr 7"
    using uuid_laws_decimal by (simp add: refresh_claims_def newClaims_def uuid_laws_def)
  obtain ss where rev: "so_Revoke (NewSessionStore decimal_uuid redis_reference) 7 (86398 * 1000000000) redis_up = (None, ss)"
    and clock: "rs_clock ss = 0"
    by (simp add: NewSessionStore_def Revoke_def redis_reference_def server_Set_def redis_up_def)
  have un: "unsent (clearRefreshCookie sample_handler (Base new_response))" by (simp add: cookie_writers)
  show "status_of sample_logout = Some 204" "rs_clock (aw_sessions (final_world sample_logout)) = 0"
    using rev clock WriteHeader_response(1) [OF un, of 204]
    by (simp_all add: sample_logout_def Logout_def refresh_request_cookie sample_ParseRefresh id sample_remaining
        emit_def Let_def)
qed

lemma logout_revokes_refresh_witness:
  "status_of (Refresh plain_lib sample_handler (sample_draws 4000000000) (refresh_request 1000000000)
     (world_of user_tables ((aw_sessions (final_world sample_logout))\<lparr>rs_clock := 1000000000\<rparr>)) (Base new_response))
   \<noteq> Some 200"
proof (rule logout_revokes_refresh [OF _ encodes_errors_plain _ _ unsent_new unsent_new
      sample_logout_answer [unfolded sample_logout_def], folded sample_logout_def])
  show "redis_client (lb_uuid plain_lib) redis_reference rs_clock server_moves entry_until (\<lambda>k r. rs_entries r k \<noteq> None)"
    using redis.redis_client_axioms by simp
  show "jwt_laws (lb_jwt plain_lib)" by (simp add: jwt_laws_plain)
  show "ah_sessions sample_handler = NewSessionStore (lb_uuid plain_lib) redis_reference" by simp
  show "presents plain_lib sample_handler (refresh_request 1000000000) (dr_parse (sample_draws 3000000000))
      (refresh_claims 1000000000) 7"
    by (simp add: sample_presents)
  show "evolves (NewSessionStore (lb_uuid plain_lib) redis_reference) server_moves (\<lambda>_ _ _. False) (aw_sessions (final_world sample_logout))
      (aw_sessions (world_of user_tables ((aw_sessions (final_world sample_logout))\<lparr>rs_clock := 1000000000\<rparr>)))"
    using second_later [of "aw_sessions (final_world sample_logout)"] by (simp add: sample_logout_clock)
  show "rs_clock (aw_sessions (world_of user_tables ((aw_sessions (final_world sample_logout))\<lparr>rs_clock := 1000000000\<rparr>))) + millisecond
      < rs_clock (aw_sessions (world_of user_tables redis_up)) + remainingLife (dr_life (sample_draws 3000000000)) (refresh_claims 1000000000)
      \<or> (\<exists>e. cl_ExpiresAt (refresh_claims 1000000000) = Some e \<and> e \<le> dr_parse (sample_draws 4000000000))"
    by (simp add: sample_remaining redis_up_def millisecond_def)
qed simp_all

subsection \<open>Registration\<close>

text \<open>
  C8. Registration is atomic: it either changes nothing, or adds one team and one user of that team
  with the address in its normal form; and the tables keep their invariant (ids and addresses of
  their own, every user in an existing team). A reported success always is the second case.
\<close>

lemma registration_atomic:
  assumes "identity_inv ulower db" and "CreateTeamWithOwner ulower tn u db = (res, db')"
  shows "identity_inv ulower db'
    \<and> (db' = db \<or> (\<exists>t v. db' = db\<lparr>ud_teams := ud_teams db @ [t], ud_users := ud_users db @ [v], ud_next := Suc (Suc (ud_next db))\<rparr>
        \<and> user_TeamID v = team_ID t \<and> user_Email v = NormalizeEmail ulower (user_Email u)
        \<and> user_PasswordHash v = user_PasswordHash u \<and> team_Name t = TrimSpace tn
        \<and> (res = Inr (t, v) \<or> ud_fault db AtCommit \<noteq> None)))
    \<and> (res = Inr (t', v') \<longrightarrow> ud_teams db' = ud_teams db @ [t'] \<and> ud_users db' = ud_users db @ [v'])"
proof (cases rule: CreateTeamWithOwner_cases [of ulower tn u db])
  case (created res' t v tx tx')
  note row = create_tables(1-3) [OF created(3,4)]
  have "res' = Inr (t, v) \<or> ud_fault db AtCommit \<noteq> None"
  proof (cases "ud_fault db AtBegin")
    case None
    then show ?thesis
      using created(1) by (cases "ud_fault db AtCommit") (simp_all add: CreateTeamWithOwner_def created(3,4))
  next
    case (Some e)
    then have "tx' = db" using created(1) by (simp add: CreateTeamWithOwner_def)
    then show ?thesis using create_tables_users [OF created(3,4)] by simp
  qed
  moreover have eq: "res = res'" "db' = tx'" using created(1) assms(2) by simp_all
  moreover have "identity_inv ulower db'"
    unfolding eq by (rule create_tables_inv(1) [OF assms(1) created(3,4)])
  moreover have "user_TeamID v = team_ID t" "user_Email v = NormalizeEmail ulower (user_Email u)"
    "user_PasswordHash v = user_PasswordHash u" "team_Name t = TrimSpace tn"
    using row(2,3) by simp_all
  ultimately show ?thesis
    using row(1) created(2) by auto
qed (use assms in auto)

lemma empty_tables_inv: "identity_inv id empty_tables"
  by (simp add: identity_inv_def)

definition sample_registration :: registerRequest where
  "sample_registration =
     \<lparr>rr_Email = '' Ann@acme.io'', rr_Password = ''correct horse'', rr_Name = ''Ann'', rr_TeamName = ''Core''\<rparr>"

lemma sample_normal:
  "TrimSpace ''Core'' = ''Core''" "TrimSpace ''Ann'' = ''Ann''" "TrimSpace '' Ann@acme.io'' = ''Ann@acme.io''"
  "NormalizeEmail id '' Ann@acme.io'' = ''ann@acme.io''" "NormalizeEmail id ''ANN@ACME.IO'' = ''ann@acme.io''"
  by code_simp+

lemma sample_user_texts:
  "pg_text ''Core''" "pg_text ''Ann''" "pg_text ''ann@acme.io''" "pg_text ''$correct horse''"
  by (rule pg_text_ascii; simp add: is_ascii_def)+

lemma sample_user_checks: "team_checks ''Core''" "user_checks ''ann@acme.io'' ''Ann''"
proof -
  have "btrim ''Core'' = ''Core''" "btrim ''Ann'' = ''Ann''" by (rule btrim_plain; simp)+
  then show "team_checks ''Core''" "user_checks ''ann@acme.io'' ''Ann''"
    by (simp_all add: team_checks_def user_checks_def rune_count_ascii is_ascii_def)
qed

lemma sample_create_account:
  "CreateTeamWithOwner id ''Core'' (new_account sample_registration ''$correct horse'') empty_tables =
     (Inr (sample_team, sample_user), user_tables)"
  by (simp add: CreateTeamWithOwner_def insertTeam_def insertUser_def Let_def new_account_def sample_registration_def
      sample_normal sample_user_texts sample_user_checks)
    (simp add: empty_tables_def user_tables_def sample_user_def sample_team_def)

lemma registration_atomic_witness:
  "identity_inv id user_tables \<and> length (ud_users user_tables) = 1"
  using registration_atomic [OF empty_tables_inv sample_create_account] by simp

lemma sample_registration_ok: "registration_ok sample_registration"
proof -
  have "ValidEmail ''Ann@acme.io''" by code_simp
  then have "email_shape ''Ann@acme.io''" by (simp add: ValidEmail_shape)
  moreover have "password_ok ''correct horse''" by (simp add: password_ok_def rune_count_ascii is_ascii_def)
  ultimately show ?thesis by (simp add: registration_ok_def sample_registration_def sample_normal)
qed

lemma sample_register:
  "status_of (Register plain_lib (constant_decoder sample_registration) sample_handler (sample_draws 1000000000)
     (sample_request []) (world_of empty_tables redis_up) (Base new_response)) = Some 201"
  "aw_users (final_world (Register plain_lib (constant_decoder sample_registration) sample_handler (sample_draws 1000000000)
     (sample_request []) (world_of empty_tables redis_up) (Base new_response))) = user_tables"
proof -
  have hash: "Hash plain_bcrypt (dr_salt (sample_draws 1000000000)) (ah_hasher sample_handler)
      (rr_Password sample_registration) = Inr ''$correct horse''"
    using sample_registration_ok
    by (simp add: Hash_def registration_ok_def ValidatePassword_None [symmetric])
      (simp add: sample_registration_def plain_bcrypt_def)
  obtain b where b: "json_text (session_payload plain_lib sample_user sample_team (sample_pair 1000000000)) = Some b"
    using sample_encodes by fastforce
  note facts = Register_grants [where h = sample_handler and d = "sample_draws 1000000000"
      and w = "world_of empty_tables redis_up", OF unsent_new sample_decoded sample_registration_ok, simplified,
      OF hash [simplified] _ sample_issue b]
  show "status_of (Register plain_lib (constant_decoder sample_registration) sample_handler (sample_draws 1000000000)
     (sample_request []) (world_of empty_tables redis_up) (Base new_response)) = Some 201"
   "aw_users (final_world (Register plain_lib (constant_decoder sample_registration) sample_handler (sample_draws 1000000000)
     (sample_request []) (world_of empty_tables redis_up) (Base new_response))) = user_tables"
    using facts sample_create_account
    by (simp_all add: NewUserRepository_def) (simp_all add: sample_registration_def)
qed

lemma FindByEmail_of_user:
  assumes "identity_inv ulower db" and "v \<in> set (ud_users db)" and "NormalizeEmail ulower e = user_Email v"
    and "pg_text (user_Email v)" and "ud_fault db AtFindByEmail = None"
  shows "FindByEmail ulower e db = Inr v"
proof -
  have "uo_FindByEmail (NewUserRepository ulower) e db = Inr v
      \<or> (\<exists>err. err \<noteq> NotFound \<and> uo_FindByEmail (NewUserRepository ulower) e db = Inl err)"
    by (rule user_repository.find_existing [OF assms(1-3)])
  then show ?thesis
    using assms(3-5) by (auto simp: NewUserRepository_def FindByEmail_def Let_def split: option.splits)
qed

text \<open>
  C18. Whoever registered can log in: at any later time, when the tables still hold the account and the
  lookup answers, the address in any spelling with the same normal form and the password are answered
  with 200 and a refresh cookie, provided that the token pair can be issued and the body encoded.
\<close>

lemma registered_can_login:
  fixes h :: "(user_db, 's) AuthHandler"
  assumes "encodes_errors lb" and "unsent rw" and "unsent rw'"
    and "bcrypt_laws (lb_bcrypt lb)" and "hasher_ok (lb_bcrypt lb) (ah_hasher h)"
    and "ah_users h = NewUserRepository ulower" and "identity_inv ulower (aw_users w)"
    and "DecodeJSON lb rdec r = Inr req" and "status_of (Register lb rdec h d r w rw) = Some 201"
    and "set (ud_users (aw_users (final_world (Register lb rdec h d r w rw)))) \<subseteq> set (ud_users (aw_users w'))"
    and "identity_inv ulower (aw_users w')" and "ud_fault (aw_users w') AtFindByEmail = None"
    and "DecodeJSON lb ldec r' = Inr lreq" and "lr_Password lreq = rr_Password req"
    and "NormalizeEmail ulower (lr_Email lreq) = NormalizeEmail ulower (rr_Email req)"
  shows "\<exists>v \<in> set (ud_users (aw_users w')). user_Email v = NormalizeEmail ulower (rr_Email req)
    \<and> (\<forall>pair b. issue_for lb h d' v = Inr pair \<longrightarrow>
         lb_encode lb (session_payload lb v (zero_Team\<lparr>team_ID := user_TeamID v\<rparr>) pair) = Some b \<longrightarrow>
         status_of (Login lb ldec h d' r' w' rw') = Some 200
         \<and> cookies_of (Login lb ldec h d' r' w' rw') =
             rp_cookies (rw_base rw') @ [refresh_cookie h (tp_RefreshToken pair) (tp_RefreshExpiresAt pair)])"
proof (rule Register_session [OF assms(1,2,9)])
  fix req' hash t v us pair
  assume "DecodeJSON lb rdec r = Inr req'"
    and hash: "Hash (lb_bcrypt lb) (dr_salt d) (ah_hasher h) (rr_Password req') = Inr hash"
    and create: "uo_Create (ah_users h) (rr_TeamName req') (new_account req' hash) (aw_users w) = (Inr (t, v), us)"
    and us: "aw_users (final_world (Register lb rdec h d r w rw)) = us"
  with assms(8) have req: "req' = req" by simp
  have c: "CreateTeamWithOwner ulower (rr_TeamName req) (new_account req hash) (aw_users w) = (Inr (t, v), us)"
    using create by (simp add: assms(6) req NewUserRepository_def)
  note v = CreateTeamWithOwner_Inr [OF assms(7) c]
  have email: "user_Email v = NormalizeEmail ulower (rr_Email req)" using v(2) by (simp add: new_account_def)
  have "pg_text (user_Email v)"
  proof (cases rule: CreateTeamWithOwner_cases [of ulower "rr_TeamName req" "new_account req hash" "aw_users w"])
    case (created res t0 v0 tx tx')
    with c v(2) show ?thesis by (auto simp: insertUser_def Let_def split: option.splits if_splits)
  qed (use c in auto)
  moreover have stored: "v \<in> set (ud_users (aw_users w'))" using assms(10) v(1) us by auto
  ultimately have found: "FindByEmail ulower (lr_Email lreq) (aw_users w') = Inr v"
    using FindByEmail_of_user [OF assms(11)] assms(12,15) email by simp
  have "Verify (lb_bcrypt lb) (user_PasswordHash v) (lr_Password lreq) = (None, [hash])"
    using Hash_result(1) [OF assms(4,5) hash] v(3) by (simp add: req assms(14) new_account_def)
  then obtain w'' where log: "Login lb ldec h d' r' w' rw' =
      returned (respondWithSession lb h d' r' 200 v (zero_Team\<lparr>team_ID := user_TeamID v\<rparr>) w'' rw')"
    using found by (auto simp: Login_def assms(6,13) NewUserRepository_def Let_def)
  have "status_of (Login lb ldec h d' r' w' rw') = Some 200
      \<and> cookies_of (Login lb ldec h d' r' w' rw') =
          rp_cookies (rw_base rw') @ [refresh_cookie h (tp_RefreshToken pair) (tp_RefreshExpiresAt pair)]"
    if "issue_for lb h d' v = Inr pair"
      "lb_encode lb (session_payload lb v (zero_Team\<lparr>team_ID := user_TeamID v\<rparr>) pair) = Some b" for pair b
    by (simp add: log issue_respond [OF assms(3) _ that] session_response [OF assms(3)])
  with stored email show ?thesis by blast
qed

lemma user_tables_inv: "identity_inv id user_tables"
  using user_repository.create_inv [OF empty_tables_inv, of "''Core''" "new_account sample_registration ''$correct horse''"]
  by (simp add: NewUserRepository_def sample_create_account)

definition sample_login :: "gostring \<Rightarrow> gostring \<Rightarrow> (user_db, redis_server) auth_world outcome" where
  "sample_login email password =
     Login plain_lib (constant_decoder \<lparr>lr_Email = email, lr_Password = password\<rparr>) sample_handler
       (sample_draws 2000000000) (sample_request []) (world_of user_tables redis_up) (Base new_response)"

lemma registered_can_login_witness:
  "status_of (sample_login ''ANN@ACME.IO'' ''correct horse'') = Some 200"
proof -
  obtain b where b: "json_text (session_payload plain_lib sample_user (zero_Team\<lparr>team_ID := 1\<rparr>) (sample_pair 2000000000)) = Some b"
    using sample_encodes by fastforce
  have "\<exists>v \<in> set (ud_users (aw_users (world_of user_tables redis_up))).
      user_Email v = NormalizeEmail id (rr_Email sample_registration)
      \<and> (\<forall>pair b. issue_for plain_lib sample_handler (sample_draws 2000000000) v = Inr pair \<longrightarrow>
         lb_encode plain_lib (session_payload plain_lib v (zero_Team\<lparr>team_ID := user_TeamID v\<rparr>) pair) = Some b \<longrightarrow>
         status_of (sample_login ''ANN@ACME.IO'' ''correct horse'') = Some 200
         \<and> cookies_of (sample_login ''ANN@ACME.IO'' ''correct horse'') = rp_cookies (rw_base (Base new_response))
             @ [refresh_cookie sample_handler (tp_RefreshToken pair) (tp_RefreshExpiresAt pair)])"
    unfolding sample_login_def
    by (rule registered_can_login [OF encodes_errors_plain unsent_new unsent_new _ _ _ _ sample_decoded
          sample_register(1), where ulower = id])
      (simp_all add: bcrypt_laws_plain sample_hasher empty_tables_inv user_tables_inv sample_register(2) sample_decoded
        sample_normal, simp_all add: sample_registration_def sample_normal)
  then show ?thesis using sample_issue b by auto
qed

text \<open>
  C32. One account per address: registering an address whose normal form already has an account is
  never answered with 201, and leaves the accounts as they were.
\<close>

lemma one_account_per_address:
  fixes h :: "(user_db, 's) AuthHandler"
  assumes "encodes_errors lb" and "unsent rw" and "ah_users h = NewUserRepository ulower"
    and "identity_inv ulower (aw_users w)" and "DecodeJSON lb dec r = Inr req"
    and "v \<in> set (ud_users (aw_users w))" and "user_Email v = NormalizeEmail ulower (rr_Email req)"
  shows "status_of (Register lb dec h d r w rw) \<noteq> Some 201
    \<and> aw_users (final_world (Register lb dec h d r w rw)) = aw_users w"
proof
  show "status_of (Register lb dec h d r w rw) \<noteq> Some 201"
    by (rule user_repository.taken_address [OF assms])
  have same: "snd (CreateTeamWithOwner ulower tn (new_account req hash) (aw_users w)) = aw_users w" for tn hash
  proof (cases rule: CreateTeamWithOwner_cases [of ulower tn "new_account req hash" "aw_users w"])
    case (created res t u tx tx')
    then have "user_Email u \<notin> user_Email ` set (ud_users (aw_users w))"
      "user_Email u = NormalizeEmail ulower (rr_Email req)"
      using create_tables_inv(2) [OF assms(4) created(3,4)] create_tables_row(1) [OF created(3,4)]
      by (simp_all add: new_account_def)
    with assms(6,7) show ?thesis by force
  qed simp_all
  show "aw_users (final_world (Register lb dec h d r w rw)) = aw_users w"
    using same
    by (auto simp: Register_def assms(3,5) NewUserRepository_def Let_def respondWithSession_def emit_def
        WriteError_def WriteInternalError_def WriteValidationError_def WriteJSON_def split_beta
        split: option.split sum.split store_error.split)
qed

lemma one_account_per_address_witness:
  "status_of (Register plain_lib (constant_decoder sample_registration) sample_handler (sample_draws 3000000000)
     (sample_request []) (world_of user_tables redis_up) (Base new_response)) \<noteq> Some 201"
  by (rule one_account_per_address [where ulower = id and v = sample_user,
        OF encodes_errors_plain unsent_new _ _ sample_decoded, THEN conjunct1])
    (simp_all add: user_tables_inv sample_normal, simp_all add: sample_registration_def sample_normal)

subsection \<open>Failing logins\<close>

text \<open>
  C19. A failing login does not tell whether the address has an account: an unknown address and a wrong
  password get the same response, byte for byte, after one password comparison each.
\<close>

lemma login_failures_alike:
  fixes h :: "('u, 's) AuthHandler" and h' :: "('u, 's) AuthHandler"
  assumes "DecodeJSON lb dec r = Inr req"
    and "uo_FindByEmail (ah_users h) (lr_Email req) (aw_users w) = Inl NotFound"
    and "uo_FindByEmail (ah_users h') (lr_Email req) (aw_users w') = Inr v"
    and "CompareHashAndPassword (lb_bcrypt lb) (user_PasswordHash v) (lr_Password req) \<noteq> Match"
  shows "final_rw (Login lb dec h d r w rw) = final_rw (Login lb dec h' d' r w' rw)
    \<and> length (aw_compared (final_world (Login lb dec h d r w rw))) = length (aw_compared w) + 1
    \<and> length (aw_compared (final_world (Login lb dec h' d' r w' rw))) = length (aw_compared w') + 1"
  by (simp add: Login_unknown [OF assms(1,2)] Login_mismatch [OF assms(1,3,4)])

lemma login_failures_alike_witness:
  "final_rw (sample_login ''ann@acme.io'' ''wrong'') =
   final_rw (Login plain_lib (constant_decoder \<lparr>lr_Email = ''ann@acme.io'', lr_Password = ''wrong''\<rparr>) sample_handler
     (sample_draws 2000000000) (sample_request []) (world_of empty_tables redis_up) (Base new_response))"
proof -
  have norm: "NormalizeEmail id ''ann@acme.io'' = ''ann@acme.io''" by code_simp
  have "uo_FindByEmail (ah_users sample_handler) ''ann@acme.io'' empty_tables = Inl NotFound"
    "uo_FindByEmail (ah_users sample_handler) ''ann@acme.io'' user_tables = Inr sample_user"
    by (simp_all add: NewUserRepository_def FindByEmail_def norm sample_user_texts)
  then show ?thesis
    unfolding sample_login_def
    by (intro login_failures_alike [THEN conjunct1, OF sample_decoded, symmetric]) (simp_all add: plain_bcrypt_def, simp)
qed

subsection \<open>Tokens and passwords\<close>

text \<open>
  C16. What is issued verifies: both tokens of a pair parse to the claims they were issued with, until
  they expire; and neither passes for the other, so that a refresh token opens no handler and an
  access token renews no session.
\<close>

lemma issued_tokens_verify:
  assumes "jwt_laws jl" and "uuid_laws ul"
    and "IssuePair jl ul t issued (rid, aid) u tm = Inr pair" and "issued \<le> now"
  shows "ParseAccess jl ul t now (tp_AccessToken pair) =
      (if NewNumericDate (tp_AccessExpiresAt pair) \<le> now then Inl ErrTokenExpired
       else Inr (newClaims ul u tm TokenAccess aid issued (issued + tk_accessTTL t)))
    \<and> ParseRefresh jl ul t now (tp_RefreshToken pair) =
      (if NewNumericDate (tp_RefreshExpiresAt pair) \<le> now then Inl ErrTokenExpired
       else Inr (newClaims ul u tm TokenRefresh rid issued (issued + tk_refreshTTL t)))
    \<and> (\<exists>e. ParseAccess jl ul t now (tp_RefreshToken pair) = Inl e)
    \<and> (\<exists>e. ParseRefresh jl ul t now (tp_AccessToken pair) = Inl e)"
proof -
  have "tp_AccessExpiresAt pair = issued + tk_accessTTL t" "tp_RefreshExpiresAt pair = issued + tk_refreshTTL t"
    using assms(3) by (simp_all add: IssuePair_Inr)
  then show ?thesis
    by (simp add: ParseAccess_def ParseRefresh_def IssuePair_parse [OF assms])
      (simp add: TokenAccess_def TokenRefresh_def)
qed

lemma issued_tokens_verify_witness:
  "ParseAccess plain_jwt decimal_uuid sample_tokens 3000000000 (tp_AccessToken (sample_pair 1000000000)) =
     Inr (newClaims decimal_uuid 2 1 TokenAccess 8 1000000000 901000000000)"
  using issued_tokens_verify [OF jwt_laws_plain uuid_laws_decimal sample_IssuePair, of 1000000000 3000000000]
  by (simp add: sample_pair_def Let_def sample_tokens_def NewNumericDate_def second_def)

text \<open>
  C17. What is accepted was checked: a token that parses, of either kind, is of this issuer and this
  audience, carries the kind asked for, a user id and a team, and is neither expired nor early; and
  the same token is refused as the other kind.
\<close>

lemma accepted_tokens_checked:
  assumes "jwt_laws jl"
  shows "(ParseAccess jl ul t now raw = Inr c \<longrightarrow> claims_verified ul now TokenAccess c
      \<and> ParseRefresh jl ul t now raw = Inl (ErrWrongTokenKind TokenRefresh TokenAccess))
    \<and> (ParseRefresh jl ul t now raw = Inr c \<longrightarrow> claims_verified ul now TokenRefresh c
      \<and> ParseAccess jl ul t now raw = Inl (ErrWrongTokenKind TokenAccess TokenRefresh))"
proof -
  have other: "parse jl ul t now raw k = Inl (ErrWrongTokenKind k k')"
    if "parse jl ul t now raw k' = Inr c" "k \<noteq> k'" for k k'
    using that by (auto simp: result_iff) (simp add: parse_def)
  have "TokenAccess \<noteq> TokenRefresh" by (simp add: TokenAccess_def TokenRefresh_def)
  then show ?thesis
    using parse_verified [OF assms] other by (auto simp: ParseAccess_def ParseRefresh_def)
qed

lemma accepted_tokens_checked_witness:
  "claims_verified decimal_uuid 3000000000 TokenRefresh (refresh_claims 1000000000)
   \<and> ParseAccess plain_jwt decimal_uuid sample_tokens 3000000000 (tp_RefreshToken (sample_pair 1000000000))
     = Inl (ErrWrongTokenKind TokenAccess TokenRefresh)"
  using accepted_tokens_checked [OF jwt_laws_plain, THEN conjunct2, rule_format, OF sample_ParseRefresh] .

text \<open>
  C35. The password policy and hashing agree: a hasher, which exists exactly for the costs that bcrypt
  takes, hashes a password exactly when it has at least 12 characters and at most 72 bytes, and the
  hash verifies that password.
\<close>

lemma password_hash_verifies:
  assumes "bcrypt_laws b"
  shows "(case NewHasher b salt cost of
      Inl _ \<Rightarrow> cost < 4 \<or> 31 < cost
    | Inr h \<Rightarrow> 4 \<le> cost \<and> cost \<le> 31
        \<and> (if 12 \<le> rune_count plain \<and> length plain \<le> 72
           then \<exists>hash. Hash b salt' h plain = Inr hash \<and> fst (Verify b hash plain) = None
           else \<exists>e. Hash b salt' h plain = Inl (InvalidPassword e) \<and> ve_Issues e \<noteq> []))"
proof (cases "NewHasher b salt cost")
  case (Inl e)
  then show ?thesis using NewHasher_succeeds [OF assms, of salt cost] by auto
next
  case (Inr h)
  then have ok: "hasher_ok b h" "4 \<le> cost \<and> cost \<le> 31"
    using NewHasher_ok [OF assms] NewHasher_succeeds [OF assms] by blast+
  have "if 12 \<le> rune_count plain \<and> length plain \<le> 72
       then \<exists>hash. Hash b salt' h plain = Inr hash \<and> fst (Verify b hash plain) = None
       else \<exists>e. Hash b salt' h plain = Inl (InvalidPassword e) \<and> ve_Issues e \<noteq> []"
  proof (cases "password_ok plain")
    case True
    then obtain hash where "Hash b salt' h plain = Inr hash" using Hash_succeeds [OF assms ok(1)] by blast
    with True Hash_result(1) [OF assms ok(1) this] show ?thesis by (simp add: password_ok_def)
  next
    case False
    then obtain e where "ValidatePassword plain = Some e" by (cases "ValidatePassword plain") (auto simp: ValidatePassword_None)
    with False ValidatePassword_Some [OF this] show ?thesis by (auto simp: Hash_def password_ok_def)
  qed
  with Inr ok(2) show ?thesis by simp
qed

lemma password_hash_verifies_witness:
  "\<exists>h hash. NewHasher plain_bcrypt 0 12 = Inr h \<and> Hash plain_bcrypt 1 h ''correct horse'' = Inr hash
     \<and> fst (Verify plain_bcrypt hash ''correct horse'') = None"
proof -
  have "12 \<le> rune_count ''correct horse''" by (simp add: rune_count_ascii is_ascii_def)
  then show ?thesis
    using password_hash_verifies [OF bcrypt_laws_plain, where salt = 0 and cost = 12 and plain = "''correct horse''"
        and salt' = 1]
    by (auto split: sum.splits)
qed

end
