(* ===== verification/Startup_Properties.thy ===== *)
theory Startup_Properties
  imports Instances
begin

text \<open>
  What starting the program guarantees: which configurations it accepts and how it reports the
  others, that secrets stay out of the log, that migrations leave a consistent database, that
  waiting for a service ends, and that every way out gives back what was opened.
\<close>

subsection \<open>Configuration\<close>

text \<open>
  C24. The environment is accepted exactly when every number, duration and level parses, the required
  variables are there, and the values satisfy the documented rules; the configuration is then the one
  that was read. Otherwise the error names every variable that broke a rule, in order, once per rule.
\<close>

lemma load_accepts_or_reports_all:
  "case Load g of
     Inr c \<Rightarrow> env_readable g \<and> config_ok c \<and> c = fst (read_config g new_reader)
   | Inl e \<Rightarrow> \<not> (env_readable g \<and> config_ok (fst (read_config g new_reader)))
       \<and> map fe_Variable (cve_Fields e) =
           blame (reader_rules g) @ blame (config_rules (fst (read_config g new_reader)))"
proof (cases "Load g")
  case (Inl e)
  then have "\<not> (env_readable g \<and> config_ok (fst (read_config g new_reader)))"
    using Load_accepts [of g "fst (read_config g new_reader)"] by auto
  with Inl show ?thesis by (simp add: Load_names)
next
  case (Inr c)
  show ?thesis unfolding Inr sum.case by (rule Load_accepts [THEN iffD1, OF Inr])
qed



definition sample_environ :: environ where
  "sample_environ = map_of
     [(''FLOWCAST_DATABASE_URL'', ''postgres://app:pw@db:5432/flowcast''), (''FLOWCAST_REDIS_URL'', ''redis://cache:6379/0''),
      (''FLOWCAST_JWT_SECRET'', ''an example secret of 32 or more bytes'')]"

definition sample_config :: Config where
  "sample_config = fst (read_config (os_Getenv sample_environ) new_reader)"

lemma sample_Load: "Load (os_Getenv sample_environ) = Inr sample_config"
  unfolding sample_config_def by code_simp



text \<open>
  C39. The \<open>.env\<close> file that is loaded is the nearest one: of the start directory and its first five
  ancestors, up to the root, the first that has a regular file (a path that is not there or is a
  directory is passed over; any other failure to look stops the search).
\<close>

lemma nearest_dotenv:
  assumes "list_all component_ok ps"
  shows "findDotEnv stat getwd (abs_path ps) = first_decisive stat (candidates 6 ps)"
  using find_loop_candidates [OF assms, of stat "dotEnvSearchDepth + 1"]
  by (simp add: findDotEnv_def path_Abs_abs [OF assms] dotEnvSearchDepth_def numeral_eq_Suc)

lemma nearest_dotenv_witness:
  "findDotEnv (\<lambda>p. Stat (p = ''/srv/.env'')) (Inr []) (abs_path [''srv'', ''app'']) = Inr ''/srv/.env''"
  using nearest_dotenv [of "[''srv'', ''app'']" "\<lambda>p. Stat (p = ''/srv/.env'')" "Inr []"]
  by (simp add: component_ok_def first_decisive_def decisive_def numeral_eq_Suc abs_path_def)

subsection \<open>Migrations\<close>

text \<open>
  C9. Whatever fails while migrating, and whether a lost commit was carried out or not, the database
  stays consistent: its schema is what the recorded files, each once and in full, make of the first.
\<close>

lemma migration_keeps_consistent:
  assumes "consistent (re_exec env) d0 db"
  shows "consistent (re_exec env) d0 (snd (Migrate sha env fs db))"
  by (rule Migrate_consistent [OF assms])

definition sample_run :: "gostring list run_env" where
  "sample_run = \<lparr>re_exec = (\<lambda>sql d. Inr (d @ [sql])), re_fault = (\<lambda>_. None), re_took = (\<lambda>_. 1000), re_kept = (\<lambda>_. True)\<rparr>"

definition sample_files :: fsys where
  "sample_files = [(''0002_users.sql'', Inr ''B''), (''0001_init.sql'', Inr ''A'')]"

definition fresh_database :: "gostring list database" where
  "fresh_database = \<lparr>db_schema = [], db_rows = None, db_locked = False\<rparr>"

lemma fresh_consistent: "consistent (re_exec sample_run) [] fresh_database"
  by (simp add: consistent_def fresh_database_def table_rows_def)

lemma migration_keeps_consistent_witness:
  "consistent (re_exec sample_run) [] (snd (Migrate id (sample_run\<lparr>re_fault := (\<lambda>s. if s = SCommit ''0002'' then Some ''connection lost'' else None)\<rparr>)
     sample_files fresh_database))"
  using migration_keeps_consistent [of "sample_run\<lparr>re_fault := (\<lambda>s. if s = SCommit ''0002'' then Some ''connection lost'' else None)\<rparr>"]
    fresh_consistent by simp

text \<open>
  C10. A migration that succeeds is complete: the files are taken in the order of their versions, the
  ones not recorded are run, one after the other in that order, on the schema that was there, and are
  recorded in that order; what they make of it is the schema in the end. Every file is then recorded
  with the hash of its own content; rows that were there stay.
\<close>

lemma migration_complete:
  assumes "Migrate sha env fs db = (Inr applied, db')"
  shows "\<exists>ms pending. loadMigrations sha fs = Inr ms \<and> sorted_wrt (\<lambda>a b. mig_Version a < mig_Version b) ms
    \<and> pending = filter (\<lambda>m. recorded_in db (mig_Version m) = None) ms
    \<and> (\<forall>m \<in> set ms. ReadFile fs (mig_Filename m) = Inr (mig_SQL m) \<and> mig_Checksum m = sha (mig_SQL m))
    \<and> map am_Version applied = map mig_Version pending
    \<and> exec_all (re_exec env) pending (db_schema db) = Inr (db_schema db')
    \<and> table_rows db' = table_rows db @ map row_of pending
    \<and> (\<forall>m \<in> set ms. recorded_in db' (mig_Version m) = Some (mig_Checksum m))"
proof (rule Migrate_Inr [OF assms])
  fix ms
  assume ms: "loadMigrations sha fs = Inr ms"
    "map am_Version applied = map mig_Version (filter (\<lambda>m. recorded_in db (mig_Version m) = None) ms)"
    "table_rows db' = table_rows db @ map row_of (filter (\<lambda>m. recorded_in db (mig_Version m) = None) ms)"
    "\<forall>m \<in> set ms. recorded_in db (mig_Version m) = None \<or> recorded_in db (mig_Version m) = Some (mig_Checksum m)"
    "exec_all (re_exec env) (filter (\<lambda>m. recorded_in db (mig_Version m) = None) ms) (db_schema db) = Inr (db_schema db')"
  have files: "\<forall>m \<in> set ms. ReadFile fs (mig_Filename m) = Inr (mig_SQL m) \<and> mig_Checksum m = sha (mig_SQL m)"
    using load_loop_facts(2) [OF ms(1) [unfolded loadMigrations_def]] by (simp add: loaded_from_def)
  note order = loadMigrations_sorted(1) [OF ms(1)]
  then have "distinct (map mig_Version ms)"
    using strict_sorted_iff [of "map mig_Version ms"] by (simp add: sorted_wrt_map)
  then have "\<forall>m \<in> set ms. recorded_in db' (mig_Version m) = Some (mig_Checksum m)"
    using recorded_after [OF ms(3)] ms(4) by blast
  with ms(1-3,5) order files show ?thesis by blast
qed

definition sample_migrated :: "gostring list database" where
  "sample_migrated = snd (Migrate id sample_run sample_files fresh_database)"

lemma sample_migrate: "Migrate id sample_run sample_files fresh_database =
    (Inr [\<lparr>am_Version = ''0001'', am_Filename = ''0001_init.sql'', am_Duration = 1000\<rparr>,
      \<lparr>am_Version = ''0002'', am_Filename = ''0002_users.sql'', am_Duration = 1000\<rparr>], sample_migrated)"
proof -
  have "fst (Migrate id sample_run sample_files fresh_database) =
    Inr [\<lparr>am_Version = ''0001'', am_Filename = ''0001_init.sql'', am_Duration = 1000\<rparr>,
      \<lparr>am_Version = ''0002'', am_Filename = ''0002_users.sql'', am_Duration = 1000\<rparr>]"
    by code_simp
  then show ?thesis by (simp add: sample_migrated_def prod_eq_iff)
qed

lemma migration_complete_witness:
  "\<exists>ms. loadMigrations id sample_files = Inr ms
     \<and> list_all (\<lambda>m. recorded_in sample_migrated (mig_Version m) = Some (mig_Checksum m)) ms"
  using migration_complete [OF sample_migrate] by (auto simp: list_all_iff)

text \<open>
  Migrating again, with the same files and nothing failing, applies nothing and changes nothing.
\<close>

lemma migration_idempotent:
  assumes "Migrate sha env fs db = (Inr applied, db1)" and "re_fault env' = (\<lambda>_. None)"
  shows "fst (Migrate sha env' fs db1) = Inr [] \<and> db_schema (snd (Migrate sha env' fs db1)) = db_schema db1
    \<and> table_rows (snd (Migrate sha env' fs db1)) = table_rows db1"
  by (simp add: Migrate_idempotent [OF assms] table_rows_def)

lemma migration_idempotent_witness:
  "fst (Migrate id sample_run sample_files sample_migrated) = Inr []"
  by (rule migration_idempotent [OF sample_migrate, THEN conjunct1]) (simp add: sample_run_def)

subsection \<open>Waiting for a service\<close>

text \<open>
  C36. Waiting for a service ends: the number of attempts is at most one per retry interval of the
  timeout, and one more, each half a second after the end of the one before and none after the
  deadline (the timeout, or the cancellation). It ends well with the first attempt that is answered, at
  the moment of the answer, and it gives up only with the error of its last attempt, when all of them
  have failed, and not before the deadline.
\<close>

lemma readiness_wait_bounded:
  assumes "0 \<le> timeout" and "case cancelled of None \<Rightarrow> True | Some c \<Rightarrow> now \<le> c"
  shows "(let out = waitForReady ping cancelled tf timeout now; n = ro_Attempts out; start = attempt_start ping now;
       deadline = (case cancelled of None \<Rightarrow> now + timeout | Some c \<Rightarrow> min c (now + timeout))
    in 1 \<le> n \<and> int n \<le> timeout div (500 * millisecond) + 1
       \<and> (\<forall>k. 1 \<le> k \<and> k < n \<longrightarrow> fst (ping k (start k)) \<noteq> None \<and> start (k + 1) \<le> deadline
            \<and> start (k + 1) = start k + int (snd (ping k (start k))) + 500 * millisecond)
       \<and> (case ro_Error out of
            None \<Rightarrow> fst (ping n (start n)) = None \<and> ro_End out = start n + int (snd (ping n (start n)))
          | Some (k, e) \<Rightarrow> k = n \<and> fst (ping n (start n)) = Some e \<and> deadline \<le> ro_End out))"
proof -
  have "\<forall>c. cancelled = Some c \<longrightarrow> now \<le> c" using assms(2) by auto
  note bound = waitForReady_attempts [OF assms(1) this, of ping tf, unfolded readyRetryInterval_def]
  note made = waitForReady_outcome [of ping now cancelled timeout tf, unfolded attempts_made_def Let_def]
  show ?thesis
    unfolding Let_def ready_deadline_def [symmetric]
    using bound made attempt_start_next [of _ ping now, unfolded readyRetryInterval_def]
    by (auto split: option.split)
qed

lemma readiness_wait_bounded_witness:
  "int (ro_Attempts (waitForReady (\<lambda>_ _. (Some ''refused'', 0)) None (\<lambda>_. True) 15000000000 0)) \<le> 31"
  using readiness_wait_bounded [where timeout = 15000000000 and cancelled = None and now = 0
      and ping = "\<lambda>_ _. (Some ''refused'', 0)" and tf = "\<lambda>_. True"]
  by (simp add: Let_def millisecond_def)

text \<open>
  C37. The pool sizes survive the narrowing to 32 bits: a pool configuration that is built has exactly
  the configured sizes, which are in order, and UTC sessions; and one is built for every validated
  configuration whose connection string the driver parses.
\<close>

lemma pool_sizes_exact:
  "(case poolConfig ParseConfig cfg of
      Inr p \<Rightarrow> sint (pc_MaxConns p) = dc_MaxConns cfg \<and> sint (pc_MinConns p) = dc_MinConns cfg
        \<and> 1 \<le> dc_MaxConns cfg \<and> dc_MaxConns cfg \<le> 1000 \<and> 0 \<le> dc_MinConns cfg \<and> dc_MinConns cfg \<le> dc_MaxConns cfg
        \<and> (case pc_RuntimeParams p of None \<Rightarrow> False | Some m \<Rightarrow> m ''timezone'' = Some ''UTC'')
    | Inl _ \<Rightarrow> \<not> (database_ok cfg \<and> ParseConfig (dc_URL cfg) \<noteq> None))"
proof (cases "poolConfig ParseConfig cfg")
  case (Inl e)
  then show ?thesis using poolConfig_of_valid [of cfg ParseConfig] by force
next
  case (Inr p)
  from poolConfig_Inr [OF Inr] show ?thesis by (auto simp: Inr)
qed

subsection \<open>The run of the program\<close>

text \<open>
  C21. Every way out gives back what was opened: when the process ends, in whatever way, each client
  that was opened has been closed, the last one first; while it serves, exactly the two are open.
\<close>

lemma run_releases_everything:
  "still_open (snd (fst (run su db))) [] =
     Some (if fst (fst (run su db)) = StillServing
           then [RedisEvent ClientOpened, PoolEvent ClientOpened] else [])"
  by (cases rule: run_cases [of su db]) (simp_all add: run_configured_open)



text \<open>
  C38. What the configuration accepts, the constructors accept: a run never ends because the password
  hasher or the token issuer refuses its configuration.
\<close>

lemma validated_config_constructs:
  assumes "bcrypt_laws (su_bcrypt su)"
  shows "fst (fst (run su db)) \<noteq> Exited (Some (ConfiguringHasher e))
    \<and> fst (fst (run su db)) \<noteq> Exited (Some (ConfiguringTokens e'))"
proof (cases rule: run_cases [of su db])
  case (no_config x)
  then show ?thesis by auto
next
  case (configured env cfg)
  have "config_ok cfg" using Load_accepts [THEN iffD1, OF configured(2)] by blast
  then have server: "fst (run_server su cfg trace) \<noteq> Exited (Some (ConfiguringHasher e))
      \<and> fst (run_server su cfg trace) \<noteq> Exited (Some (ConfiguringTokens e'))" for trace
    by (rule run_server_accepts [OF _ assms, of cfg trace]) (auto split: server_phase.splits option.splits)
  have "fst (fst (run_services su cfg db trace)) \<noteq> Exited (Some (ConfiguringHasher e))
      \<and> fst (fst (run_services su cfg db trace)) \<noteq> Exited (Some (ConfiguringTokens e'))" for trace
    using server by (auto simp: run_services_def Let_def release_trace split: prod.split sum.split option.split)
  then show ?thesis
    unfolding configured(3) run_configured_def by (simp add: Let_def split_beta release_trace split: sum.split)
qed

definition sample_surroundings :: "gostring list surroundings" where
  "sample_surroundings =
     \<lparr>su_environ = sample_environ, su_godotenv = (\<lambda>_ env. Inr env), su_stat = (\<lambda>_. StatNotExist),
      su_getwd = Inr ''/srv'', su_pgxParse = (\<lambda>_. Some \<lparr>pc_MaxConns = 4, pc_MinConns = 0, pc_MaxConnLifetime = 0,
        pc_MaxConnIdleTime = 0, pc_HealthCheckPeriod = 0, pc_ConnectTimeout = 0, pc_RuntimeParams = None\<rparr>),
      su_pgxNew = (\<lambda>_. None), su_poolPing = (\<lambda>_ _. (None, 5)), su_redisParse = (\<lambda>_. Some ()),
      su_redisPing = (\<lambda>_ _. (None, 5)), su_cancelled = None, su_timerFirst = (\<lambda>_. True), su_dbTime = 0,
      su_redisTime = 1000, su_sha256 = id, su_migrations = sample_files, su_migrateEnv = sample_run,
      su_column = QueryRow 1536, su_bcrypt = plain_bcrypt, su_salt = 0, su_listen = Inr '':8080'', su_ctxDone = False,
      su_events = [], su_redisClose = None\<rparr>"

lemma sample_surroundings_sel [simp]:
  "su_environ sample_surroundings = sample_environ" "su_stat sample_surroundings = (\<lambda>_. StatNotExist)"
  "su_getwd sample_surroundings = Inr ''/srv''" "su_bcrypt sample_surroundings = plain_bcrypt"
  "su_migrations sample_surroundings = sample_files" "su_migrateEnv sample_surroundings = sample_run"
  "su_sha256 sample_surroundings = id" "su_column sample_surroundings = QueryRow 1536"
  by (simp_all add: sample_surroundings_def)

lemma validated_config_constructs_witness:
  "fst (fst (run sample_surroundings fresh_database)) \<noteq> Exited (Some (ConfiguringTokens SecretTooShort))"
  using validated_config_constructs [of sample_surroundings fresh_database "BadCost 3" SecretTooShort]
  by (simp add: bcrypt_laws_plain)



end
