(* ===== verification/HTTP_Properties.thy ===== *)
theory HTTP_Properties
  imports Instances
begin

text \<open>
  What every request can rely on, whatever the handler does: the middleware chain around the routes,
  the routes that need a token, the health endpoint, and the life of the server.
\<close>

subsection \<open>A router for the examples\<close>

definition sample_http_draws :: http_draws where
  "sample_http_draws = \<lparr>hd_fresh = ''f1'', hd_elapsed = 0, hd_stack = (\<lambda>_. []), hd_order = [1, 0],
     hd_auth = \<lparr>dr_salt = 0, dr_ids = (1, 2), dr_parse = 0, dr_life = 0, dr_issue = 0\<rparr>, hd_now = 0\<rparr>"

definition sample_server_config :: ServerConfig where
  "sample_server_config = \<lparr>sc_Port = 8080, sc_LogLevel = 0, sc_ReadTimeout = 15, sc_WriteTimeout = 30, sc_IdleTimeout = 60,
     sc_ShutdownTimeout = 15, sc_CORSOrigins = [''*'']\<rparr>"

definition sample_tokens_cfg :: Tokens where
  "sample_tokens_cfg = \<lparr>tk_secret = ''an example secret of 32 or more bytes'', tk_accessTTL = 1, tk_refreshTTL = 2\<rparr>"

definition sample_get :: "gostring \<Rightarrow> request" where
  "sample_get path = \<lparr>rq_Method = ''GET'', rq_Path = path, rq_Header = (\<lambda>_. []), rq_Cookies = [], rq_Body = [],
     rq_RemoteAddr = [], rq_ctx_id = None, rq_ctx_identity = None\<rparr>"

definition sample_decoders :: decoders where
  "sample_decoders = \<lparr>dc_register = constant_decoder \<lparr>rr_Email = [], rr_Password = [], rr_Name = [], rr_TeamName = []\<rparr>,
     dc_login = constant_decoder \<lparr>lr_Email = [], lr_Password = []\<rparr>\<rparr>"

definition sample_http_world :: "(user_db, redis_server) auth_world" where
  "sample_http_world = \<lparr>w_log = [], aw_users = \<lparr>ud_teams = [], ud_users = [], ud_uuid = (\<lambda>_. 1), ud_next = 0, ud_now = 0,
       ud_lower = id, ud_fault = (\<lambda>_. None), ud_kept = False\<rparr>,
     aw_sessions = \<lparr>rs_entries = (\<lambda>_. None), rs_clock = 0, rs_up = True\<rparr>, aw_compared = []\<rparr>"

definition sample_deps :: "(gostring \<times> (user_db, redis_server) auth_world handler) list \<Rightarrow> (user_db, redis_server) Deps" where
  "sample_deps protected = \<lparr>dp_Config = sample_server_config, dp_Version = ''dev'', dp_HealthChecks = [],
     dp_Users = None, dp_Sessions = None, dp_Hasher = \<lparr>hs_cost = 12, hs_dummyHash = []\<rparr>,
     dp_Tokens = Some sample_tokens_cfg, dp_SecureCookies = False, dp_ProtectedRoutes = protected\<rparr>"

definition crash :: "gostring \<Rightarrow> 'w handler" where
  "crash v r w rw = Panicked (PanicValue v) w rw"

lemma new_response_unsent: "unsent (Base new_response)"
  by (simp add: unsent_def new_response_def)

lemma sample_fresh_id: "ValidRequestID (hd_fresh sample_http_draws)"
  by (simp add: ValidRequestID_iff sample_http_draws_def id_char_def is_digit_def)

subsection \<open>The chain\<close>

text \<open>
  C28. A panic leaves the router only when it is the value that the standard library defines for
  dropping a connection, and then a route raised it. That value is passed on, with nothing added to the
  log: when the routes raise it on every writer, the router raises it too, unless the CORS handler answered
  the request before it got there. When they raise any other, the router returns, and unless the CORS
  handler answered, the log has one more error with the value of the panic.
\<close>

lemma router_contains_panics:
  assumes "cors_laws cors"
  shows "(case NewRouter lb ch cors dec untokened d deps r w rw of
      Returned _ _ \<Rightarrow> True
    | Panicked p w' _ \<Rightarrow> p = ErrAbortHandler
        \<and> (\<exists>rw1 rw2. dispatch lb ch (mux_routes lb dec untokened d deps) (ContextWithRequestID r (request_id d r)) w rw1
             = Panicked ErrAbortHandler w' rw2))
    \<and> ((\<forall>rw1. \<exists>rw2. dispatch lb ch (mux_routes lb dec untokened d deps) (ContextWithRequestID r (request_id d r)) w rw1
          = Panicked ErrAbortHandler w1 rw2) \<longrightarrow>
        (\<exists>rw'. NewRouter lb ch cors dec untokened d deps r w rw = Returned w rw')
        \<or> (\<exists>rw'. NewRouter lb ch cors dec untokened d deps r w rw = Panicked ErrAbortHandler w1 rw'))
    \<and> ((\<forall>rw1. \<exists>rw2. dispatch lb ch (mux_routes lb dec untokened d deps) (ContextWithRequestID r (request_id d r)) w rw1
          = Panicked (PanicValue v) w1 rw2) \<longrightarrow>
        (\<exists>rw'. NewRouter lb ch cors dec untokened d deps r w rw = Returned w rw')
        \<or> (\<exists>p rest rw'. NewRouter lb ch cors dec untokened d deps r w rw =
              Returned (w1\<lparr>w_log := w_log w1 @ p # rest\<rparr>) rw'
            \<and> le_Level p = LevelError \<and> (''panic'', AString v) \<in> set (le_Attrs p)))"
proof (intro conjI impI)
  let ?routes = "dispatch lb ch (mux_routes lb dec untokened d deps)"
  show "case NewRouter lb ch cors dec untokened d deps r w rw of
      Returned _ _ \<Rightarrow> True
    | Panicked p w' _ \<Rightarrow> p = ErrAbortHandler
        \<and> (\<exists>rw1 rw2. ?routes (ContextWithRequestID r (request_id d r)) w rw1 = Panicked ErrAbortHandler w' rw2)"
    using withMiddleware_panic [OF assms] by (fastforce simp: NewRouter_def split: outcome.split)
next
  assume "\<forall>rw1. \<exists>rw2. dispatch lb ch (mux_routes lb dec untokened d deps)
    (ContextWithRequestID r (request_id d r)) w rw1 = Panicked ErrAbortHandler w1 rw2"
  then show "(\<exists>rw'. NewRouter lb ch cors dec untokened d deps r w rw = Returned w rw')
      \<or> (\<exists>rw'. NewRouter lb ch cors dec untokened d deps r w rw = Panicked ErrAbortHandler w1 rw')"
    unfolding NewRouter_def by (metis withMiddleware_abort [OF assms])
next
  assume panics: "\<forall>rw1. \<exists>rw2. dispatch lb ch (mux_routes lb dec untokened d deps)
    (ContextWithRequestID r (request_id d r)) w rw1 = Panicked (PanicValue v) w1 rw2"
  show "(\<exists>rw'. NewRouter lb ch cors dec untokened d deps r w rw = Returned w rw')
      \<or> (\<exists>p rest rw'. NewRouter lb ch cors dec untokened d deps r w rw =
            Returned (w1\<lparr>w_log := w_log w1 @ p # rest\<rparr>) rw'
          \<and> le_Level p = LevelError \<and> (''panic'', AString v) \<in> set (le_Attrs p))"
    unfolding NewRouter_def
    by (rule withMiddleware_logs [where handler = "dispatch lb ch (mux_routes lb dec untokened d deps)"
          and d = d and r = r and w = w and v = v and ?w1.0 = w1, OF assms])
      (use panics in blast)+
qed

definition drop_connection :: "'w handler" where
  "drop_connection r w rw = Panicked ErrAbortHandler w rw"

text \<open>A router whose endpoint drops the connection.\<close>

definition sample_abort :: "http_draws \<Rightarrow> (user_db, redis_server) auth_world handler" where
  "sample_abort d = NewRouter plain_lib first_match plain_cors sample_decoders (\<lambda>_. drop_connection) d
     (sample_deps []\<lparr>dp_Users := Some (NewUserRepository id), dp_Sessions := Some (NewSessionStore decimal_uuid redis_reference),
        dp_Tokens := None\<rparr>)"

lemma router_contains_panics_witness:
  "\<exists>rw'. sample_abort sample_http_draws (sample_get ''/api/v1/auth/register''\<lparr>rq_Method := ''POST''\<rparr>) sample_http_world
     (Base new_response) = Panicked ErrAbortHandler sample_http_world rw'"
proof -
  let ?deps = "sample_deps []\<lparr>dp_Users := Some (NewUserRepository id),
    dp_Sessions := Some (NewSessionStore decimal_uuid redis_reference), dp_Tokens := None\<rparr>"
  let ?r = "sample_get ''/api/v1/auth/register''\<lparr>rq_Method := ''POST''\<rparr>"
  let ?routes = "mux_routes plain_lib sample_decoders (\<lambda>_. drop_connection) sample_http_draws ?deps"
  have routes: "map fst ?routes = [Route ''GET'' ''/health'', Route ''POST'' ''/api/v1/auth/register'',
      Route ''POST'' ''/api/v1/auth/login'', Route ''POST'' ''/api/v1/auth/refresh'', Route ''POST'' ''/api/v1/auth/logout'']"
    "snd (?routes ! 1) = drop_connection"
    by (simp_all add: mux_routes_def auth_routes_def protected_routes_def sample_deps_def Let_def)
  have "first_match (map fst ?routes) ''POST'' ''/api/v1/auth/register'' = Matched 1"
    by (simp add: routes(1) first_match_def upt_rec)
  then have aborts: "dispatch plain_lib first_match ?routes (ContextWithRequestID ?r i) w rw = Panicked ErrAbortHandler w rw" for i w rw
    by (simp add: dispatch_def ContextWithRequestID_def sample_get_def routes(2) [unfolded One_nat_def] drop_connection_def)
  with router_contains_panics [OF cors_laws_plain, of plain_lib first_match sample_decoders "\<lambda>_. drop_connection"
      sample_http_draws ?deps ?r sample_http_world "Base new_response" sample_http_world]
  have "(\<exists>rw'. sample_abort sample_http_draws ?r sample_http_world (Base new_response) = Returned sample_http_world rw')
    \<or> (\<exists>rw'. sample_abort sample_http_draws ?r sample_http_world (Base new_response) = Panicked ErrAbortHandler sample_http_world rw')"
    unfolding sample_abort_def by blast
  moreover have "sample_abort sample_http_draws ?r sample_http_world (Base new_response) \<noteq> Returned sample_http_world rw'" for rw'
    by (simp add: sample_abort_def NewRouter_def withMiddleware_chain plain_cors_def ContextWithRequestID_def sample_get_def)
      (simp add: Logger_def Recoverer_def aborts [unfolded ContextWithRequestID_def sample_get_def, simplified])
  ultimately show ?thesis by blast
qed

text \<open>
  C27. A handler that panics before it has written anything is answered for: the client gets status 500
  with the id of the request, which is valid, and the log gets two entries, one for the panic and one
  for the request, both errors. (Or the CORS handler answered the request itself.)
\<close>

lemma panic_answered:
  assumes "cors_laws cors" and "encodes_errors lb" and "unsent rw" and "ValidRequestID (hd_fresh d)"
    and "\<forall>rw. handler (ContextWithRequestID r (request_id d r)) w rw = Panicked (PanicValue v) w rw"
  shows "(\<exists>rw'. withMiddleware lb cors d handler cfg r w rw = Returned w rw')
    \<or> (\<exists>w' rw' p q. withMiddleware lb cors d handler cfg r w rw = Returned w' rw'
        \<and> response_status rw' = Some 500 \<and> ValidRequestID (sent_header rw' ''X-Request-ID'')
        \<and> w_log w' = w_log w @ [p, q] \<and> le_Level p = LevelError \<and> le_Level q = LevelError
        \<and> le_Msg p = ''panic recovered'' \<and> le_Msg q = ''http request'' \<and> (''status'', AInt 500) \<in> set (le_Attrs q))"
proof (rule chain_panic [where handler = handler and v = v and d = d and r = r and w = w and cfg = cfg, OF assms(1-3)])
  show "handler (ContextWithRequestID r (request_id d r)) w rw = Panicked (PanicValue v) w rw" for rw using assms(5) by blast
next
  fix w' rw'
  assume "withMiddleware lb cors d handler cfg r w rw = Returned w' rw'" "response_status rw' = Some 500"
    "sent_header rw' ''X-Request-ID'' = request_id d r"
    "\<exists>p q. w_log w' = w_log w @ [p, q] \<and> le_Msg p = ''panic recovered'' \<and> le_Msg q = ''http request''
       \<and> le_Level p = LevelError \<and> le_Level q = LevelError \<and> (''status'', AInt 500) \<in> set (le_Attrs q)"
  with request_id_valid [OF assms(4), of r] show ?thesis by metis
qed blast

lemma panic_answered_witness:
  "(\<exists>rw'. withMiddleware plain_lib plain_cors sample_http_draws (crash ''nil map'') sample_server_config (sample_get ''/x'')
        (\<lparr>w_log = []\<rparr> :: world) (Base new_response) = Returned \<lparr>w_log = []\<rparr> rw')
    \<or> (\<exists>w' rw'. withMiddleware plain_lib plain_cors sample_http_draws (crash ''nil map'') sample_server_config
        (sample_get ''/x'') (\<lparr>w_log = []\<rparr> :: world) (Base new_response) = Returned w' rw' \<and> response_status rw' = Some 500)"
  using panic_answered [OF cors_laws_plain encodes_errors_plain new_response_unsent sample_fresh_id,
      where handler = "crash ''nil map''" and v = "''nil map''" and r = "sample_get ''/x''" and w = "\<lparr>w_log = []\<rparr> :: world"
        and cfg = sample_server_config]
  by (auto simp: crash_def)

text \<open>
  C29. A request that no route takes gets a JSON answer, not an empty one: status 404, the id of the
  request, which is the client's when that is a valid one, and as the body exactly the encoded error, which
  names that id too. (Or the CORS handler answered it.)
\<close>

lemma unmatched_answered:
  assumes "cors_header_laws cors" and "encodes_errors lb" and "unsent rw" and "ValidRequestID (hd_fresh d)"
    and "\<not> rp_broken (rw_base rw)"
    and "ch (map fst (mux_routes lb dec untokened d deps)) (rq_Method r) (rq_Path r) = NoRoute"
  shows "(\<exists>rw'. NewRouter lb ch cors dec untokened d deps r w rw = Returned w rw')
    \<or> (\<exists>w' rw' i b. NewRouter lb ch cors dec untokened d deps r w rw = Returned w' rw'
        \<and> response_status rw' = Some 404 \<and> sent_header rw' ''X-Request-ID'' = i \<and> ValidRequestID i
        \<and> (ValidRequestID (Header_Get (rq_Header r) RequestIDHeader) \<longrightarrow> i = Header_Get (rq_Header r) RequestIDHeader)
        \<and> sent_header rw' ''Content-Type'' = ''application/json; charset=utf-8''
        \<and> lb_encode lb (JObject [(''error'', JString ''not_found''),
             (''message'', JString ''The requested resource does not exist.''), (''request_id'', JString i)]) = Some b
        \<and> rp_body (rw_base rw') = rp_body (rw_base rw) @ b @ [CHR 0x0A])"
proof -
  define routes where "routes = mux_routes lb dec untokened d deps"
  have final: "final_status 404" "body_allowed 404" by (simp_all add: final_status_def body_allowed_def)
  have answers: "dispatch lb ch routes (ContextWithRequestID r (request_id d r)) w rw =
      returned (WriteError lb (ContextWithRequestID r (request_id d r)) 404 CodeNotFound
        ''The requested resource does not exist.'' w rw)" for rw
    using assms(6) by (simp add: dispatch_def routes_def ContextWithRequestID_def notFound_def)
  have valid: "ValidRequestID (request_id d r)" by (rule request_id_valid [OF assms(4)])
  then have "request_id d r \<noteq> []" by (simp add: ValidRequestID_iff)
  then have json: "ErrorResponse_json \<lparr>er_Error = CodeNotFound, er_Message = ''The requested resource does not exist.'',
      er_RequestID = request_id d r, er_Fields = []\<rparr> = JObject [(''error'', JString ''not_found''),
        (''message'', JString ''The requested resource does not exist.''), (''request_id'', JString (request_id d r))]"
    by (simp add: ErrorResponse_json_def CodeNotFound_def)
  show ?thesis
  proof (rule chain_error [where handler = "dispatch lb ch routes" and d = d and r = r and w = w and cfg = "dp_Config deps",
        OF assms(1-3) final assms(5) answers])
    fix w' rw' b
    assume "withMiddleware lb cors d (dispatch lb ch routes) (dp_Config deps) r w rw = Returned w' rw'"
      "response_status rw' = Some 404" "sent_header rw' ''X-Request-ID'' = request_id d r"
      "sent_header rw' ''Content-Type'' = ''application/json; charset=utf-8''"
      "lb_encode lb (ErrorResponse_json \<lparr>er_Error = CodeNotFound, er_Message = ''The requested resource does not exist.'',
         er_RequestID = request_id d r, er_Fields = []\<rparr>) = Some b"
      "rp_body (rw_base rw') = rp_body (rw_base rw) @ b @ [CHR 0x0A]"
    then show ?thesis
      using valid unfolding json by (intro disjI2 exI [of _ w'] exI [of _ rw'] exI [of _ "request_id d r"] exI [of _ b])
        (simp add: NewRouter_def routes_def request_id_def)
  qed (auto simp: NewRouter_def routes_def)
qed

lemma unmatched_answered_witness:
  "(\<exists>rw'. NewRouter plain_lib first_match plain_cors sample_decoders crash sample_http_draws (sample_deps [])
        (sample_get ''/nope'') sample_http_world (Base new_response) = Returned sample_http_world rw')
    \<or> (\<exists>w' rw'. NewRouter plain_lib first_match plain_cors sample_decoders crash sample_http_draws (sample_deps [])
        (sample_get ''/nope'') sample_http_world (Base new_response) = Returned w' rw' \<and> response_status rw' = Some 404)"
proof -
  have "map fst (mux_routes plain_lib sample_decoders crash sample_http_draws (sample_deps [])) = [Route ''GET'' ''/health'']"
    by (simp add: mux_routes_def auth_routes_def protected_routes_def sample_deps_def)
  then have "first_match (map fst (mux_routes plain_lib sample_decoders crash sample_http_draws (sample_deps [])))
      (rq_Method (sample_get ''/nope'')) (rq_Path (sample_get ''/nope'')) = NoRoute"
    by (simp add: first_match_def sample_get_def)
  from unmatched_answered [where r = "sample_get ''/nope''" and w = sample_http_world and lb = plain_lib and
      ch = first_match and dec = sample_decoders and untokened = crash and deps = "sample_deps []" and d = sample_http_draws,
      OF cors_header_laws_plain encodes_errors_plain new_response_unsent sample_fresh_id _ this]
  show ?thesis by (simp add: new_response_def) blast
qed

subsection \<open>Protected routes\<close>

text \<open>
  C6. A protected handler runs for authenticated callers only: for a request without a valid access
  token, exchanging the protected handlers for any others makes no difference, and a path outside the
  public ones is answered with 401, or with 404 or 405 when there is no such route.
\<close>

lemma protected_needs_token:
  fixes w :: "('u, 's) auth_world"
  assumes "chi_laws ch" and "dp_Tokens deps = Some tokens"
    and "\<nexists>who. authenticated lb tokens (hd_now d) r who"
    and "encodes_errors lb" and "unsent rw"
  shows "dispatch lb ch (mux_routes lb dec un d (with_protected g deps)) r w rw =
      dispatch lb ch (mux_routes lb dec un d deps) r w rw
    \<and> (rq_Path r \<noteq> ''/health'' \<and> \<not> prefix ''/api/v1/auth'' (rq_Path r) \<longrightarrow>
        status_of (dispatch lb ch (mux_routes lb dec un d deps) r w rw) \<in> {Some 401, Some 404, Some 405})"
  using dispatch_blind [OF assms(1-3), of dec un g w rw] dispatch_protected [OF assms(1-5), of dec un w] by simp

lemma protected_needs_token_witness:
  "status_of (dispatch plain_lib first_match (mux_routes plain_lib sample_decoders crash sample_http_draws
      (sample_deps [(''/incidents'', crash ''handler ran'')])) (sample_get ''/api/v1/incidents'') sample_http_world
      (Base new_response)) \<in> {Some 401, Some 404, Some 405}"
proof -
  have "\<nexists>who. authenticated plain_lib sample_tokens_cfg (hd_now sample_http_draws) (sample_get ''/api/v1/incidents'') who"
    by (simp add: authenticated_def bearerToken_def sample_get_def Header_Get_def bearerPrefix_def)
  then show ?thesis
    using protected_needs_token [OF chi_laws_first _ _ encodes_errors_plain new_response_unsent,
        of "sample_deps [(''/incidents'', crash ''handler ran'')]" sample_tokens_cfg sample_http_draws
          "sample_get ''/api/v1/incidents''"]
    by (simp add: sample_deps_def sample_get_def)
qed

subsection \<open>Health\<close>

text \<open>
  C30. The health endpoint reports every probe: 200 when all of them pass and 503 otherwise, with an
  entry for each check, its status and its latency, but no text of an error. The order in which the
  probes finish makes no difference to the answer.
\<close>

lemma health_reports_probes:
  assumes "set order = {..<length (hh_checks h)}"
  shows "\<exists>w'. ServeHTTP lb h order r w rw = returned (WriteJSON lb r
      (if list_all (\<lambda>c. fst (hc_Probe c (hh_timeout h)) = ProbeOK) (hh_checks h) then 200 else 503)
      (healthResponse_json (health_body h)) w' rw)
    \<and> (hr_Status (health_body h) = ''ok'' \<longleftrightarrow>
        list_all (\<lambda>c. fst (hc_Probe c (hh_timeout h)) = ProbeOK) (hh_checks h))
    \<and> map_of (hr_Checks (health_body h)) = map_of (rev (map (\<lambda>c. (hc_Name c,
        \<lparr>cr_Status = (if fst (hc_Probe c (hh_timeout h)) = ProbeOK then ''ok'' else ''unavailable''),
         cr_LatencyMS = Milliseconds (snd (hc_Probe c (hh_timeout h)))\<rparr>)) (hh_checks h)))"
proof -
  have all: "list_all (\<lambda>c. fst (hc_Probe c (hh_timeout h)) = ProbeOK) (hh_checks h) \<longleftrightarrow>
      list_all (passes h) (hh_checks h)"
    by (simp add: list_all_iff passes_def)
  have "zip (map hc_Name cs) (map (check_result h) cs) = map (\<lambda>c. (hc_Name c, check_result h c)) cs" for cs
    by (induction cs) simp_all
  then have entries: "map_of (hr_Checks (health_body h)) =
      map_of (rev (map (\<lambda>c. (hc_Name c, check_result h c)) (hh_checks h)))"
    by (simp add: health_body_def collect_entries)
  note entries = entries [unfolded check_result_def statusOK_def statusUnavailable_def]
  show ?thesis
    unfolding all entries
    using ServeHTTP_eq [OF assms, of lb r w rw] by (simp add: health_body_status statusOK_def statusDegraded_def)
qed

definition sample_health :: healthHandler where
  "sample_health = Health ''dev'' 0 [\<lparr>hc_Name = ''postgres'', hc_Probe = (\<lambda>_. (ProbeOK, 3000000))\<rparr>,
     \<lparr>hc_Name = ''redis'', hc_Probe = (\<lambda>_. (ProbeFailed ''connection refused'', 0))\<rparr>]"

lemma health_reports_probes_witness:
  "\<exists>w'. ServeHTTP plain_lib sample_health [1, 0] (sample_get ''/health'') sample_http_world (Base new_response) =
     returned (WriteJSON plain_lib (sample_get ''/health'') 503 (healthResponse_json (health_body sample_health)) w' (Base new_response))"
proof -
  have "set [1, 0] = {..<length (hh_checks sample_health)}"
    by (auto simp: sample_health_def Health_def)
  from health_reports_probes [OF this, of plain_lib "sample_get ''/health''" sample_http_world "Base new_response"]
  show ?thesis by (simp add: sample_health_def Health_def)
qed

subsection \<open>The server\<close>

text \<open>
  C22. The server stops in order: at any time nothing but the end of its context has led to a shutdown,
  \<open>Shutdown\<close> is called at most once and \<open>Close\<close> only after it has failed, and the result tells which
  of these happened. A life has at most five steps, and once the context has ended it goes on until the
  server has finished.
\<close>

lemma server_stops_in_order:
  assumes "server_run s (Run_start s listen c w) evs st"
  shows "server_inv s st \<and> length evs \<le> 5
    \<and> (ss_ctxDone st \<and> (\<forall>ev. server_step s ev st = None) \<longrightarrow> (\<exists>r. ss_phase st = Finished r))"
proof (intro conjI impI)
  show "server_inv s st" by (rule server_run_inv [OF assms server_inv_start])
  have "server_rank (Run_start s listen c w) \<le> 5"
    by (simp add: server_rank_def Run_start_def Serve_start_def split: sum.split)
  with server_run_length [OF assms] show "length evs \<le> 5" by linarith
  show "ss_ctxDone st \<and> (\<forall>ev. server_step s ev st = None) \<Longrightarrow> \<exists>r. ss_phase st = Finished r"
    using server_stops [OF assms] by blast
qed

definition sample_stop :: "server_event list" where
  "sample_stop = [ContextEnds, SelectDone, ShutdownReturns None None, ServeReturns ErrServerClosed, ReceiveResult]"

lemma server_stops_in_order_witness:
  "\<exists>st. server_inv (New sample_server_config) st \<and> ss_phase st = Finished None \<and> ss_calls st = [CallShutdown 15 None]"
proof -
  let ?s = "New sample_server_config"
  let ?st = "server_after ?s sample_stop (Run_start ?s (Inr '':8080'') False \<lparr>w_log = []\<rparr>)"
  obtain evs where "server_run ?s (Run_start ?s (Inr '':8080'') False \<lparr>w_log = []\<rparr>) evs ?st"
    using server_after_run by blast
  from server_stops_in_order [OF this] have "server_inv ?s ?st" by blast
  moreover have "ss_phase ?st = Finished None \<and> ss_calls ?st = [CallShutdown 15 None]"
    by (simp add: sample_stop_def server_step_def Run_start_def Serve_start_def New_def was_shut_down_def
        serve_result_def Let_def sample_server_config_def)
  ultimately show ?thesis by blast
qed

end
