(* ===== verification/Refresh_Interleaved.thy ===== *)
theory Refresh_Interleaved
  imports Session_Safety
begin

text \<open>
  Refresh requests that overlap. \<open>net/http\<close> serves every connection in a goroutine of its own, so
  between two calls that one refresh makes to its stores, others make theirs. The handler of
  \<open>internal/handlers/auth.go\<close> is cut here into its three stages, each with a single call: the check
  for a revocation, the lookup of the user, the revocation. In a row they are the handler, and the
  step relation \<open>session_step\<close> interleaves the stages of any number of requests, with logouts and
  with whatever else happens to the stores.
\<close>

subsection \<open>The stages of a refresh\<close>

definition refresh_check :: "lib \<Rightarrow> ('u, 's) AuthHandler \<Rightarrow> draws \<Rightarrow> request \<Rightarrow> ('u, 's) auth_world \<Rightarrow> rw \<Rightarrow>
    (('u, 's) auth_world outcome, claims \<times> uuid \<times> uuid) result" where
  "refresh_check lb h d r w rw =
     (case request_cookie r RefreshCookieName of
        None \<Rightarrow> Inl (returned (rejectSession lb ''no refresh cookie'' r w rw))
      | Some cookie \<Rightarrow>
     (case ParseRefresh (lb_jwt lb) (lb_uuid lb) (ah_tokens h) (dr_parse d) cookie of
        Inl e \<Rightarrow> Inl (returned (rejectSession lb (''refresh token rejected: '' @ token_Error e) r w
          (clearRefreshCookie h rw)))
      | Inr claims \<Rightarrow>
     (case uuid_Parse (lb_uuid lb) (cl_ID claims) of
        Inl _ \<Rightarrow> Inl (returned (rejectSession lb ''refresh token has no usable id'' r w (clearRefreshCookie h rw)))
      | Inr tokenID \<Rightarrow>
     (case so_IsRevoked (ah_sessions h) tokenID (aw_sessions w) of
        Inl e \<Rightarrow> Inl (returned (WriteInternalError lb r e w rw))
      | Inr revoked \<Rightarrow>
          if revoked then
            Inl (returned (rejectSession lb ''refresh token already used or logged out'' r w
              (clearRefreshCookie h rw)))
          else
     (case UserID (lb_uuid lb) claims of
        Inl _ \<Rightarrow> Inl (returned (rejectSession lb ''refresh token subject is unusable'' r w (clearRefreshCookie h rw)))
      | Inr userID \<Rightarrow> Inr (claims, tokenID, userID))))))"

definition refresh_find :: "lib \<Rightarrow> ('u, 's) AuthHandler \<Rightarrow> request \<Rightarrow> uuid \<Rightarrow> ('u, 's) auth_world \<Rightarrow> rw \<Rightarrow>
    (('u, 's) auth_world outcome, User) result" where
  "refresh_find lb h r userID w rw =
     (case uo_FindByID (ah_users h) userID (aw_users w) of
        Inl NotFound \<Rightarrow>
          Inl (returned (rejectSession lb ''refresh token names a user that no longer exists'' r w
            (clearRefreshCookie h rw)))
      | Inl e \<Rightarrow> Inl (returned (WriteInternalError lb r (store_Error e) w rw))
      | Inr user \<Rightarrow> Inr user)"

definition refresh_revoke :: "lib \<Rightarrow> ('u, 's) AuthHandler \<Rightarrow> draws \<Rightarrow> request \<Rightarrow> claims \<Rightarrow> uuid \<Rightarrow> User \<Rightarrow>
    ('u, 's) auth_world \<Rightarrow> rw \<Rightarrow> ('u, 's) auth_world outcome" where
  "refresh_revoke lb h d r claims tokenID user w rw =
     (let (err, ss) = so_Revoke (ah_sessions h) tokenID (remainingLife (dr_life d) claims) (aw_sessions w);
          w = w\<lparr>aw_sessions := ss\<rparr>
      in case err of
           Some e \<Rightarrow> returned (WriteInternalError lb r e w rw)
         | None \<Rightarrow>
             returned (respondWithSession lb h d r 200 user (zero_Team\<lparr>team_ID := user_TeamID user\<rparr>)
               (emit LevelInfo ''session refreshed''
                  [(''user_id'', AId (user_ID user)), (''team_id'', AId (user_TeamID user)),
                   (''request_id'', AString (RequestID_of r))] w) rw))"

text \<open>The handler is its stages in a row.\<close>

lemma Refresh_stages:
  "Refresh lb h d r w rw =
     (case refresh_check lb h d r w rw of
        Inl out \<Rightarrow> out
      | Inr (claims, tokenID, userID) \<Rightarrow>
     (case refresh_find lb h r userID w rw of
        Inl out \<Rightarrow> out
      | Inr user \<Rightarrow> refresh_revoke lb h d r claims tokenID user w rw))"
  by (simp add: Refresh_def refresh_check_def refresh_find_def refresh_revoke_def
      split: option.split sum.split store_error.split)

lemma refresh_check_passed:
  assumes "refresh_check lb h d r w rw = Inr (claims, i, u)"
  shows "presents lb h r (dr_parse d) claims i"
    and "so_IsRevoked (ah_sessions h) i (aw_sessions w) = Inr False"
  using assms by (auto simp: refresh_check_def presents_def split: option.splits sum.splits if_splits)

text \<open>A stage that ends a request early does not end it with a session, and leaves the stores alone.\<close>

lemma stage_refused:
  assumes "encodes_errors lb" and "unsent rw"
  shows "refresh_check lb h d r w rw = Inl out \<Longrightarrow> status_of out \<noteq> Some 200"
    and "refresh_find lb h r u w rw = Inl out \<Longrightarrow> status_of out \<noteq> Some 200"
proof -
  have "unsent (clearRefreshCookie h rw)" using assms(2) by (simp add: cookie_writers)
  note err = error_responses [OF assms] error_responses [OF assms(1) this]
  show "refresh_check lb h d r w rw = Inl out \<Longrightarrow> status_of out \<noteq> Some 200"
    by (auto simp: refresh_check_def err split: option.splits sum.splits if_splits)
  show "refresh_find lb h r u w rw = Inl out \<Longrightarrow> status_of out \<noteq> Some 200"
    by (auto simp: refresh_find_def err split: sum.splits store_error.splits)
qed

lemma rejected_sessions [simp]:
  "aw_sessions (fst (rejectSession lb reason r w rw)) = aw_sessions w"
  "aw_sessions (fst (WriteInternalError lb r cause w rw)) = aw_sessions w"
  "aw_sessions (fst (respondWithSession lb h d r status user team w rw)) = aw_sessions w"
  by (simp_all add: rejectSession_def WriteInternalError_def WriteError_def WriteJSON_def emit_def
      respondWithSession_def split: option.split sum.split)

lemma stage_sessions:
  "refresh_check lb h d r w rw = Inl out \<Longrightarrow> aw_sessions (final_world out) = aw_sessions w"
  "refresh_find lb h r u w rw = Inl out \<Longrightarrow> aw_sessions (final_world out) = aw_sessions w"
  by (auto simp: refresh_check_def refresh_find_def
      split: option.splits sum.splits store_error.splits if_splits)

lemma refresh_revoke_sessions:
  "aw_sessions (final_world (refresh_revoke lb h d r claims i v w rw)) =
     snd (so_Revoke (ah_sessions h) i (remainingLife (dr_life d) claims) (aw_sessions w))"
  by (simp add: refresh_revoke_def Let_def split_beta emit_def split: option.split)

lemma refresh_revoke_granted:
  assumes "encodes_errors lb" and "unsent rw"
    and "status_of (refresh_revoke lb h d r claims i v w rw) = Some 200"
  shows "fst (so_Revoke (ah_sessions h) i (remainingLife (dr_life d) claims) (aw_sessions w)) = None"
  using assms(3)
  by (auto simp: refresh_revoke_def Let_def split_beta error_responses [OF assms(1,2)] split: option.splits)

subsection \<open>Overlapping requests\<close>

text \<open>
  A request is a refresh or a logout, with what it draws from its surroundings and the writer of its
  answer. It arrives, a refresh passes the check and then the lookup, and in the end it is answered.
\<close>

record session_request =
  sq_logout :: bool
  sq_draws :: draws
  sq_request :: request
  sq_rw :: rw

datatype phase = Arrived | Checked claims uuid uuid | Found claims uuid User | Answered rw

type_synonym ('u, 's) served = "('u, 's) auth_world \<times> (nat \<Rightarrow> phase)"

abbreviation answer :: "'w outcome \<Rightarrow> nat \<Rightarrow> (nat \<Rightarrow> phase) \<Rightarrow> 'w \<times> (nat \<Rightarrow> phase)" where
  "answer out n ph \<equiv> (final_world out, ph(n := Answered (final_rw out)))"

text \<open>
  The lifetime of a revocation is counted from the clock of the process when the stage runs; it
  runs \<open>skew\<close> ahead of the clock of the store. Between the stages anything may happen to the
  users and the log, and to the sessions what their environment does.
\<close>

definition at_clock :: "time \<Rightarrow> session_request \<Rightarrow> draws" where
  "at_clock now q = (sq_draws q)\<lparr>dr_life := now\<rparr>"

inductive session_step ::
  "lib \<Rightarrow> ('u, 's) AuthHandler \<Rightarrow> ('s \<Rightarrow> time) \<Rightarrow> ('s \<Rightarrow> 's \<Rightarrow> bool) \<Rightarrow> duration \<Rightarrow> (nat \<Rightarrow> session_request) \<Rightarrow>
     ('u, 's) served \<Rightarrow> ('u, 's) served \<Rightarrow> bool"
  for lb h clock environment skew reqs where
  refused: "ph n = Arrived \<Longrightarrow> \<not> sq_logout (reqs n) \<Longrightarrow>
    refresh_check lb h (sq_draws (reqs n)) (sq_request (reqs n)) w (sq_rw (reqs n)) = Inl out \<Longrightarrow>
    session_step lb h clock environment skew reqs (w, ph) (answer out n ph)"
| checked: "ph n = Arrived \<Longrightarrow> \<not> sq_logout (reqs n) \<Longrightarrow>
    refresh_check lb h (sq_draws (reqs n)) (sq_request (reqs n)) w (sq_rw (reqs n)) = Inr (claims, i, u) \<Longrightarrow>
    session_step lb h clock environment skew reqs (w, ph) (w, ph(n := Checked claims i u))"
| not_found: "ph n = Checked claims i u \<Longrightarrow>
    refresh_find lb h (sq_request (reqs n)) u w (sq_rw (reqs n)) = Inl out \<Longrightarrow>
    session_step lb h clock environment skew reqs (w, ph) (answer out n ph)"
| found: "ph n = Checked claims i u \<Longrightarrow>
    refresh_find lb h (sq_request (reqs n)) u w (sq_rw (reqs n)) = Inr v \<Longrightarrow>
    session_step lb h clock environment skew reqs (w, ph) (w, ph(n := Found claims i v))"
| revoked: "ph n = Found claims i v \<Longrightarrow>
    refresh_revoke lb h (at_clock (clock (aw_sessions w) + skew) (reqs n)) (sq_request (reqs n)) claims i v w
      (sq_rw (reqs n)) = out \<Longrightarrow>
    session_step lb h clock environment skew reqs (w, ph) (answer out n ph)"
| logged_out: "ph n = Arrived \<Longrightarrow> sq_logout (reqs n) \<Longrightarrow>
    Logout lb h (at_clock (clock (aw_sessions w) + skew) (reqs n)) (sq_request (reqs n)) w (sq_rw (reqs n)) = out \<Longrightarrow>
    session_step lb h clock environment skew reqs (w, ph) (answer out n ph)"
| elsewhere: "aw_sessions w' = aw_sessions w \<or> environment (aw_sessions w) (aw_sessions w') \<Longrightarrow>
    session_step lb h clock environment skew reqs (w, ph) (w', ph)"

abbreviation session_steps ::
  "lib \<Rightarrow> ('u, 's) AuthHandler \<Rightarrow> ('s \<Rightarrow> time) \<Rightarrow> ('s \<Rightarrow> 's \<Rightarrow> bool) \<Rightarrow> duration \<Rightarrow> (nat \<Rightarrow> session_request) \<Rightarrow>
     ('u, 's) served \<Rightarrow> ('u, 's) served \<Rightarrow> bool" where
  "session_steps lb h clock environment skew reqs \<equiv> (session_step lb h clock environment skew reqs)\<^sup>*\<^sup>*"

text \<open>What a request holds between its stages is what its cookie says.\<close>

definition phases_ok :: "lib \<Rightarrow> ('u, 's) AuthHandler \<Rightarrow> (nat \<Rightarrow> session_request) \<Rightarrow> (nat \<Rightarrow> phase) \<Rightarrow> bool" where
  "phases_ok lb h reqs ph \<longleftrightarrow>
     (\<forall>n. case ph n of
        Checked claims i u \<Rightarrow> presents lb h (sq_request (reqs n)) (dr_parse (sq_draws (reqs n))) claims i
      | Found claims i v \<Rightarrow> presents lb h (sq_request (reqs n)) (dr_parse (sq_draws (reqs n))) claims i
      | _ \<Rightarrow> True)"

lemma phases_okD:
  assumes "phases_ok lb h reqs ph"
  shows "ph n = Checked claims i u \<Longrightarrow> presents lb h (sq_request (reqs n)) (dr_parse (sq_draws (reqs n))) claims i"
    and "ph n = Found claims i v \<Longrightarrow> presents lb h (sq_request (reqs n)) (dr_parse (sq_draws (reqs n))) claims i"
proof -
  from assms have "case ph n of
      Checked claims i u \<Rightarrow> presents lb h (sq_request (reqs n)) (dr_parse (sq_draws (reqs n))) claims i
    | Found claims i v \<Rightarrow> presents lb h (sq_request (reqs n)) (dr_parse (sq_draws (reqs n))) claims i
    | _ \<Rightarrow> True" by (simp add: phases_ok_def)
  then show "ph n = Checked claims i u \<Longrightarrow> presents lb h (sq_request (reqs n)) (dr_parse (sq_draws (reqs n))) claims i"
    and "ph n = Found claims i v \<Longrightarrow> presents lb h (sq_request (reqs n)) (dr_parse (sq_draws (reqs n))) claims i"
    by simp_all
qed

lemma phases_ok_arrived [simp]: "phases_ok lb h reqs (\<lambda>_. Arrived)"
  by (simp add: phases_ok_def)

lemma phases_ok_step:
  assumes "session_step lb h clock environment skew reqs (w, ph) (w', ph')" and "phases_ok lb h reqs ph"
  shows "phases_ok lb h reqs ph'"
  using assms
proof (cases rule: session_step.cases)
  case (checked n claims i u)
  with assms(2) refresh_check_passed(1) [OF checked(5)] show ?thesis by (simp add: phases_ok_def)
next
  case (found n claims i u v)
  with phases_okD(1) [OF assms(2), of n] assms(2) show ?thesis by (simp add: phases_ok_def)
qed (auto simp: phases_ok_def)

text \<open>A logout revokes the token of its cookie, or nothing.\<close>

lemma Logout_sessions:
  "aw_sessions (final_world (Logout lb h d r w rw)) = aw_sessions w
   \<or> (\<exists>claims i. presents lb h r (dr_parse d) claims i
        \<and> aw_sessions (final_world (Logout lb h d r w rw)) =
            snd (so_Revoke (ah_sessions h) i (remainingLife (dr_life d) claims) (aw_sessions w)))"
proof (cases "\<exists>cookie claims i. request_cookie r RefreshCookieName = Some cookie
    \<and> ParseRefresh (lb_jwt lb) (lb_uuid lb) (ah_tokens h) (dr_parse d) cookie = Inr claims
    \<and> uuid_Parse (lb_uuid lb) (cl_ID claims) = Inr i")
  case True
  then obtain cookie claims i where path: "request_cookie r RefreshCookieName = Some cookie"
    "ParseRefresh (lb_jwt lb) (lb_uuid lb) (ah_tokens h) (dr_parse d) cookie = Inr claims"
    "uuid_Parse (lb_uuid lb) (cl_ID claims) = Inr i" by blast
  then have "presents lb h r (dr_parse d) claims i" by (simp add: presents_def)
  moreover have "aw_sessions (final_world (Logout lb h d r w rw)) =
      snd (so_Revoke (ah_sessions h) i (remainingLife (dr_life d) claims) (aw_sessions w))"
    by (simp add: Logout_def path Let_def split_beta emit_def split: option.split)
  ultimately show ?thesis by blast
next
  case False
  then show ?thesis
    by (auto simp: Logout_def Let_def emit_def split: option.split sum.split)
qed

text \<open>
  The end of a revocation, at the clock of the store, does not come earlier when the token is
  revoked again later.
\<close>

lemma remainingLife_ends:
  "t \<le> t' \<Longrightarrow> t + remainingLife (t + skew) claims \<le> t' + remainingLife (t' + skew) claims"
  by (auto simp: remainingLife_def time_Sub_def min_int64_def max_int64_def split: option.split)

definition only_token :: "lib \<Rightarrow> ('u, 's) AuthHandler \<Rightarrow> (nat \<Rightarrow> session_request) \<Rightarrow> claims \<Rightarrow> uuid \<Rightarrow> bool" where
  "only_token lb h reqs claims i \<longleftrightarrow>
     (\<forall>n claims'. presents lb h (sq_request (reqs n)) (dr_parse (sq_draws (reqs n))) claims' i \<longrightarrow> claims' = claims)"

lemma at_clock_parse [simp]: "dr_parse (at_clock t q) = dr_parse (sq_draws q)" "dr_life (at_clock t q) = t"
  by (simp_all add: at_clock_def)

subsection \<open>How far the check goes\<close>

text \<open>What the stages take from the draws, and what an answer takes from the world.\<close>

lemma refresh_check_at_clock [simp]:
  "refresh_check lb h (at_clock t q) r w rw = refresh_check lb h (sq_draws q) r w rw"
  unfolding refresh_check_def at_clock_parse(1) ..

lemma session_answer_same:
  "snd (respondWithSession lb h (at_clock t q) r 200 v team w rw) = snd (respondWithSession lb h (at_clock t' q) r 200 v team w' rw)"
  by (simp add: respondWithSession_def WriteInternalError_def WriteError_def WriteJSON_def at_clock_def
      split: option.split sum.split)

lemma refresh_revoke_answer:
  "fst (so_Revoke (ah_sessions h) i (remainingLife (dr_life d) claims) (aw_sessions w)) = None \<Longrightarrow>
     \<exists>w'. refresh_revoke lb h d r claims i v w rw =
       returned (respondWithSession lb h d r 200 v (zero_Team\<lparr>team_ID := user_TeamID v\<rparr>) w' rw)"
  by (auto simp: refresh_revoke_def Let_def split_beta)

text \<open>A refresh that is granted passes all three stages; granted on its own, it is granted wherever it can revoke.\<close>

lemma granted_stages:
  assumes "encodes_errors lb" and "unsent rw" and "status_of (Refresh lb h d r w rw) = Some 200"
  obtains claims i u v where "refresh_check lb h d r w rw = Inr (claims, i, u)"
    "refresh_find lb h r u w rw = Inr v" "status_of (refresh_revoke lb h d r claims i v w rw) = Some 200"
    "fst (so_Revoke (ah_sessions h) i (remainingLife (dr_life d) claims) (aw_sessions w)) = None"
proof -
  have "\<exists>claims i u v. refresh_check lb h d r w rw = Inr (claims, i, u) \<and> refresh_find lb h r u w rw = Inr v
      \<and> status_of (refresh_revoke lb h d r claims i v w rw) = Some 200"
    using assms(3) stage_refused [OF assms(1,2), where h = h and r = r and w = w]
    by (auto simp: Refresh_stages split: sum.splits)
  then show thesis using that refresh_revoke_granted [OF assms(1,2)] by metis
qed

lemma granted_elsewhere:
  assumes "encodes_errors lb" and "unsent rw"
    and "status_of (refresh_revoke lb h (at_clock t q) r claims i v w rw) = Some 200"
    and "fst (so_Revoke (ah_sessions h) i (remainingLife t' claims) (aw_sessions w')) = None"
  shows "status_of (refresh_revoke lb h (at_clock t' q) r claims i v w' rw) = Some 200"
proof -
  obtain w1 where here: "refresh_revoke lb h (at_clock t q) r claims i v w rw =
      returned (respondWithSession lb h (at_clock t q) r 200 v (zero_Team\<lparr>team_ID := user_TeamID v\<rparr>) w1 rw)"
    using refresh_revoke_answer [OF refresh_revoke_granted [OF assms(1-3)]] by blast
  obtain w2 where there: "refresh_revoke lb h (at_clock t' q) r claims i v w' rw =
      returned (respondWithSession lb h (at_clock t' q) r 200 v (zero_Team\<lparr>team_ID := user_TeamID v\<rparr>) w2 rw)"
    using refresh_revoke_answer [where d = "at_clock t' q", unfolded at_clock_parse(2), OF assms(4)] by blast
  show ?thesis
    using assms(3) unfolding here there final_returned session_answer_same [of lb h t' q r v _ w2 rw t w1] .
qed

text \<open>The first two stages of a request, one after the other.\<close>

lemma checked_and_found:
  assumes "ph n = Arrived" and "\<not> sq_logout (reqs n)"
    and "refresh_check lb h (sq_draws (reqs n)) (sq_request (reqs n)) w (sq_rw (reqs n)) = Inr (claims, i, u)"
    and "refresh_find lb h (sq_request (reqs n)) u w (sq_rw (reqs n)) = Inr v"
  shows "session_steps lb h clock environment skew reqs (w, ph) (w, ph(n := Found claims i v))"
proof -
  have "session_step lb h clock environment skew reqs (w, ph) (w, ph(n := Checked claims i u))"
    by (rule session_step.checked) (fact assms)+
  moreover have "session_step lb h clock environment skew reqs (w, ph(n := Checked claims i u))
      (w, (ph(n := Checked claims i u))(n := Found claims i v))"
    by (rule session_step.found [of "ph(n := Checked claims i u)" n claims i u]) (simp_all add: assms(4))
  ultimately show ?thesis unfolding fun_upd_upd by (rule converse_rtranclp_into_rtranclp [OF _ r_into_rtranclp])
qed

lemma granted_request:
  assumes "encodes_errors lb" and "unsent (sq_rw q)"
    and "status_of (Refresh lb h (at_clock t q) (sq_request q) w (sq_rw q)) = Some 200"
  obtains claims i u v where "refresh_check lb h (sq_draws q) (sq_request q) w (sq_rw q) = Inr (claims, i, u)"
    "refresh_find lb h (sq_request q) u w (sq_rw q) = Inr v"
    "status_of (refresh_revoke lb h (at_clock t q) (sq_request q) claims i v w (sq_rw q)) = Some 200"
  using granted_stages [OF assms, unfolded refresh_check_at_clock] by metis

text \<open>Two requests that have both got so far are both granted.\<close>

lemma found_granted:
  assumes enc: "encodes_errors lb" and un: "unsent (sq_rw (reqs n))" "unsent (sq_rw (reqs m))" and "n \<noteq> m"
    and n: "ph n = Found claims i v" "status_of (refresh_revoke lb h (at_clock (clock (aw_sessions w) + skew) (reqs n))
      (sq_request (reqs n)) claims i v w (sq_rw (reqs n))) = Some 200"
    and m: "ph m = Found claims' j v'" "status_of (refresh_revoke lb h (at_clock (clock (aw_sessions w) + skew) (reqs m))
      (sq_request (reqs m)) claims' j v' w (sq_rw (reqs m))) = Some 200"
    and store: "\<forall>i ttl j ttl'. fst (so_Revoke (ah_sessions h) i ttl (aw_sessions w)) = None \<longrightarrow>
      fst (so_Revoke (ah_sessions h) j ttl' (snd (so_Revoke (ah_sessions h) i ttl (aw_sessions w)))) = None"
  obtains w1 rw w2 rw' where
    "session_step lb h clock environment skew reqs (w, ph) (w1, ph(n := Answered rw))" "response_status rw = Some 200"
    "session_step lb h clock environment skew reqs (w1, ph(n := Answered rw)) (w2, ph(n := Answered rw, m := Answered rw'))"
    "response_status rw' = Some 200"
proof -
  let ?d = "\<lambda>w k. at_clock (clock (aw_sessions w) + skew) (reqs k)" and ?r = "\<lambda>k. sq_request (reqs k)"
  let ?out = "refresh_revoke lb h (?d w n) (?r n) claims i v w (sq_rw (reqs n))"
  let ?w1 = "final_world ?out" and ?half = "ph(n := Answered (final_rw ?out))"
  let ?out' = "refresh_revoke lb h (?d ?w1 m) (?r m) claims' j v' ?w1 (sq_rw (reqs m))"
  have first: "session_step lb h clock environment skew reqs (w, ph) (?w1, ?half)"
    by (rule session_step.revoked, fact n(1), rule refl)
  have "fst (so_Revoke (ah_sessions h) j (remainingLife (clock (aw_sessions ?w1) + skew) claims') (aw_sessions ?w1)) = None"
    using store refresh_revoke_granted [OF enc un(1) n(2)] by (simp add: refresh_revoke_sessions)
  then have granted: "status_of ?out' = Some 200" by (rule granted_elsewhere [OF enc un(2) m(2)])
  have half: "?half m = Found claims' j v'" using m(1) \<open>n \<noteq> m\<close> by simp
  have "session_step lb h clock environment skew reqs (?w1, ?half) (final_world ?out', ?half(m := Answered (final_rw ?out')))"
    by (rule session_step.revoked, fact half, rule refl)
  from that [OF first n(2) this granted] show thesis .
qed

context session_store
begin

text \<open>
  From a moment \<open>since\<close> on, the requests only revoke the token for as long as it has left, so for
  the store they are a run of \<open>evolves\<close>.
\<close>

abbreviation lasting :: "claims \<Rightarrow> uuid \<Rightarrow> duration \<Rightarrow> time \<Rightarrow> uuid \<Rightarrow> duration \<Rightarrow> 's \<Rightarrow> bool" where
  "lasting claims i skew since j ttl u \<equiv>
     j = i \<longrightarrow> ttl = remainingLife (now_of u + skew) claims \<and> since \<le> now_of u"

lemma evolves_once: "allowed j ttl s \<Longrightarrow> evolves ops environment allowed s (snd (so_Revoke ops j ttl s))"
  by (rule evolves.revoked [OF evolves.here])

lemma step_evolves:
  assumes "session_step lb h now_of environment skew reqs (w, ph) (w', ph')"
    and "ah_sessions h = ops" and "phases_ok lb h reqs ph" and "only_token lb h reqs claims i"
    and "since \<le> now_of (aw_sessions w)"
  shows "evolves ops environment (lasting claims i skew since) (aw_sessions w) (aw_sessions w')"
proof -
  have revoking: "evolves ops environment (lasting claims i skew since) (aw_sessions w)
      (snd (so_Revoke ops j (remainingLife (now_of (aw_sessions w) + skew) claims') (aw_sessions w)))"
    if "presents lb h (sq_request (reqs n)) (dr_parse (sq_draws (reqs n))) claims' j" for n claims' j
    using that assms(4,5) by (intro evolves_once) (auto simp: only_token_def)
  from assms(1) show ?thesis
  proof (cases rule: session_step.cases)
    case (revoked n claims' j v out)
    let ?d = "at_clock (now_of (aw_sessions w) + skew) (reqs n)"
    have w': "aw_sessions w' =
        snd (so_Revoke ops j (remainingLife (now_of (aw_sessions w) + skew) claims') (aw_sessions w))"
      using refresh_revoke_sessions [of lb h ?d "sq_request (reqs n)" claims' j v w "sq_rw (reqs n)"] revoked(1,4)
      by (simp add: assms(2))
    show ?thesis unfolding w' by (rule revoking [OF phases_okD(2) [OF assms(3) revoked(3)]])
  next
    case (logged_out n out)
    let ?d = "at_clock (now_of (aw_sessions w) + skew) (reqs n)"
    let ?out = "Logout lb h ?d (sq_request (reqs n)) w (sq_rw (reqs n))"
    have w': "w' = final_world ?out" using logged_out by simp
    consider "aw_sessions w' = aw_sessions w"
      | claims' j where "presents lb h (sq_request (reqs n)) (dr_parse (sq_draws (reqs n))) claims' j"
        "aw_sessions w' = snd (so_Revoke ops j (remainingLife (now_of (aw_sessions w) + skew) claims') (aw_sessions w))"
      using Logout_sessions [of lb h ?d "sq_request (reqs n)" w "sq_rw (reqs n)"] by (auto simp: w' assms(2))
    then show ?thesis using revoking by cases (simp_all add: evolves.here)
  next
    case elsewhere
    then show ?thesis by (auto intro: evolves.here evolves.moved [OF evolves.here])
  qed (simp_all add: stage_sessions evolves.here)
qed

lemma evolves_trans:
  "evolves ops environment allowed s2 s3 \<Longrightarrow> evolves ops environment allowed s1 s2 \<Longrightarrow>
     evolves ops environment allowed s1 s3"
  by (induction rule: evolves.induct) (auto intro: evolves.intros)

lemma steps_evolve:
  assumes "session_steps lb h now_of environment skew reqs (w, ph) (w', ph')"
    and "ah_sessions h = ops" and "phases_ok lb h reqs ph" and "only_token lb h reqs claims i"
    and "since \<le> now_of (aw_sessions w)"
  shows "evolves ops environment (lasting claims i skew since) (aw_sessions w) (aw_sessions w') \<and> phases_ok lb h reqs ph'"
  using assms(1)
proof (induction rule: rtranclp_induct2)
  case refl
  show ?case by (intro conjI evolves.here assms(3))
next
  case (step w1 ph1 w2 ph2)
  then have ev: "evolves ops environment (lasting claims i skew since) (aw_sessions w) (aw_sessions w1)"
    and ok: "phases_ok lb h reqs ph1" by blast+
  from evolves_clock [OF ev] assms(5) have "since \<le> now_of (aw_sessions w1)" by simp
  from evolves_trans [OF step_evolves [OF step.hyps(2) assms(2) ok assms(4) this] ev]
    phases_ok_step [OF step.hyps(2) ok]
  show ?case by blast
qed

text \<open>
  A refresh that arrives after another with the same cookie has been granted is not granted, in
  whichever way their stages and those of the others follow each other.
\<close>

lemma arrived_not_granted:
  assumes laws: "encodes_errors lb" "jwt_laws (lb_jwt lb)" "ah_sessions h = ops" "\<forall>k. unsent (sq_rw (reqs k))"
    and rev: "so_Revoke ops i (remainingLife (now_of s + skew) claims) s = (None, aw_sessions w1)"
    and "session_steps lb h now_of environment skew reqs (w1, ph1) (w2, ph2)"
    and "phases_ok lb h reqs ph1" and tok: "only_token lb h reqs claims i"
    and "now_of (aw_sessions w2) + millisecond < now_of s + remainingLife (now_of s + skew) claims"
    and "presents lb h (sq_request (reqs n)) (dr_parse (sq_draws (reqs n))) claims i"
    and "ph1 m = Arrived" and "\<not> sq_logout (reqs m)"
    and cookie: "request_cookie (sq_request (reqs m)) RefreshCookieName =
      request_cookie (sq_request (reqs n)) RefreshCookieName"
  shows "ph2 m = Arrived \<or> (\<exists>rw. ph2 m = Answered rw \<and> response_status rw \<noteq> Some 200)"
  using assms(6,9)
proof (induction rule: rtranclp_induct2)
  case (step w2 ph2 w3 ph3)
  have since: "now_of s \<le> now_of (aw_sessions w1)" using clock_revoke [of i "remainingLife (now_of s + skew) claims" s] rev by simp
  from steps_evolve [OF step.hyps(1) laws(3) assms(7) tok since]
  have ev: "evolves ops environment (lasting claims i skew (now_of s)) (aw_sessions w1) (aw_sessions w2)"
    and ok: "phases_ok lb h reqs ph2" by blast+
  have since2: "now_of s \<le> now_of (aw_sessions w2)" using since evolves_clock [OF ev] by simp
  from evolves_clock [OF step_evolves [OF step.hyps(2) laws(3) ok tok since2]] step.prems
  have early: "now_of (aw_sessions w2) + millisecond < now_of s + remainingLife (now_of s + skew) claims" by simp
  note not_good = stays_revoked [OF rev ev _ early]
  from step.hyps(2) show ?case
  proof (cases rule: session_step.cases)
    case (checked k claims' j u)
    show ?thesis
    proof (cases "k = m")
      case True
      note passed = refresh_check_passed [OF checked(5)]
      from presents_same [OF laws(2) assms(10) passed(1)] cookie True have "j = i" by simp
      with passed(2) not_good remainingLife_ends show ?thesis by (simp add: laws(3))
    qed (use step.IH early checked in auto)
  next
    case (refused k out)
    then show ?thesis
      using step.IH early stage_refused(1) [OF laws(1) _ refused(5)] laws(4) by (cases "k = m") auto
  next
    case (logged_out k out)
    then show ?thesis using step.IH early assms(12) by (cases "k = m") auto
  qed (use step.IH early in \<open>auto split: if_splits\<close>)
qed (use assms(11) in simp)

lemma refresh_granted_once:
  assumes laws: "encodes_errors lb" "jwt_laws (lb_jwt lb)" "ah_sessions h = ops" "\<forall>k. unsent (sq_rw (reqs k))"
    and run: "session_steps lb h now_of environment skew reqs (w0, \<lambda>_. Arrived) (w, ph)"
      "session_step lb h now_of environment skew reqs (w, ph) (w1, ph1)"
      "session_steps lb h now_of environment skew reqs (w1, ph1) (w2, ph2)"
    and granted: "\<forall>rw. ph n \<noteq> Answered rw" "ph1 n = Answered rw" "response_status rw = Some 200" "\<not> sq_logout (reqs n)"
    and pres: "presents lb h (sq_request (reqs n)) (dr_parse (sq_draws (reqs n))) claims i"
    and tok: "only_token lb h reqs claims i"
    and early: "now_of (aw_sessions w2) + millisecond <
      now_of (aw_sessions w) + remainingLife (now_of (aw_sessions w) + skew) claims"
    and later: "ph1 m = Arrived" "\<not> sq_logout (reqs m)"
      "request_cookie (sq_request (reqs m)) RefreshCookieName = request_cookie (sq_request (reqs n)) RefreshCookieName"
    and answered: "ph2 m = Answered rw'"
  shows "response_status rw' \<noteq> Some 200"
proof -
  have "now_of (aw_sessions w0) \<le> now_of (aw_sessions w0)" by simp
  from steps_evolve [OF run(1) laws(3) phases_ok_arrived tok this] have ok: "phases_ok lb h reqs ph" by blast
  have un: "unsent (sq_rw (reqs k))" for k using laws(4) by blast
  from run(2) granted
  have "so_Revoke ops i (remainingLife (now_of (aw_sessions w) + skew) claims) (aw_sessions w) = (None, aw_sessions w1)"
  proof (cases rule: session_step.cases)
    case (revoked k claims' j v out)
    let ?d = "at_clock (now_of (aw_sessions w) + skew) (reqs k)"
    have "k = n" using revoked(2) granted(1,2) by (auto split: if_splits)
    with presents_same [OF laws(2) pres phases_okD(2) [OF ok revoked(3)]] have same: "claims' = claims" "j = i" by simp_all
    have out: "status_of (refresh_revoke lb h ?d (sq_request (reqs k)) claims i v w (sq_rw (reqs k))) = Some 200"
      and w1: "w1 = final_world (refresh_revoke lb h ?d (sq_request (reqs k)) claims i v w (sq_rw (reqs k)))"
      using revoked granted(2,3) \<open>k = n\<close> same by auto
    show ?thesis
      using refresh_revoke_granted [OF laws(1) un out]
        refresh_revoke_sessions [of lb h ?d "sq_request (reqs k)" claims i v w "sq_rw (reqs k)"]
      by (simp add: laws(3) prod_eq_iff flip: w1)
  next
    case (refused k out)
    with granted stage_refused(1) [OF laws(1) un refused(5)] show ?thesis by (auto split: if_splits)
  next
    case (not_found k claims' j u out)
    with granted stage_refused(2) [OF laws(1) un not_found(4)] show ?thesis by (auto split: if_splits)
  qed (auto split: if_splits)
  from arrived_not_granted [OF laws this run(3) phases_ok_step [OF run(2) ok] tok early pres later] answered
  show ?thesis by auto
qed

end

end
