(* ===== verification/Migrate_Interleaved.thy ===== *)
theory Migrate_Interleaved
  imports DB_Migrate
begin

text \<open>
  Several backends that start at once and migrate the same database. \<open>Migrate\<close> of
  \<open>internal/db/migrate.go\<close> is cut into its statements: \<open>migrate_next\<close> is the next one of an instance,
  from where the instance is, and \<open>migrating_step\<close> lets any of them move. The advisory lock belongs
  to a session of the database: an instance that finds it taken waits, and when a process dies, or loses
  its session and goes on without it, the server ends the session and frees the lock.
\<close>

subsection \<open>One instance, statement by statement\<close>

datatype mphase =
    MStarting
  | MWaiting "Migration list"
  | MLocked "Migration list"
  | MReading "Migration list"
  | MLooping "gostring \<Rightarrow> gostring option" "Migration list" "AppliedMigration list"
  | MUnlocking "(migrate_error, AppliedMigration list) result"
  | MDone "(migrate_error, AppliedMigration list) result"
  | MKilled

text \<open>What an instance brings: its files, and what its statements meet.\<close>

record 'd migrator =
  mr_fs :: fsys
  mr_env :: "'d run_env"

fun migrate_next ::
  "(gostring \<Rightarrow> gostring) \<Rightarrow> 'd migrator \<Rightarrow> mphase \<Rightarrow> 'd database \<Rightarrow> (mphase \<times> 'd database) option" where
  "migrate_next sha mr MStarting db =
     (case loadMigrations sha (mr_fs mr) of
        Inl e \<Rightarrow> Some (MDone (Inl e), db)
      | Inr available \<Rightarrow>
          (case re_fault (mr_env mr) SAcquire of
             Some e \<Rightarrow> Some (MDone (Inl (AcquiringConnection e)), db)
           | None \<Rightarrow> Some (MWaiting available, db)))"
| "migrate_next sha mr (MWaiting available) db =
     (case re_fault (mr_env mr) SLock of
        Some e \<Rightarrow> Some (MDone (Inl (AcquiringLock e)), db)
      | None \<Rightarrow> if db_locked db then None else Some (MLocked available, db\<lparr>db_locked := True\<rparr>))"
| "migrate_next sha mr (MLocked available) db =
     (case ensureMigrationsTable (mr_env mr) db of
        (Some e, db') \<Rightarrow> Some (MUnlocking (Inl e), db')
      | (None, db') \<Rightarrow> Some (MReading available, db'))"
| "migrate_next sha mr (MReading available) db =
     (case appliedChecksums (mr_env mr) db of
        Inl e \<Rightarrow> Some (MUnlocking (Inl e), db)
      | Inr recorded \<Rightarrow> Some (MLooping recorded available [], db))"
| "migrate_next sha mr (MLooping recorded [] applied) db = Some (MUnlocking (Inr applied), db)"
| "migrate_next sha mr (MLooping recorded (m # ms) applied) db =
     (case recorded (mig_Version m) of
        Some checksum \<Rightarrow>
          if checksum \<noteq> mig_Checksum m then Some (MUnlocking (Inl (ErrChecksumMismatch (mig_Filename m))), db)
          else Some (MLooping recorded ms applied, db)
      | None \<Rightarrow>
          (case applyMigration (mr_env mr) m db of
             (Inl e, db') \<Rightarrow> Some (MUnlocking (Inl e), db')
           | (Inr took, db') \<Rightarrow>
               Some (MLooping recorded ms
                 (applied @ [\<lparr>am_Version = mig_Version m, am_Filename = mig_Filename m, am_Duration = took\<rparr>]), db')))"
| "migrate_next sha mr (MUnlocking res) db =
     Some (MDone res, if re_fault (mr_env mr) SUnlock = None then db\<lparr>db_locked := False\<rparr> else db)"
| "migrate_next sha mr (MDone res) db = None"
| "migrate_next sha mr MKilled db = None"

fun holds_lock :: "mphase \<Rightarrow> bool" where
  "holds_lock (MLocked _) = True"
| "holds_lock (MReading _) = True"
| "holds_lock (MLooping _ _ _) = True"
| "holds_lock (MUnlocking _) = True"
| "holds_lock _ = False"

text \<open>
  What an instance that has lost its session still does. All its statements go through the one
  connection that \<open>Migrate\<close> took from the pool, so each of them fails, the unlocking one too; files that
  are recorded are passed over without a statement.
\<close>

fun loop_severed ::
  "gostring \<Rightarrow> (gostring \<Rightarrow> gostring option) \<Rightarrow> Migration list \<Rightarrow> AppliedMigration list
    \<Rightarrow> (migrate_error, AppliedMigration list) result" where
  "loop_severed e recorded [] applied = Inr applied"
| "loop_severed e recorded (m # ms) applied =
     (case recorded (mig_Version m) of
        Some checksum \<Rightarrow>
          if checksum \<noteq> mig_Checksum m then Inl (ErrChecksumMismatch (mig_Filename m))
          else loop_severed e recorded ms applied
      | None \<Rightarrow> Inl (StartingTransaction (mig_Filename m) e))"

fun severed_result :: "gostring \<Rightarrow> mphase \<Rightarrow> (migrate_error, AppliedMigration list) result option" where
  "severed_result e (MWaiting available) = Some (Inl (AcquiringLock e))"
| "severed_result e (MLocked available) = Some (Inl (CreatingTable e))"
| "severed_result e (MReading available) = Some (Inl (ReadingApplied e))"
| "severed_result e (MLooping recorded ms applied) = Some (loop_severed e recorded ms applied)"
| "severed_result e (MUnlocking res) = Some res"
| "severed_result e _ = None"

text \<open>
  The instances together. A killed one leaves what it has committed; the server frees the lock of
  a session that has ended, also when the statement that should have freed it failed.
\<close>

type_synonym 'd migrating = "'d database \<times> (nat \<Rightarrow> mphase)"

inductive migrating_step ::
  "(gostring \<Rightarrow> gostring) \<Rightarrow> (nat \<Rightarrow> 'd migrator) \<Rightarrow> 'd migrating \<Rightarrow> 'd migrating \<Rightarrow> bool"
  for sha mrs where
  moved: "migrate_next sha (mrs n) (ph n) db = Some (p, db') \<Longrightarrow>
    migrating_step sha mrs (db, ph) (db', ph(n := p))"
| killed: "db' = (if holds_lock (ph n) then db\<lparr>db_locked := False\<rparr> else db) \<Longrightarrow>
    migrating_step sha mrs (db, ph) (db', ph(n := MKilled))"
| severed: "severed_result e (ph n) = Some res \<Longrightarrow>
    db' = (if holds_lock (ph n) then db\<lparr>db_locked := False\<rparr> else db) \<Longrightarrow>
    migrating_step sha mrs (db, ph) (db', ph(n := MDone res))"
| reaped: "\<forall>n. \<not> holds_lock (ph n) \<Longrightarrow>
    migrating_step sha mrs (db, ph) (db\<lparr>db_locked := False\<rparr>, ph)"

abbreviation migrating_steps ::
  "(gostring \<Rightarrow> gostring) \<Rightarrow> (nat \<Rightarrow> 'd migrator) \<Rightarrow> 'd migrating \<Rightarrow> 'd migrating \<Rightarrow> bool" where
  "migrating_steps sha mrs \<equiv> (migrating_step sha mrs)\<^sup>*\<^sup>*"

subsection \<open>An instance that nobody interrupts\<close>

text \<open>Alone, the statements in a row are \<open>Migrate\<close>.\<close>

lemma moved_once:
  assumes "migrate_next sha (mrs n) (ph n) db = Some (p, db')"
  shows "migrating_steps sha mrs (db, ph) (db', ph(n := p))"
  using assms by (intro r_into_rtranclp migrating_step.moved)

lemma moved_steps:
  assumes "migrate_next sha (mrs n) (ph n) db = Some (p, db')"
    and "migrating_steps sha mrs (db', ph(n := p)) s"
  shows "migrating_steps sha mrs (db, ph) s"
  using moved_once [of sha mrs n ph db p db', OF assms(1)] assms(2) by (rule rtranclp_trans)

lemma loop_steps:
  "ph n = MLooping recorded ms applied \<Longrightarrow> migrate_loop (mr_env (mrs n)) recorded ms applied db = (res, db') \<Longrightarrow>
     migrating_steps sha mrs (db, ph) (db', ph(n := MUnlocking res))"
proof (induction ms arbitrary: applied db ph)
  case Nil
  then have "migrate_next sha (mrs n) (ph n) db = Some (MUnlocking res, db')" by simp
  then show ?case by (rule moved_once)
next
  case (Cons m ms)
  have next_loop: "migrating_steps sha mrs (db, ph) (db', ph(n := MUnlocking res))"
    if "migrate_next sha (mrs n) (ph n) db = Some (MLooping recorded ms applied', db1)"
      and "migrate_loop (mr_env (mrs n)) recorded ms applied' db1 = (res, db')" for applied' db1
  proof (rule moved_steps [of sha mrs n ph db, OF that(1)])
    have "migrating_steps sha mrs (db1, ph(n := MLooping recorded ms applied'))
        (db', ph(n := MLooping recorded ms applied', n := MUnlocking res))"
      by (rule Cons.IH [OF _ that(2)]) (rule fun_upd_same)
    then show "migrating_steps sha mrs (db1, ph(n := MLooping recorded ms applied')) (db', ph(n := MUnlocking res))"
      by (simp only: fun_upd_upd)
  qed
  show ?case
  proof (cases "recorded (mig_Version m)")
    case (Some checksum)
    show ?thesis
    proof (cases "checksum = mig_Checksum m")
      case True
      with Some Cons.prems show ?thesis by (intro next_loop [of applied db]) simp_all
    next
      case False
      with Some Cons.prems have "migrate_next sha (mrs n) (ph n) db = Some (MUnlocking res, db')" by simp
      then show ?thesis by (rule moved_once)
    qed
  next
    case None
    obtain r db1 where a: "applyMigration (mr_env (mrs n)) m db = (r, db1)" by fastforce
    show ?thesis
    proof (cases r)
      case (Inl e)
      with a None Cons.prems have "migrate_next sha (mrs n) (ph n) db = Some (MUnlocking res, db')" by simp
      then show ?thesis by (rule moved_once)
    next
      case (Inr took)
      with a None Cons.prems show ?thesis by (intro next_loop) simp_all
    qed
  qed
qed

lemma locked_steps:
  assumes "ph n = MLocked ms" and "migrate_locked (mr_env (mrs n)) ms db = (res, db')"
  shows "migrating_steps sha mrs (db, ph) (db', ph(n := MUnlocking res))"
proof -
  obtain e db1 where ens: "ensureMigrationsTable (mr_env (mrs n)) db = (e, db1)" by fastforce
  show ?thesis
  proof (cases e)
    case (Some x)
    with assms ens show ?thesis using moved_once [of sha mrs n ph db] by (simp add: migrate_locked_def)
  next
    case None
    then have first: "migrate_next sha (mrs n) (ph n) db = Some (MReading ms, db1)" using assms(1) ens by simp
    have "migrating_steps sha mrs (db1, ph(n := MReading ms)) (db', ph(n := MUnlocking res))"
    proof (cases "appliedChecksums (mr_env (mrs n)) db1")
      case (Inl x)
      with None ens assms(2) show ?thesis
        using moved_once [of sha mrs n "ph(n := MReading ms)" db1] by (simp add: migrate_locked_def)
    next
      case (Inr recorded)
      with None ens assms(2) show ?thesis
        using moved_steps [of sha mrs n "ph(n := MReading ms)" db1]
          loop_steps [of "ph(n := MLooping recorded ms [])" n recorded ms "[]" mrs db1 res db' sha]
        by (simp add: migrate_locked_def)
    qed
    with first show ?thesis by (rule moved_steps)
  qed
qed

lemma Migrate_steps:
  assumes "ph n = MStarting" and "\<not> db_locked db" and "Migrate sha (mr_env (mrs n)) (mr_fs (mrs n)) db = (res, db')"
  shows "migrating_steps sha mrs (db, ph) (db', ph(n := MDone res))"
proof (cases "\<exists>ms. loadMigrations sha (mr_fs (mrs n)) = Inr ms \<and> re_fault (mr_env (mrs n)) SAcquire = None")
  case False
  then show ?thesis
    using assms moved_once [of sha mrs n ph db] by (auto simp: Migrate_def split: sum.splits option.splits)
next
  case True
  then obtain ms where ms: "loadMigrations sha (mr_fs (mrs n)) = Inr ms"
    and acquired: "re_fault (mr_env (mrs n)) SAcquire = None" by blast
  let ?env = "mr_env (mrs n)" and ?db = "db\<lparr>db_locked := True\<rparr>" and ?wait = "ph(n := MWaiting ms)"
  have wait: "migrate_next sha (mrs n) (ph n) db = Some (MWaiting ms, db)"
    using ms assms(1) acquired by simp
  have "migrating_steps sha mrs (db, ?wait) (db', ph(n := MDone res))"
  proof (cases "re_fault ?env SLock")
    case (Some e)
    with ms acquired assms(3) show ?thesis
      using moved_once [of sha mrs n ?wait db] by (simp add: Migrate_def)
  next
    case None
    obtain r db1 where body: "migrate_locked ?env ms ?db = (r, db1)" by fastforce
    have lock: "migrate_next sha (mrs n) (?wait n) db = Some (MLocked ms, ?db)" using None assms(2) by simp
    have "migrating_steps sha mrs (?db, ph(n := MLocked ms)) (db1, ph(n := MUnlocking r))"
      using locked_steps [of "ph(n := MLocked ms)" n ms mrs ?db r db1 sha] body by simp
    also have "migrating_steps sha mrs (db1, ph(n := MUnlocking r)) (db', ph(n := MDone res))"
      using moved_once [of sha mrs n "ph(n := MUnlocking r)" db1] ms acquired None body assms(3)
      by (simp add: Migrate_def)
    finally have "migrating_steps sha mrs (?db, ?wait(n := MLocked ms)) (db', ph(n := MDone res))" by simp
    with lock show ?thesis by (rule moved_steps)
  qed
  with wait show ?thesis by (rule moved_steps)
qed

subsection \<open>What holds throughout\<close>

definition files_recorded :: "'d database \<Rightarrow> Migration list \<Rightarrow> bool" where
  "files_recorded db ms \<longleftrightarrow> (\<forall>m \<in> set ms. recorded_in db (mig_Version m) = Some (mig_Checksum m))"

definition versions_in :: "'d database \<Rightarrow> gostring set" where
  "versions_in db = row_version ` set (table_rows db)"

lemma recorded_in_dom: "recorded_in db v = None \<longleftrightarrow> v \<notin> versions_in db"
  by (auto simp: recorded_in_map_of versions_in_def map_of_eq_None_iff image_image)

text \<open>
  In the loop, the files that are behind are recorded, and for all others what was read at the start
  is still what the table says.
\<close>

fun phase_ok :: "(gostring \<Rightarrow> gostring) \<Rightarrow> fsys \<Rightarrow> 'd database \<Rightarrow> mphase \<Rightarrow> bool" where
  "phase_ok sha fs db (MWaiting ms) = (loadMigrations sha fs = Inr ms)"
| "phase_ok sha fs db (MLocked ms) = (loadMigrations sha fs = Inr ms)"
| "phase_ok sha fs db (MReading ms) = (loadMigrations sha fs = Inr ms)"
| "phase_ok sha fs db (MLooping recorded ms applied) =
     (\<exists>behind. loadMigrations sha fs = Inr (behind @ ms) \<and> files_recorded db behind
        \<and> (\<forall>v. v \<notin> mig_Version ` set behind \<longrightarrow> recorded v = recorded_in db v))"
| "phase_ok sha fs db (MUnlocking (Inr applied)) = (\<exists>ms. loadMigrations sha fs = Inr ms \<and> files_recorded db ms)"
| "phase_ok sha fs db (MDone (Inr applied)) = (\<exists>ms. loadMigrations sha fs = Inr ms \<and> files_recorded db ms)"
| "phase_ok sha fs db _ = True"

fun applied_versions :: "mphase \<Rightarrow> gostring set" where
  "applied_versions (MLooping _ _ applied) = am_Version ` set applied"
| "applied_versions (MUnlocking (Inr applied)) = am_Version ` set applied"
| "applied_versions (MDone (Inr applied)) = am_Version ` set applied"
| "applied_versions _ = {}"

lemma MDone_as_unlocking [simp]:
  "applied_versions (MDone res) = applied_versions (MUnlocking res)"
  "phase_ok sha fs db (MDone res) = phase_ok sha fs db (MUnlocking res)"
  by (cases res; simp)+

text \<open>A statement of an instance that does not hold the lock leaves the tables alone.\<close>

definition grows :: "'d database \<Rightarrow> 'd database \<Rightarrow> bool" where
  "grows db db' \<longleftrightarrow> (\<forall>v c. recorded_in db v = Some c \<longrightarrow> recorded_in db' v = Some c)"

lemma grows_refl [simp]: "grows db db"
  by (simp add: grows_def)

lemma files_recorded_grows: "files_recorded db ms \<Longrightarrow> grows db db' \<Longrightarrow> files_recorded db' ms"
  by (simp add: files_recorded_def grows_def)

lemma versions_grow: "grows db db' \<Longrightarrow> versions_in db \<subseteq> versions_in db'"
  unfolding grows_def using recorded_in_dom [of db] recorded_in_dom [of db'] by (metis option.exhaust subsetI)

lemma same_tables [simp]:
  "recorded_in (db\<lparr>db_locked := b\<rparr>) = recorded_in db"
  "versions_in (db\<lparr>db_locked := b\<rparr>) = versions_in db"
  "files_recorded (db\<lparr>db_locked := b\<rparr>) ms = files_recorded db ms"
  "recorded_in (db\<lparr>db_rows := Some (table_rows db)\<rparr>) = recorded_in db"
  by (simp_all add: recorded_in_def versions_in_def files_recorded_def table_rows_def fun_eq_iff)

lemma phase_ok_grows:
  "phase_ok sha fs db p \<Longrightarrow> grows db db' \<Longrightarrow> \<not> holds_lock p \<Longrightarrow> phase_ok sha fs db' p"
  by (cases "(sha, fs, db, p)" rule: phase_ok.cases) (auto intro: files_recorded_grows)

lemma phase_ok_unlock [simp]: "phase_ok sha fs (db\<lparr>db_locked := b\<rparr>) p = phase_ok sha fs db p"
  by (cases "(sha, fs, db, p)" rule: phase_ok.cases) simp_all

lemma applyMigration_grows:
  assumes "applyMigration env m db = (res, db')"
  shows "grows db db'"
    and "res = Inr took \<Longrightarrow> mig_Version m \<notin> versions_in db
      \<and> recorded_in db' = (recorded_in db)(mig_Version m \<mapsto> mig_Checksum m)"
    and "db_locked db' = db_locked db"
proof -
  have "grows db db' \<and> db_locked db' = db_locked db \<and> (res = Inr took \<longrightarrow> mig_Version m \<notin> versions_in db
      \<and> recorded_in db' = (recorded_in db)(mig_Version m \<mapsto> mig_Checksum m))"
  proof (cases rule: applyMigration_cases [of env m db])
    case (kept e)
    with assms show ?thesis by auto
  next
    case (ran r schema)
    with assms have db': "db' = db\<lparr>db_schema := schema, db_rows := Some (table_rows db @ [row_of m])\<rparr>" by simp
    then have "recorded_in db' = (recorded_in db)(mig_Version m \<mapsto> mig_Checksum m)"
      by (intro recorded_append) (simp add: table_rows_def)
    moreover have "mig_Version m \<notin> versions_in db" using ran(3) by (simp add: versions_in_def)
    ultimately show ?thesis
      using recorded_in_dom [of db "mig_Version m"] by (auto simp: grows_def db')
  qed
  then show "grows db db'" "db_locked db' = db_locked db"
    "res = Inr took \<Longrightarrow> mig_Version m \<notin> versions_in db
      \<and> recorded_in db' = (recorded_in db)(mig_Version m \<mapsto> mig_Checksum m)" by blast+
qed

text \<open>One statement: only that of a loop with a file to run touches the tables.\<close>

definition untouched :: "'d database \<Rightarrow> 'd database \<Rightarrow> bool" where
  "untouched db db' \<longleftrightarrow> table_rows db' = table_rows db \<and> db_schema db' = db_schema db"

lemma untouched_refl [simp]:
  "untouched db db" "untouched db (db\<lparr>db_locked := b\<rparr>)" "untouched db (db\<lparr>db_rows := Some (table_rows db)\<rparr>)"
  by (simp_all add: untouched_def table_rows_def)

lemma untouchedD:
  assumes "untouched db db'"
  shows "recorded_in db' = recorded_in db" and "versions_in db' = versions_in db" and "grows db db'"
    and "files_recorded db' ms = files_recorded db ms" and "consistent exec d0 db' = consistent exec d0 db"
  using assms by (simp_all add: untouched_def recorded_in_def versions_in_def grows_def files_recorded_def consistent_def)

lemma migrate_next_cases:
  assumes "migrate_next sha mr p db = Some (p', db')"
  obtains (untouched) "untouched db db'" "\<forall>r m ms a. p = MLooping r (m # ms) a \<longrightarrow> r (mig_Version m) \<noteq> None"
  | (ran) recorded m ms applied res where "p = MLooping recorded (m # ms) applied" "recorded (mig_Version m) = None"
      "applyMigration (mr_env mr) m db = (res, db')"
      "p' = (case res of Inl e \<Rightarrow> MUnlocking (Inl e)
        | Inr took \<Rightarrow> MLooping recorded ms
            (applied @ [\<lparr>am_Version = mig_Version m, am_Filename = mig_Filename m, am_Duration = took\<rparr>]))"
proof (cases "\<exists>recorded m ms applied. p = MLooping recorded (m # ms) applied \<and> recorded (mig_Version m) = None")
  case True
  then obtain recorded m ms applied where p: "p = MLooping recorded (m # ms) applied"
    and new: "recorded (mig_Version m) = None" by blast
  obtain res db1 where a: "applyMigration (mr_env mr) m db = (res, db1)" by fastforce
  from assms show thesis
    by (intro ran [OF p new, of res]) (auto simp: p new a split: sum.splits)
next
  case False
  have "untouched db db'"
    using assms False
    by (cases "(sha, mr, p, db)" rule: migrate_next.cases)
      (auto simp: ensureMigrationsTable_def split: sum.splits option.splits prod.splits if_splits)
  then show thesis by (rule untouched) (use False in auto)
qed

lemma migrate_next_tables:
  assumes "migrate_next sha mr p db = Some (p', db')"
  shows "grows db db'" and "\<not> holds_lock p \<Longrightarrow> recorded_in db' = recorded_in db"
    and "consistent (re_exec (mr_env mr)) d0 db \<Longrightarrow> consistent (re_exec (mr_env mr)) d0 db'"
proof -
  show "grows db db'" "\<not> holds_lock p \<Longrightarrow> recorded_in db' = recorded_in db"
    using assms by (cases rule: migrate_next_cases; simp add: untouchedD applyMigration_grows(1))+
  assume c: "consistent (re_exec (mr_env mr)) d0 db"
  from assms show "consistent (re_exec (mr_env mr)) d0 db'"
  proof (cases rule: migrate_next_cases)
    case (ran recorded m ms applied res)
    with applyMigration_consistent [OF c, of m] show ?thesis by simp
  qed (simp add: untouchedD c)
qed

lemma migrate_next_lock:
  assumes "migrate_next sha mr p db = Some (p', db')"
  shows "holds_lock p' \<Longrightarrow> (db_locked db \<or> \<not> holds_lock p) \<Longrightarrow> db_locked db'"
    and "holds_lock p' \<Longrightarrow> holds_lock p \<or> \<not> db_locked db"
    and "\<not> holds_lock p \<Longrightarrow> \<not> holds_lock p' \<Longrightarrow> db_locked db' = db_locked db"
  using assms
  by (cases rule: migrate_next_cases;
      cases "(sha, mr, p, db)" rule: migrate_next.cases;
      auto simp: ensureMigrationsTable_def applyMigration_grows(3)
        split: sum.splits option.splits prod.splits if_splits)+

text \<open>What the instance that moves knows afterwards.\<close>

lemma loop_next_ok:
  assumes ok: "phase_ok sha fs db (MLooping recorded (m # ms) applied)" and new: "recorded (mig_Version m) = None"
    and app: "applyMigration env m db = (Inr took, db')"
  shows "phase_ok sha fs db' (MLooping recorded ms applied')"
proof -
  from ok obtain behind where load: "loadMigrations sha fs = Inr (behind @ m # ms)"
    and rec: "files_recorded db behind" "\<forall>v. v \<notin> mig_Version ` set behind \<longrightarrow> recorded v = recorded_in db v" by auto
  note grown = applyMigration_grows(1) [OF app] applyMigration_grows(2) [OF app refl]
  have "files_recorded db' (behind @ [m])"
    using files_recorded_grows [OF rec(1) grown(1)] grown(2) by (auto simp: files_recorded_def)
  moreover have "\<forall>v. v \<notin> mig_Version ` set (behind @ [m]) \<longrightarrow> recorded v = recorded_in db' v"
    using rec(2) grown(2) by auto
  ultimately show ?thesis using load by (intro phase_ok.simps [THEN iffD2] exI [of _ "behind @ [m]"]) simp
qed

lemma loop_skip_ok:
  assumes ok: "phase_ok sha fs db (MLooping recorded (m # ms) applied)" and old: "recorded (mig_Version m) = Some (mig_Checksum m)"
  shows "phase_ok sha fs db (MLooping recorded ms applied')"
proof -
  from ok obtain behind where load: "loadMigrations sha fs = Inr (behind @ m # ms)"
    and rec: "files_recorded db behind" "\<forall>v. v \<notin> mig_Version ` set behind \<longrightarrow> recorded v = recorded_in db v" by auto
  have "distinct (map mig_Version (behind @ m # ms))"
    using load_loop_facts(3) [OF load [unfolded loadMigrations_def]] .
  then have "recorded_in db (mig_Version m) = Some (mig_Checksum m)" using rec(2) old by auto
  with rec have "files_recorded db (behind @ [m])" "\<forall>v. v \<notin> mig_Version ` set (behind @ [m]) \<longrightarrow> recorded v = recorded_in db v"
    by (auto simp: files_recorded_def)
  then show ?thesis using load by (intro phase_ok.simps [THEN iffD2] exI [of _ "behind @ [m]"]) simp
qed

lemma migrate_next_ok:
  assumes next_step: "migrate_next sha mr p db = Some (p', db')" and ok: "phase_ok sha (mr_fs mr) db p"
  shows "phase_ok sha (mr_fs mr) db' p'"
proof (cases "\<exists>recorded m ms applied. p = MLooping recorded (m # ms) applied")
  case True
  then obtain recorded m ms applied where p: "p = MLooping recorded (m # ms) applied" by blast
  obtain res db1 where a: "applyMigration (mr_env mr) m db = (res, db1)" by fastforce
  show ?thesis
    using next_step ok loop_next_ok [of sha "mr_fs mr" db recorded m ms applied "mr_env mr"]
      loop_skip_ok [of sha "mr_fs mr" db recorded m ms applied]
    unfolding p by (cases "recorded (mig_Version m)"; cases res) (auto simp: a split: if_splits)
next
  case False
  with next_step ok show ?thesis
    by (cases "(sha, mr, p, db)" rule: migrate_next.cases)
      (auto simp: ensureMigrationsTable_def files_recorded_def dest: appliedChecksums_eq
        split: sum.splits option.splits prod.splits if_splits)
qed

lemma migrate_next_applied:
  assumes "migrate_next sha mr p db = Some (p', db')" and "applied_versions p \<subseteq> versions_in db"
  shows "applied_versions p' \<subseteq> versions_in db'"
    and "applied_versions p' \<subseteq> applied_versions p \<union> - versions_in db"
proof -
  have "applied_versions p' \<subseteq> versions_in db' \<and> applied_versions p' \<subseteq> applied_versions p \<union> - versions_in db"
    using assms(1)
  proof (cases rule: migrate_next_cases)
    case untouched
    have "applied_versions p' \<subseteq> applied_versions p"
      using assms(1) untouched(2)
      by (cases "(sha, mr, p, db)" rule: migrate_next.cases)
        (auto split: sum.splits option.splits prod.splits if_splits)
    then show ?thesis using assms(2) untouchedD(2) [OF untouched(1)] by auto
  next
    case (ran recorded m ms applied res)
    show ?thesis
    proof (cases res)
      case (Inl e)
      then show ?thesis by (simp add: ran(4))
    next
      case (Inr took)
      note grown = applyMigration_grows(1) [OF ran(3)] applyMigration_grows(2) [OF ran(3) Inr]
      have "mig_Version m \<in> versions_in db'" using grown(2) recorded_in_dom [of db' "mig_Version m"] by auto
      then show ?thesis
        using assms(2) versions_grow [OF grown(1)] grown(2) by (auto simp: ran(1,4) Inr)
    qed
  qed
  then show "applied_versions p' \<subseteq> versions_in db'"
    "applied_versions p' \<subseteq> applied_versions p \<union> - versions_in db" by blast+
qed

text \<open>The invariant of all instances together.\<close>

definition migrating_ok ::
  "(gostring \<Rightarrow> gostring) \<Rightarrow> (nat \<Rightarrow> 'd migrator) \<Rightarrow> (gostring \<Rightarrow> 'd \<Rightarrow> (gostring, 'd) result) \<Rightarrow> 'd \<Rightarrow> 'd migrating \<Rightarrow> bool" where
  "migrating_ok sha mrs exec d0 s \<longleftrightarrow> (case s of (db, ph) \<Rightarrow>
     consistent exec d0 db
     \<and> (\<forall>n. holds_lock (ph n) \<longrightarrow> db_locked db \<and> (\<forall>k. holds_lock (ph k) \<longrightarrow> k = n))
     \<and> (\<forall>n. phase_ok sha (mr_fs (mrs n)) db (ph n) \<and> applied_versions (ph n) \<subseteq> versions_in db)
     \<and> (\<forall>n k. n \<noteq> k \<longrightarrow> applied_versions (ph n) \<inter> applied_versions (ph k) = {}))"

lemma migrating_okI:
  assumes "consistent exec d0 db"
    and "\<And>n. holds_lock (ph n) \<Longrightarrow> db_locked db" "\<And>n k. holds_lock (ph n) \<Longrightarrow> holds_lock (ph k) \<Longrightarrow> k = n"
    and "\<And>n. phase_ok sha (mr_fs (mrs n)) db (ph n)" "\<And>n. applied_versions (ph n) \<subseteq> versions_in db"
    and "\<And>n k. n \<noteq> k \<Longrightarrow> applied_versions (ph n) \<inter> applied_versions (ph k) = {}"
  shows "migrating_ok sha mrs exec d0 (db, ph)"
  unfolding migrating_ok_def prod.case using assms by (intro conjI allI impI)

lemma migrating_okD:
  assumes "migrating_ok sha mrs exec d0 (db, ph)"
  shows "consistent exec d0 db"
    and "holds_lock (ph n) \<Longrightarrow> db_locked db" and "holds_lock (ph n) \<Longrightarrow> holds_lock (ph k) \<Longrightarrow> k = n"
    and "phase_ok sha (mr_fs (mrs n)) db (ph n)" and "applied_versions (ph n) \<subseteq> versions_in db"
    and "n \<noteq> k \<Longrightarrow> applied_versions (ph n) \<inter> applied_versions (ph k) = {}"
  using assms unfolding migrating_ok_def prod.case by blast+

lemma migrating_ok_moved:
  assumes inv: "migrating_ok sha mrs exec d0 (db, ph)" and envs: "\<forall>n. re_exec (mr_env (mrs n)) = exec"
    and next_step: "migrate_next sha (mrs n) (ph n) db = Some (p, db')"
  shows "migrating_ok sha mrs exec d0 (db', ph(n := p))"
proof -
  note inv = migrating_okD [OF inv]
  note grows = migrate_next_tables(1) [OF next_step]
  note applied = migrate_next_applied [OF next_step inv(5)]
  have others: "phase_ok sha (mr_fs (mrs k)) db' (ph k)" if "k \<noteq> n" for k
  proof (cases "holds_lock (ph k)")
    case True
    with that inv(3) have "\<not> holds_lock (ph n)" by blast
    from migrate_next_cases [OF next_step] this have "untouched db db'" by (metis holds_lock.simps(3))
    note same = untouchedD [OF this]
    show ?thesis
      using inv(4) [of k] by (cases "(sha, mr_fs (mrs k), db, ph k)" rule: phase_ok.cases) (simp_all add: same)
  next
    case False
    with phase_ok_grows [OF inv(4) grows] show ?thesis by blast
  qed
  have disj: "applied_versions p \<inter> applied_versions (ph k) = {}" if "k \<noteq> n" for k
    using applied(2) inv(6) [of n k] that inv(5) [of k] by blast
  note next_lock = migrate_next_lock [OF next_step]
  have kept: "db_locked db'" if "holds_lock p"
    using next_lock(1) [OF that] inv(2) [of n] by blast
  have alone: "\<not> holds_lock (ph k)" if "holds_lock p" "k \<noteq> n" for k
    using next_lock(2) [OF that(1)] inv(2) [of k] inv(3) [of n k] that(2) by blast
  have still: "db_locked db'" if "holds_lock (ph k)" "k \<noteq> n" for k
  proof -
    have "\<not> holds_lock (ph n)" "\<not> holds_lock p" using inv(3) [of k n] alone that by blast+
    with next_lock(3) inv(2) [OF that(1)] show ?thesis by simp
  qed
  show ?thesis
  proof (rule migrating_okI)
    show "consistent exec d0 db'" using migrate_next_tables(3) [OF next_step, of d0] envs inv(1) by simp
    show "db_locked db'" if "holds_lock ((ph(n := p)) j)" for j
      using that kept still by (cases "j = n") auto
    show "k = j" if "holds_lock ((ph(n := p)) j)" "holds_lock ((ph(n := p)) k)" for j k
      using that alone [of j] alone [of k] inv(3) [of j k] by (cases "j = n"; cases "k = n") simp_all
    show "phase_ok sha (mr_fs (mrs j)) db' ((ph(n := p)) j)" for j
      using others migrate_next_ok [OF next_step inv(4)] by (cases "j = n") auto
    show "applied_versions ((ph(n := p)) j) \<subseteq> versions_in db'" for j
      using applied(1) inv(5) [of j] versions_grow [OF grows] by (cases "j = n") auto
    show "applied_versions ((ph(n := p)) j) \<inter> applied_versions ((ph(n := p)) k) = {}" if "j \<noteq> k" for j k
      using disj [of j] disj [of k] inv(6) [OF that] that by (cases "j = n"; cases "k = n") (simp_all add: Int_commute)
  qed
qed

text \<open>An instance that is gone from the lock, killed or without its session, in whatever state \<open>p\<close> it ends.\<close>

lemma migrating_ok_gone:
  assumes inv: "migrating_ok sha mrs exec d0 (db, ph)" and gone: "\<not> holds_lock p"
    and ok: "phase_ok sha (mr_fs (mrs n)) db p" and fewer: "applied_versions p \<subseteq> applied_versions (ph n)"
  shows "migrating_ok sha mrs exec d0 (if holds_lock (ph n) then db\<lparr>db_locked := False\<rparr> else db, ph(n := p))"
proof -
  note inv = migrating_okD [OF inv]
  let ?db = "if holds_lock (ph n) then db\<lparr>db_locked := False\<rparr> else db"
  have locked: "holds_lock ((ph(n := p)) k) \<longleftrightarrow> k \<noteq> n \<and> holds_lock (ph k)" for k using gone by simp
  have versions: "applied_versions ((ph(n := p)) k) \<subseteq> applied_versions (ph k)" for k using fewer by simp
  show ?thesis
  proof (rule migrating_okI)
    show "consistent exec d0 ?db" using inv(1) by simp
    show "db_locked ?db" if "holds_lock ((ph(n := p)) j)" for j
      using that locked [of j] inv(2) [of j] inv(3) [of j n] by auto
    show "k = j" if "holds_lock ((ph(n := p)) j)" "holds_lock ((ph(n := p)) k)" for j k
      using that locked inv(3) [of j k] by blast
    show "phase_ok sha (mr_fs (mrs j)) ?db ((ph(n := p)) j)" for j
      using inv(4) [of j] ok by (cases "j = n") simp_all
    show "applied_versions ((ph(n := p)) j) \<subseteq> versions_in ?db" for j
      using versions [of j] inv(5) [of j] by (cases "holds_lock (ph n)") auto
    show "applied_versions ((ph(n := p)) j) \<inter> applied_versions ((ph(n := p)) k) = {}" if "j \<noteq> k" for j k
      using versions [of j] versions [of k] inv(6) [OF that] by blast
  qed
qed

lemma migrating_ok_killed:
  assumes "migrating_ok sha mrs exec d0 (db, ph)"
  shows "migrating_ok sha mrs exec d0 (if holds_lock (ph n) then db\<lparr>db_locked := False\<rparr> else db, ph(n := MKilled))"
  by (rule migrating_ok_gone [OF assms]) simp_all

text \<open>The files that are passed over at the end are recorded, so a success without the session is one.\<close>

lemma loop_severed_ok:
  "phase_ok sha fs db (MLooping recorded ms applied) \<Longrightarrow> phase_ok sha fs db (MDone (loop_severed e recorded ms applied))"
proof (induction ms)
  case (Cons m ms)
  show ?case
  proof (cases "recorded (mig_Version m) = Some (mig_Checksum m)")
    case True
    with Cons.IH [OF loop_skip_ok [OF Cons.prems True]] show ?thesis by simp
  next
    case False
    then show ?thesis by (cases "recorded (mig_Version m)") simp_all
  qed
qed auto

lemma loop_severed_applied: "loop_severed e recorded ms applied = Inr applied' \<Longrightarrow> applied' = applied"
  by (induction ms) (auto split: option.splits if_splits)

lemma severed_ok:
  assumes "severed_result e p = Some res" and "phase_ok sha fs db p"
  shows "phase_ok sha fs db (MDone res)" and "applied_versions (MDone res) \<subseteq> applied_versions p"
proof -
  have "phase_ok sha fs db (MDone res) \<and> applied_versions (MDone res) \<subseteq> applied_versions p"
  proof (cases p)
    case (MLooping recorded ms applied)
    with assms have res: "res = loop_severed e recorded ms applied" by simp
    with assms(2) have "phase_ok sha fs db (MDone res)" unfolding MLooping by (simp only: loop_severed_ok)
    moreover have "applied_versions (MDone res) \<subseteq> applied_versions p"
      using loop_severed_applied [of e recorded ms applied] by (cases res) (auto simp: MLooping res)
    ultimately show ?thesis by blast
  qed (use assms in auto)
  then show "phase_ok sha fs db (MDone res)" "applied_versions (MDone res) \<subseteq> applied_versions p" by blast+
qed

lemma migrating_ok_reaped:
  assumes "migrating_ok sha mrs exec d0 (db, ph)" and "\<forall>n. \<not> holds_lock (ph n)"
  shows "migrating_ok sha mrs exec d0 (db\<lparr>db_locked := False\<rparr>, ph)"
  by (rule migrating_okI) (use assms(2) migrating_okD [OF assms(1)] in simp_all)

lemma migrating_ok_step:
  assumes "migrating_step sha mrs s s'" and "migrating_ok sha mrs exec d0 s"
    and "\<forall>n. re_exec (mr_env (mrs n)) = exec"
  shows "migrating_ok sha mrs exec d0 s'"
  using assms(1)
proof (cases rule: migrating_step.cases)
  case (moved n ph db p db')
  show ?thesis
    unfolding moved(2) by (rule migrating_ok_moved [OF assms(2) [unfolded moved(1)] assms(3) moved(3)])
next
  case (killed db' ph n db)
  show ?thesis
    unfolding killed(2,3) by (rule migrating_ok_killed [OF assms(2) [unfolded killed(1)]])
next
  case (severed e ph n res db' db)
  note inv = assms(2) [unfolded severed(1)]
  show ?thesis
    unfolding severed(2,4)
    by (rule migrating_ok_gone [OF inv _ severed_ok [OF severed(3) migrating_okD(4) [OF inv]]]) simp
next
  case (reaped ph db)
  show ?thesis
    unfolding reaped(2) by (rule migrating_ok_reaped [OF assms(2) [unfolded reaped(1)] reaped(3)])
qed

lemma migrating_ok_start:
  "consistent exec d0 db \<Longrightarrow> migrating_ok sha mrs exec d0 (db, \<lambda>_. MStarting)"
  by (rule migrating_okI) simp_all

lemma migrating_ok_reached:
  assumes "migrating_steps sha mrs (db0, \<lambda>_. MStarting) s" and "consistent exec d0 db0"
    and "\<forall>n. re_exec (mr_env (mrs n)) = exec"
  shows "migrating_ok sha mrs exec d0 s"
  using assms(1)
  by (induction rule: rtranclp_induct) (rule migrating_ok_start [OF assms(2)], rule migrating_ok_step [OF _ _ assms(3)])

end
