(* ===== verification/Registration_Interleaved.thy ===== *)
theory Registration_Interleaved
  imports Repository_User
begin

text \<open>
  Registrations that overlap. \<open>CreateTeamWithOwner\<close> of \<open>internal/repository/user.go\<close> is a transaction
  of several statements; here it is cut into them. A statement sees what is committed and what its own
  transaction has written. Where a row would clash with one that another transaction has written and
  not committed yet, the server makes the statement wait for the end of that transaction.
\<close>

subsection \<open>One registration, statement by statement\<close>

text \<open>
  What a registration brings: its arguments, the ids that are drawn for its rows, the start of its
  transaction, and what its statements meet.
\<close>

record registration =
  rg_team :: gostring
  rg_user :: User
  rg_uuid :: "nat \<Rightarrow> uuid"
  rg_now :: time
  rg_fault :: "user_site \<Rightarrow> gostring option"
  rg_kept :: bool

datatype rphase =
    RStarting
  | RBegun
  | RTeam Team
  | RUser Team User
  | RDone "(store_error, Team \<times> User) result"
  | RKilled

text \<open>The tables as the transaction finds them, and with the team that it has inserted.\<close>

definition session_view :: "registration \<Rightarrow> user_db \<Rightarrow> user_db" where
  "session_view g db = db\<lparr>ud_uuid := rg_uuid g, ud_next := 0, ud_now := rg_now g, ud_fault := rg_fault g,
     ud_kept := rg_kept g\<rparr>"

definition team_view :: "registration \<Rightarrow> Team \<Rightarrow> user_db \<Rightarrow> user_db" where
  "team_view g t db = (session_view g db)\<lparr>ud_teams := ud_teams db @ [t], ud_next := 1\<rparr>"

definition user_statement :: "(nat \<Rightarrow> nat) \<Rightarrow> registration \<Rightarrow> Team \<Rightarrow> user_db \<Rightarrow> (sql_error, User \<times> user_db) result" where
  "user_statement ulower g t db =
     insertUser (team_ID t) (NormalizeEmail ulower (user_Email (rg_user g))) (user_PasswordHash (rg_user g))
       (TrimSpace (user_Name (rg_user g))) (team_view g t db)"

text \<open>The rows that a transaction has written and not committed.\<close>

fun written_teams :: "rphase \<Rightarrow> Team list" where
  "written_teams (RTeam t) = [t]"
| "written_teams (RUser t u) = [t]"
| "written_teams p = []"

fun written_users :: "rphase \<Rightarrow> User list" where
  "written_users (RUser t u) = [u]"
| "written_users p = []"

definition team_waits :: "Team \<Rightarrow> rphase list \<Rightarrow> bool" where
  "team_waits t others \<longleftrightarrow> team_ID t \<in> team_ID ` set (concat (map written_teams others))"

definition user_waits :: "user_db \<Rightarrow> User \<Rightarrow> rphase list \<Rightarrow> bool" where
  "user_waits db u others \<longleftrightarrow>
     (\<exists>v \<in> set (concat (map written_users others)).
        user_ID v = user_ID u \<or> ud_lower db (user_Email v) = ud_lower db (user_Email u))"

definition commit_rows :: "Team \<Rightarrow> User \<Rightarrow> user_db \<Rightarrow> user_db" where
  "commit_rows t u db = db\<lparr>ud_teams := ud_teams db @ [t], ud_users := ud_users db @ [u]\<rparr>"

fun register_next ::
  "(nat \<Rightarrow> nat) \<Rightarrow> registration \<Rightarrow> rphase list \<Rightarrow> rphase \<Rightarrow> user_db \<Rightarrow> (rphase \<times> user_db) option" where
  "register_next ulower g others RStarting db =
     (case rg_fault g AtBegin of
        Some e \<Rightarrow> Some (RDone (Inl (StoreFailure (''starting registration transaction: '' @ e))), db)
      | None \<Rightarrow> Some (RBegun, db))"
| "register_next ulower g others RBegun db =
     (case insertTeam (TrimSpace (rg_team g)) (session_view g db) of
        Inl e \<Rightarrow> Some (RDone (Inl (StoreFailure (''creating team: '' @ sql_error_text e))), db)
      | Inr (t, _) \<Rightarrow> if team_waits t others then None else Some (RTeam t, db))"
| "register_next ulower g others (RTeam t) db =
     (case user_statement ulower g t db of
        Inl e \<Rightarrow>
          if isUniqueViolation e then Some (RDone (Inl Conflict), db)
          else Some (RDone (Inl (StoreFailure (''creating user: '' @ sql_error_text e))), db)
      | Inr (u, _) \<Rightarrow> if user_waits db u others then None else Some (RUser t u, db))"
| "register_next ulower g others (RUser t u) db =
     (case rg_fault g AtCommit of
        Some e \<Rightarrow> Some (RDone (Inl (StoreFailure (''committing registration: '' @ e))),
                        if rg_kept g then commit_rows t u db else db)
      | None \<Rightarrow> Some (RDone (Inr (t, u)), commit_rows t u db))"
| "register_next ulower g others (RDone res) db = None"
| "register_next ulower g others RKilled db = None"

text \<open>
  The registrations together. When a process dies before its \<open>COMMIT\<close>, the server rolls its transaction
  back. A process that dies after the server has carried out its \<open>COMMIT\<close> leaves the rows: for the
  tables that is the registration that has committed and not been read, \<open>RDone\<close>, whose answer nobody
  sees.
\<close>

type_synonym registering = "user_db \<times> (registration \<times> rphase) list"

inductive registering_move :: "(nat \<Rightarrow> nat) \<Rightarrow> registering \<Rightarrow> registering \<Rightarrow> bool" for ulower where
  "register_next ulower g (map snd (xs @ ys)) p db = Some (p', db') \<Longrightarrow>
     registering_move ulower (db, xs @ (g, p) # ys) (db', xs @ (g, p') # ys)"

fun ended :: "rphase \<Rightarrow> bool" where
  "ended (RDone _) = True"
| "ended RKilled = True"
| "ended _ = False"

inductive registering_step :: "(nat \<Rightarrow> nat) \<Rightarrow> registering \<Rightarrow> registering \<Rightarrow> bool" for ulower where
  moved: "registering_move ulower s s' \<Longrightarrow> registering_step ulower s s'"
| killed: "\<not> ended p \<Longrightarrow> registering_step ulower (db, xs @ (g, p) # ys) (db, xs @ (g, RKilled) # ys)"

inductive_cases registering_moveE: "registering_move ulower s s'"

abbreviation registering_moves :: "(nat \<Rightarrow> nat) \<Rightarrow> registering \<Rightarrow> registering \<Rightarrow> bool" where
  "registering_moves ulower \<equiv> (registering_move ulower)\<^sup>*\<^sup>*"

abbreviation registering_steps :: "(nat \<Rightarrow> nat) \<Rightarrow> registering \<Rightarrow> registering \<Rightarrow> bool" where
  "registering_steps ulower \<equiv> (registering_step ulower)\<^sup>*\<^sup>*"

definition starting :: "registration list \<Rightarrow> (registration \<times> rphase) list" where
  "starting gs = map (\<lambda>g. (g, RStarting)) gs"

subsection \<open>The specification: one registration after the other\<close>

text \<open>\<open>CreateTeamWithOwner\<close> in one piece, on the committed tables.\<close>

definition register_alone ::
  "(nat \<Rightarrow> nat) \<Rightarrow> registration \<Rightarrow> user_db \<Rightarrow> (store_error, Team \<times> User) result \<times> user_db" where
  "register_alone ulower g db =
     (let (res, tx) = CreateTeamWithOwner ulower (rg_team g) (rg_user g) (session_view g db)
      in (res, db\<lparr>ud_teams := ud_teams tx, ud_users := ud_users tx\<rparr>))"

fun register_all ::
  "(nat \<Rightarrow> nat) \<Rightarrow> registration list \<Rightarrow> user_db \<Rightarrow> (store_error, Team \<times> User) result list \<times> user_db" where
  "register_all ulower [] db = ([], db)"
| "register_all ulower (g # gs) db =
     (let (res, db') = register_alone ulower g db;
          (ress, db'') = register_all ulower gs db'
      in (res # ress, db''))"

fun answers :: "registration \<times> rphase \<Rightarrow> (registration \<times> (store_error, Team \<times> User) result) list" where
  "answers (g, RDone res) = [(g, res)]"
| "answers (g, _) = []"

definition answered :: "(registration \<times> rphase) list \<Rightarrow> (registration \<times> (store_error, Team \<times> User) result) list" where
  "answered ps = concat (map answers ps)"

text \<open>
  The answers given and the tables are those of some order of the answered registrations, with those
  in \<open>first\<close> in front.
\<close>

definition serialized ::
  "(nat \<Rightarrow> nat) \<Rightarrow> user_db \<Rightarrow> (registration \<times> (store_error, Team \<times> User) result) list \<Rightarrow> registering \<Rightarrow> bool" where
  "serialized ulower db0 first s \<longleftrightarrow>
     (\<exists>later. mset (first @ later) = mset (answered (snd s))
        \<and> register_all ulower (map fst (first @ later)) db0 = (map snd (first @ later), fst s))"

lemma register_all_append:
  "register_all ulower (gs @ [g]) db =
     (let (ress, db') = register_all ulower gs db; (res, db'') = register_alone ulower g db'
      in (ress @ [res], db''))"
  by (induction gs arbitrary: db) (simp_all add: Let_def split: prod.splits)

lemma answered_simps [simp]:
  "answered [] = []" "answered (x # xs) = answers x @ answered xs" "answered (xs @ ys) = answered xs @ answered ys"
  by (simp_all add: answered_def)

lemma answered_starting [simp]: "answered (starting gs) = []"
  by (induction gs) (simp_all add: starting_def)

text \<open>A step that answers nothing and changes nothing keeps the order; one that answers extends it.\<close>

lemma serialized_silent:
  assumes "serialized ulower db0 first (db, xs @ (g, p) # ys)" and "\<not> (\<exists>res. p = RDone res)" "\<not> (\<exists>res. p' = RDone res)"
  shows "serialized ulower db0 first (db, xs @ (g, p') # ys)"
proof -
  have "answers (g, p) = []" "answers (g, p') = []"
    using assms(2,3) by (cases p; simp) (use assms(3) in \<open>cases p'; simp\<close>)
  with assms(1) show ?thesis by (simp add: serialized_def)
qed

lemma serialized_answer:
  assumes "serialized ulower db0 first (db, xs @ (g, p) # ys)" and "\<not> ended p"
    and alone: "register_alone ulower g db = (res, db')"
  shows "serialized ulower db0 first (db', xs @ (g, RDone res) # ys)"
proof -
  obtain later where order: "mset (first @ later) = mset (answered xs @ answered ys)"
    "register_all ulower (map fst (first @ later)) db0 = (map snd (first @ later), db)"
    using assms(1,2) by (cases p) (auto simp: serialized_def)
  have "register_all ulower (map fst ((first @ later) @ [(g, res)])) db0 = (map snd ((first @ later) @ [(g, res)]), db')"
    unfolding map_append register_all_append list.map fst_conv snd_conv order(2) [unfolded map_append]
    by (simp add: alone)
  moreover have "mset ((first @ later) @ [(g, res)]) = mset (answered (xs @ (g, RDone res) # ys))"
    using order(1) by simp
  ultimately show ?thesis unfolding serialized_def by (metis append_assoc fst_conv snd_conv)
qed

subsection \<open>What a registration has reached\<close>

text \<open>The rows it has written are those that it would still write on the committed tables.\<close>

definition user_view :: "registration \<Rightarrow> Team \<Rightarrow> User \<Rightarrow> user_db \<Rightarrow> user_db" where
  "user_view g t u db = (team_view g t db)\<lparr>ud_users := ud_users db @ [u], ud_next := 2\<rparr>"

fun reached :: "(nat \<Rightarrow> nat) \<Rightarrow> user_db \<Rightarrow> registration \<Rightarrow> rphase \<Rightarrow> bool" where
  "reached ulower db g RBegun \<longleftrightarrow> rg_fault g AtBegin = None"
| "reached ulower db g (RTeam t) \<longleftrightarrow> rg_fault g AtBegin = None
     \<and> insertTeam (TrimSpace (rg_team g)) (session_view g db) = Inr (t, team_view g t db)"
| "reached ulower db g (RUser t u) \<longleftrightarrow> rg_fault g AtBegin = None
     \<and> insertTeam (TrimSpace (rg_team g)) (session_view g db) = Inr (t, team_view g t db)
     \<and> user_statement ulower g t db = Inr (u, user_view g t u db)"
| "reached ulower db g p \<longleftrightarrow> True"

lemma session_view_sel [simp]:
  "ud_teams (session_view g db) = ud_teams db" "ud_users (session_view g db) = ud_users db"
  "ud_fault (session_view g db) = rg_fault g" "ud_kept (session_view g db) = rg_kept g"
  "ud_lower (session_view g db) = ud_lower db" "ud_next (session_view g db) = 0"
  "ud_uuid (session_view g db) = rg_uuid g" "ud_now (session_view g db) = rg_now g"
  by (simp_all add: session_view_def)

lemma team_view_sel [simp]:
  "ud_teams (team_view g t db) = ud_teams db @ [t]" "ud_users (team_view g t db) = ud_users db"
  "ud_fault (team_view g t db) = rg_fault g" "ud_kept (team_view g t db) = rg_kept g"
  "ud_lower (team_view g t db) = ud_lower db" "ud_next (team_view g t db) = 1"
  "ud_uuid (team_view g t db) = rg_uuid g" "ud_now (team_view g t db) = rg_now g"
  by (simp_all add: team_view_def)

lemma user_view_sel [simp]:
  "ud_teams (user_view g t u db) = ud_teams db @ [t]" "ud_users (user_view g t u db) = ud_users db @ [u]"
  by (simp_all add: user_view_def)

lemma commit_rows_sel [simp]:
  "ud_teams (commit_rows t u db) = ud_teams db @ [t]" "ud_users (commit_rows t u db) = ud_users db @ [u]"
  "ud_lower (commit_rows t u db) = ud_lower db"
  by (simp_all add: commit_rows_def)

lemma team_written:
  "insertTeam name (session_view g db) = Inr (t, tx) \<Longrightarrow> tx = team_view g t db"
  by (auto simp: insertTeam_def Let_def team_view_def split: option.splits if_splits)

lemma user_written:
  "user_statement ulower g t db = Inr (u, tx) \<Longrightarrow> tx = user_view g t u db"
  by (auto simp: user_statement_def insertUser_def Let_def user_view_def split: option.splits if_splits)

text \<open>Another registration's rows do not disturb it, when they have other keys.\<close>

lemma team_undisturbed:
  assumes "insertTeam name (session_view g db) = Inr (t, team_view g t db)" and "team_ID t' \<noteq> team_ID t"
  shows "insertTeam name (session_view g (commit_rows t' u' db)) = Inr (t, team_view g t (commit_rows t' u' db))"
  using assms
  by (auto simp: insertTeam_def Let_def team_view_def session_view_def commit_rows_def
      split: option.splits if_splits)

lemma user_undisturbed:
  assumes "user_statement ulower g t db = Inr (u, user_view g t u db)"
    and "user_ID u' \<noteq> user_ID u" "ud_lower db (user_Email u') \<noteq> ud_lower db (user_Email u)"
  shows "user_statement ulower g t (commit_rows t' u' db) = Inr (u, user_view g t u (commit_rows t' u' db))"
proof -
  let ?e = "NormalizeEmail ulower (user_Email (rg_user g))"
  have row: "user_ID u = rg_uuid g 1" "user_Email u = ?e"
    using assms(1) by (auto simp: user_statement_def insertUser_def Let_def split: option.splits if_splits)
  show ?thesis
    using assms unfolding user_statement_def insertUser_def row
    by (auto simp: Let_def user_view_def team_view_def session_view_def commit_rows_def
        split: option.splits if_splits)
qed

lemma reached_commit:
  assumes "reached ulower db g p"
    and "\<forall>t \<in> set (written_teams p). team_ID t' \<noteq> team_ID t"
    and "\<forall>u \<in> set (written_users p). user_ID u' \<noteq> user_ID u
      \<and> ud_lower db (user_Email u') \<noteq> ud_lower db (user_Email u)"
  shows "reached ulower (commit_rows t' u' db) g p"
  using assms by (cases p) (simp_all add: team_undisturbed user_undisturbed)

text \<open>Where a registration is answered, \<open>CreateTeamWithOwner\<close> in one piece gives the same.\<close>

lemma alone_unchanged [simp]:
  "db\<lparr>ud_teams := ud_teams db, ud_users := ud_users db\<rparr> = db"
  by simp

lemma register_alone_refused:
  "rg_fault g AtBegin = Some e \<Longrightarrow>
     register_alone ulower g db = (Inl (StoreFailure (''starting registration transaction: '' @ e)), db)"
  "rg_fault g AtBegin = None \<Longrightarrow> insertTeam (TrimSpace (rg_team g)) (session_view g db) = Inl e1 \<Longrightarrow>
     register_alone ulower g db = (Inl (StoreFailure (''creating team: '' @ sql_error_text e1)), db)"
  "reached ulower db g (RTeam t) \<Longrightarrow> user_statement ulower g t db = Inl e2 \<Longrightarrow>
     register_alone ulower g db =
       (Inl (if isUniqueViolation e2 then Conflict else StoreFailure (''creating user: '' @ sql_error_text e2)), db)"
  by (simp_all add: register_alone_def CreateTeamWithOwner_def user_statement_def)

lemma register_alone_commits:
  assumes "reached ulower db g (RUser t u)"
  shows "register_alone ulower g db =
    (case rg_fault g AtCommit of
       Some e \<Rightarrow> (Inl (StoreFailure (''committing registration: '' @ e)), if rg_kept g then commit_rows t u db else db)
     | None \<Rightarrow> (Inr (t, u), commit_rows t u db))"
  using assms
  by (simp add: register_alone_def CreateTeamWithOwner_def user_statement_def commit_rows_def split: option.split)


subsection \<open>The invariant of the overlapping registrations\<close>

definition keys_apart :: "(gostring \<Rightarrow> gostring) \<Rightarrow> rphase list \<Rightarrow> bool" where
  "keys_apart lower qs \<longleftrightarrow>
     distinct (map team_ID (concat (map written_teams qs)))
     \<and> distinct (map user_ID (concat (map written_users qs)))
     \<and> distinct (map (\<lambda>u. lower (user_Email u)) (concat (map written_users qs)))"

fun registering_ok :: "(nat \<Rightarrow> nat) \<Rightarrow> registering \<Rightarrow> bool" where
  "registering_ok ulower (db, ps) \<longleftrightarrow>
     (\<forall>(g, p) \<in> set ps. reached ulower db g p) \<and> keys_apart (ud_lower db) (map snd ps)"

declare registering_ok.simps [simp del]

lemma registering_okD:
  assumes "registering_ok ulower (db, xs @ (g, p) # ys)"
  shows "reached ulower db g p" "keys_apart (ud_lower db) (map snd xs @ p # map snd ys)"
    "(g', p') \<in> set (xs @ ys) \<Longrightarrow> reached ulower db g' p'"
  using assms by (auto simp: registering_ok.simps)

lemma registering_okI:
  assumes "\<And>g' p'. (g', p') \<in> set (xs @ ys) \<Longrightarrow> reached ulower db g' p'" "reached ulower db g p"
    and "keys_apart (ud_lower db) (map snd xs @ p # map snd ys)"
  shows "registering_ok ulower (db, xs @ (g, p) # ys)"
  using assms by (auto simp: registering_ok.simps)

lemma registering_ok_starting: "registering_ok ulower (db, starting gs)"
proof -
  have "map snd (starting gs) = replicate (length gs) RStarting"
    by (simp add: starting_def map_replicate_const comp_def)
  moreover have "concat (map written_teams (replicate n RStarting)) = []"
    "concat (map written_users (replicate n RStarting)) = []" for n
    by (simp_all add: concat_eq_Nil_conv)
  ultimately show ?thesis by (auto simp: registering_ok.simps starting_def keys_apart_def)
qed

lemma keys_apart_ended:
  "keys_apart lower (qs @ p # rs) \<Longrightarrow> written_teams p' = [] \<Longrightarrow> written_users p' = [] \<Longrightarrow>
     keys_apart lower (qs @ p' # rs)"
  by (simp add: keys_apart_def Int_Un_distrib)

lemma keys_apart_team:
  "keys_apart lower (qs @ RBegun # rs) \<Longrightarrow> \<not> team_waits t (qs @ rs) \<Longrightarrow> keys_apart lower (qs @ RTeam t # rs)"
  by (auto simp: keys_apart_def team_waits_def)

lemma keys_apart_user:
  assumes "keys_apart (ud_lower db) (qs @ RTeam t # rs)" "\<not> user_waits db u (qs @ rs)"
  shows "keys_apart (ud_lower db) (qs @ RUser t u # rs)"
  using assms by (auto simp: keys_apart_def user_waits_def)

text \<open>Nothing that another registration has written has the keys of a row about to be committed.\<close>

lemma keys_apart_others:
  assumes "keys_apart lower (qs @ RUser t u # rs)" and "p \<in> set (qs @ rs)"
  shows "\<forall>t' \<in> set (written_teams p). team_ID t \<noteq> team_ID t'"
    and "\<forall>u' \<in> set (written_users p). user_ID u \<noteq> user_ID u' \<and> lower (user_Email u) \<noteq> lower (user_Email u')"
proof -
  have rows: "set (written_teams p) \<subseteq> set (concat (map written_teams (qs @ rs)))"
    "set (written_users p) \<subseteq> set (concat (map written_users (qs @ rs)))"
    using assms(2) by auto
  have "team_ID t \<notin> team_ID ` set (concat (map written_teams (qs @ rs)))"
    "user_ID u \<notin> user_ID ` set (concat (map written_users (qs @ rs)))"
    "lower (user_Email u) \<notin> (\<lambda>u. lower (user_Email u)) ` set (concat (map written_users (qs @ rs)))"
    using assms(1) by (simp_all add: keys_apart_def image_Un)
  with rows show "\<forall>t' \<in> set (written_teams p). team_ID t \<noteq> team_ID t'"
    "\<forall>u' \<in> set (written_users p). user_ID u \<noteq> user_ID u' \<and> lower (user_Email u) \<noteq> lower (user_Email u')"
    by (metis image_eqI subsetD)+
qed

lemma ok_commit:
  assumes "registering_ok ulower (db, xs @ (g, RUser t u) # ys)"
  shows "registering_ok ulower (commit_rows t u db, xs @ (g, RDone res) # ys)"
proof (rule registering_okI)
  note apart = registering_okD(2) [OF assms]
  show "reached ulower (commit_rows t u db) g' p" if "(g', p) \<in> set (xs @ ys)" for g' p
  proof -
    have "p \<in> set (map snd xs @ map snd ys)" using that by force
    note other = keys_apart_others [OF apart this]
    show ?thesis using registering_okD(3) [OF assms that] by (rule reached_commit) (fact other)+
  qed
  show "keys_apart (ud_lower (commit_rows t u db)) (map snd xs @ RDone res # map snd ys)"
    unfolding commit_rows_sel using apart by (rule keys_apart_ended) simp_all
qed simp

lemma ok_in_place:
  assumes "registering_ok ulower (db, xs @ (g, p) # ys)" and "reached ulower db g p'"
    and "keys_apart (ud_lower db) (map snd xs @ p' # map snd ys)"
  shows "registering_ok ulower (db, xs @ (g, p') # ys)"
  using registering_okD(3) [OF assms(1)] assms(2,3) by (rule registering_okI)

lemma ok_ended:
  assumes "registering_ok ulower (db, xs @ (g, p) # ys)" and "ended p' \<or> p' = RBegun \<and> rg_fault g AtBegin = None"
  shows "registering_ok ulower (db, xs @ (g, p') # ys)"
proof (rule ok_in_place [OF assms(1)])
  show "reached ulower db g p'" using assms(2) by (cases p') auto
  have "written_teams p' = []" "written_users p' = []" using assms(2) by (cases p'; auto)+
  with registering_okD(2) [OF assms(1)] show "keys_apart (ud_lower db) (map snd xs @ p' # map snd ys)"
    by (rule keys_apart_ended)
qed

text \<open>
  A statement answers, with what the registration in one piece answers on these tables, or it goes on
  to the next and commits nothing.
\<close>

lemma next_answers:
  assumes "reached ulower db g p" and "register_next ulower g others p db = Some (RDone res, db')"
  shows "register_alone ulower g db = (res, db')"
proof (cases p)
  case RStarting
  with assms(2) show ?thesis by (auto simp: register_alone_refused(1) split: option.splits)
next
  case RBegun
  with assms show ?thesis by (auto simp: register_alone_refused(2) split: sum.splits if_splits)
next
  case (RTeam t)
  with assms show ?thesis by (auto simp: register_alone_refused(3) split: sum.splits if_splits)
next
  case (RUser t u)
  with assms show ?thesis
    unfolding register_alone_commits [OF assms(1) [unfolded RUser]] by (auto split: option.splits)
qed (use assms in simp_all)

lemma next_goes_on:
  assumes "reached ulower db g p" and "register_next ulower g others p db = Some (p', db')"
    and "\<nexists>res. p' = RDone res"
  shows "db' = db" "reached ulower db g p'" "\<not> ended p" "\<not> ended p'"
    and "p = RStarting \<and> p' = RBegun \<or> (\<exists>t. p = RBegun \<and> p' = RTeam t \<and> \<not> team_waits t others)
      \<or> (\<exists>t u. p = RTeam t \<and> p' = RUser t u \<and> \<not> user_waits db u others)"
  using assms
  by (cases p; force dest: team_written user_written split: option.splits sum.splits if_splits)+

lemma next_ends:
  assumes "register_next ulower g others p db = Some (RDone res, db')"
  shows "db' = db \<or> (\<exists>t u. p = RUser t u \<and> db' = commit_rows t u db)" "\<not> ended p"
  using assms by (cases p; force split: option.splits sum.splits if_splits)+

text \<open>Every statement keeps the invariant, and the answers stay those of some order.\<close>

lemma move_keeps:
  assumes ok: "registering_ok ulower (db, xs @ (g, p) # ys)"
    and ser: "serialized ulower db0 first (db, xs @ (g, p) # ys)"
    and nxt: "register_next ulower g (map snd (xs @ ys)) p db = Some (p', db')"
  shows "registering_ok ulower (db', xs @ (g, p') # ys) \<and> serialized ulower db0 first (db', xs @ (g, p') # ys)"
proof (cases "\<exists>res. p' = RDone res")
  case True
  then obtain res where p': "p' = RDone res" by blast
  note nxt' = nxt [unfolded p']
  have "registering_ok ulower (db', xs @ (g, RDone res) # ys)"
    using next_ends(1) [OF nxt'] ok by (auto intro: ok_commit ok_ended)
  with serialized_answer [OF ser next_ends(2) [OF nxt'] next_answers [OF registering_okD(1) [OF ok] nxt']]
  show ?thesis by (simp add: p')
next
  case False
  note on = next_goes_on [OF registering_okD(1) [OF ok] nxt False]
  have "keys_apart (ud_lower db) (map snd xs @ p' # map snd ys)"
    using on(5) registering_okD(2) [OF ok] keys_apart_team keys_apart_user keys_apart_ended by fastforce
  with on(1,2) have "registering_ok ulower (db', xs @ (g, p') # ys)"
    using ok_in_place [OF ok] by simp
  with serialized_silent [OF ser _ False] on(1,3) show ?thesis by (auto elim!: ended.elims)
qed


lemma step_keeps:
  assumes "registering_step ulower s s'" and "registering_ok ulower s \<and> serialized ulower db0 first s"
  shows "registering_ok ulower s' \<and> serialized ulower db0 first s'"
  using assms
proof (cases rule: registering_step.cases)
  case moved
  then show ?thesis using assms(2) by (cases rule: registering_move.cases) (auto dest: move_keeps)
next
  case (killed p db xs g ys)
  then have "\<nexists>res. p = RDone res" by auto
  with assms(2) killed show ?thesis using ok_ended serialized_silent by fastforce
qed

lemma steps_keep:
  "registering_steps ulower s s' \<Longrightarrow> registering_ok ulower s \<and> serialized ulower db0 first s \<Longrightarrow>
     registering_ok ulower s' \<and> serialized ulower db0 first s'"
  by (induction rule: rtranclp_induct) (blast dest: step_keeps)+

lemma registering_reached:
  assumes "registering_steps ulower (db0, starting gs) s"
  shows "registering_ok ulower s \<and> serialized ulower db0 [] s"
  using steps_keep [OF assms, of db0 "[]"] registering_ok_starting by (simp add: serialized_def)

text \<open>The order of what is answered at some moment is only extended by what is answered later.\<close>

lemma serialized_extends:
  assumes "registering_steps ulower (db0, starting gs) (db1, ps1)" and "registering_steps ulower (db1, ps1) (db, ps)"
  shows "\<exists>first later. mset first = mset (answered ps1) \<and> register_all ulower (map fst first) db0 = (map snd first, db1)
    \<and> mset (first @ later) = mset (answered ps)
    \<and> register_all ulower (map fst (first @ later)) db0 = (map snd (first @ later), db)"
proof -
  note reached = registering_reached [OF assms(1)]
  then obtain first where first: "mset first = mset (answered ps1)"
    "register_all ulower (map fst first) db0 = (map snd first, db1)"
    by (auto simp: serialized_def)
  then have "serialized ulower db0 first (db1, ps1)"
    unfolding serialized_def by (intro exI [of _ "[]"]) simp
  with steps_keep [OF assms(2)] reached have "serialized ulower db0 first (db, ps)" by blast
  then obtain later where "mset (first @ later) = mset (answered ps)"
    "register_all ulower (map fst (first @ later)) db0 = (map snd (first @ later), db)"
    unfolding serialized_def fst_conv snd_conv by blast
  with first show ?thesis by blast
qed

subsection \<open>Everybody can finish\<close>

lemma step_requests:
  "registering_step ulower s s' \<Longrightarrow> map fst (snd s') = map fst (snd s)"
  by (cases rule: registering_step.cases) (auto elim: registering_moveE)

lemma steps_requests:
  "registering_steps ulower s s' \<Longrightarrow> map fst (snd s') = map fst (snd s)"
  by (induction rule: rtranclp_induct) (simp_all add: step_requests)


fun statements_left :: "rphase \<Rightarrow> nat" where
  "statements_left RStarting = 4"
| "statements_left RBegun = 3"
| "statements_left (RTeam t) = 2"
| "statements_left (RUser t u) = 1"
| "statements_left p = 0"

lemma next_shortens:
  "register_next ulower g others p db = Some (p', db') \<Longrightarrow> statements_left p' < statements_left p"
  by (cases p) (auto split: option.splits sum.splits if_splits)

lemma no_waiting:
  "\<forall>q \<in> A. written_users q = [] \<Longrightarrow> set others \<subseteq> A \<Longrightarrow> \<not> user_waits db u others"
  "\<forall>q \<in> A. written_teams q = [] \<Longrightarrow> set others \<subseteq> A \<Longrightarrow> \<not> team_waits t others"
  by (auto simp: user_waits_def team_waits_def subset_iff)

lemma unblocked:
  assumes "register_next ulower g (map snd (xs @ ys)) p db \<noteq> None"
  shows "\<exists>s. registering_move ulower (db, xs @ (g, p) # ys) s"
proof -
  obtain p' db' where "register_next ulower g (map snd (xs @ ys)) p db = Some (p', db')" using assms by fast
  then show ?thesis by (blast intro: registering_move.intros)
qed

text \<open>
  A transaction that has written its user waits for nobody; when there is none, one that has written
  its team does not; when there is none of these either, nobody waits.
\<close>

lemma someone_moves:
  assumes "(g, p) \<in> set ps" and "\<not> ended p"
  shows "\<exists>s. registering_move ulower (db, ps) s"
proof -
  have split: "\<exists>s. registering_move ulower (db, ps) s"
    if here: "(h, q) \<in> set ps" and free: "\<And>others. set others \<subseteq> snd ` set ps \<Longrightarrow> register_next ulower h others q db \<noteq> None" for h q
  proof -
    obtain xs ys where ps: "ps = xs @ (h, q) # ys" using split_list [OF here] by blast
    have "register_next ulower h (map snd (xs @ ys)) q db \<noteq> None" by (rule free) (auto simp: ps)
    then show ?thesis unfolding ps by (rule unblocked)
  qed
  consider (user) h t u where "(h, RUser t u) \<in> set ps"
    | (team) h t where "(h, RTeam t) \<in> set ps" "\<forall>q \<in> snd ` set ps. written_users q = []"
    | (none) "\<forall>q \<in> snd ` set ps. written_teams q = []"
    by (metis imageE prod.collapse written_teams.elims written_users.elims)
  then show ?thesis
  proof cases
    case user
    then show ?thesis by (rule split) (simp split: option.split)
  next
    case team
    from team(1) show ?thesis
      by (rule split) (simp add: no_waiting(1) [OF team(2)] split: sum.split prod.split)
  next
    case none
    with assms have "p = RStarting \<or> p = RBegun" by (cases p) force+
    with assms(1) none show ?thesis
      by (intro split [of g p]) (auto simp: no_waiting(2) [OF none] split: sum.split option.split)
  qed
qed

text \<open>Every step, a death included, leaves fewer statements; so a run has at most four steps for each.\<close>

definition all_left :: "(registration \<times> rphase) list \<Rightarrow> nat" where
  "all_left ps = sum_list (map (statements_left \<circ> snd) ps)"

lemma all_left_simps [simp]:
  "all_left [] = 0" "all_left ((g, p) # ps) = statements_left p + all_left ps"
  "all_left (xs @ ys) = all_left xs + all_left ys"
  by (simp_all add: all_left_def)

lemma step_shortens:
  assumes "registering_step ulower s s'"
  shows "all_left (snd s') < all_left (snd s)"
  using assms
proof (cases rule: registering_step.cases)
  case moved
  then show ?thesis by (cases rule: registering_move.cases) (auto dest: next_shortens)
next
  case (killed p db xs g ys)
  then show ?thesis by (cases p) simp_all
qed

lemma steps_shorten:
  "(registering_step ulower ^^ k) s s' \<Longrightarrow> k + all_left (snd s') \<le> all_left (snd s)"
proof (induction k arbitrary: s')
  case (Suc k)
  then obtain s1 where "(registering_step ulower ^^ k) s s1" "registering_step ulower s1 s'" by auto
  from Suc.IH [OF this(1)] step_shortens [OF this(2)] show ?case by simp
qed simp

lemma all_left_starting: "all_left (starting gs) = 4 * length gs"
  by (induction gs) (simp_all add: starting_def)

lemma moves_to_the_end:
  "\<exists>db' ps'. registering_moves ulower (db, ps) (db', ps') \<and> map fst ps' = map fst ps \<and> (\<forall>(g, p) \<in> set ps'. ended p)"
proof (induction "all_left ps" arbitrary: db ps rule: less_induct)
  case less
  show ?case
  proof (cases "\<forall>(g, p) \<in> set ps. ended p")
    case False
    then obtain s where move: "registering_move ulower (db, ps) s" using someone_moves by blast
    then have step: "registering_step ulower (db, ps) s" by (rule registering_step.moved)
    from less.hyps [of "snd s" "fst s"] step_shortens [OF step] step_requests [OF step]
    obtain db' ps' where "registering_moves ulower s (db', ps')" "map fst ps' = map fst ps" "\<forall>(g, p) \<in> set ps'. ended p"
      by auto
    then show ?thesis using converse_rtranclp_into_rtranclp [of "registering_move ulower", OF move] by blast
  qed blast
qed

text \<open>Nobody interrupted is killed, and one registration on its own is \<open>CreateTeamWithOwner\<close>.\<close>

lemma moves_answer:
  "registering_moves ulower s s' \<Longrightarrow> \<forall>(g, p) \<in> set (snd s). p \<noteq> RKilled \<Longrightarrow>
     \<forall>(g, p) \<in> set (snd s'). p \<noteq> RKilled"
proof (induction rule: rtranclp_induct)
  case (step s1 s2)
  have "p' \<noteq> RKilled" if "register_next ulower g others p db = Some (p', db')" for g others p db p' db'
    using that by (cases p) (auto split: option.splits sum.splits if_splits)
  with step show ?case by (fastforce elim!: registering_moveE)
qed simp

lemma two_moves:
  "register_next ulower g [q] p db = Some (p', db') \<Longrightarrow>
     registering_move ulower (db, [(g, p), (h, q)]) (db', [(g, p'), (h, q)])"
  "register_next ulower h [p] q db = Some (q', db') \<Longrightarrow>
     registering_move ulower (db, [(g, p), (h, q)]) (db', [(g, p), (h, q')])"
  using registering_move.intros [of ulower g "[]" "[(h, q)]" p db p' db']
    registering_move.intros [of ulower h "[(g, p)]" "[]" q db q' db'] by simp_all

lemma moves_are_steps:
  "registering_moves ulower s s' \<Longrightarrow> registering_steps ulower s s'"
  by (rule rtranclp_mono [THEN predicate2D, of "registering_move ulower"]) (auto intro: registering_step.moved)

lemma registered_alone:
  assumes "register_alone ulower g db = (res, db')"
  shows "registering_moves ulower (db, [(g, RStarting)]) (db', [(g, RDone res)])"
proof -
  obtain db1 p where run: "registering_moves ulower (db, starting [g]) (db1, [(g, p)])" and "ended p"
    using moves_to_the_end [of ulower db "starting [g]"] by (auto simp: starting_def map_eq_Cons_conv)
  moreover have "p \<noteq> RKilled" using moves_answer [OF run] by (auto simp: starting_def)
  ultimately obtain r where p: "p = RDone r" by (cases p) auto
  have "serialized ulower db [] (db1, [(g, RDone r)])"
    using registering_reached [OF moves_are_steps [OF run]] p by blast
  then have "register_all ulower [g] db = ([r], db1)" by (auto simp: serialized_def)
  with assms run p show ?thesis by (simp add: starting_def)
qed

subsection \<open>What the accounts keep\<close>

fun created_users :: "registration \<times> (store_error, Team \<times> User) result \<Rightarrow> User list" where
  "created_users (g, Inr (t, u)) = [u]"
| "created_users (g, Inl e) = []"

lemma identity_inv_session:
  "identity_inv ulower db \<Longrightarrow> \<forall>n. rg_uuid g n \<noteq> uuid_nil \<Longrightarrow> identity_inv ulower (session_view g db)"
  by (simp add: identity_inv_def)

lemma identity_inv_tables:
  "identity_inv ulower db \<Longrightarrow> identity_inv ulower tx \<Longrightarrow>
     identity_inv ulower (db\<lparr>ud_teams := ud_teams tx, ud_users := ud_users tx\<rparr>)"
  by (simp add: identity_inv_def)

lemma register_alone_keeps:
  assumes inv: "identity_inv ulower db" and ids: "\<forall>n. rg_uuid g n \<noteq> uuid_nil"
    and alone: "register_alone ulower g db = (res, db')"
  shows "identity_inv ulower db'" "set (ud_users db) \<subseteq> set (ud_users db')"
    "u \<in> set (created_users (g, res)) \<Longrightarrow> u \<in> set (ud_users db') \<and> user_Email u \<notin> user_Email ` set (ud_users db)"
proof -
  let ?db = "session_view g db"
  note inv' = identity_inv_session [OF inv ids]
  obtain tx where run: "CreateTeamWithOwner ulower (rg_team g) (rg_user g) ?db = (res, tx)"
    and db': "db' = db\<lparr>ud_teams := ud_teams tx, ud_users := ud_users tx\<rparr>"
    using alone by (auto simp: register_alone_def Let_def split: prod.splits)
  have "identity_inv ulower tx" "set (ud_users db) \<subseteq> set (ud_users tx)"
    using inv' run by (cases rule: CreateTeamWithOwner_cases [of ulower "rg_team g" "rg_user g" ?db];
        auto dest: create_tables_inv(1) create_tables_users)+
  with inv show "identity_inv ulower db'" "set (ud_users db) \<subseteq> set (ud_users db')"
    by (simp_all add: db' identity_inv_tables)
  show "u \<in> set (created_users (g, res)) \<Longrightarrow> u \<in> set (ud_users db') \<and> user_Email u \<notin> user_Email ` set (ud_users db)"
  proof (cases res)
    case (Inr r)
    obtain t v where r: "r = (t, v)" by (cases r)
    have v: "set (ud_users tx) = insert v (set (ud_users db))"
      and new: "\<And>w. w \<in> set (ud_users db) \<Longrightarrow> user_Email w \<noteq> user_Email v"
      using CreateTeamWithOwner_Inr(1,7) [OF inv', of "rg_team g" "rg_user g" t v tx] run Inr r by auto
    assume "u \<in> set (created_users (g, res))"
    moreover have "user_Email v \<notin> user_Email ` set (ud_users db)" using new by (metis imageE)
    ultimately show ?thesis using v by (simp add: Inr r db')
  qed simp
qed

lemma images_apart:
  assumes "A \<subseteq> B" "\<forall>u \<in> C. f u \<notin> f ` B"
  shows "f ` A \<inter> f ` C = {}"
proof -
  have "f a \<noteq> f c" if "a \<in> A" "c \<in> C" for a c
    using assms(2) that(2) imageI [OF subsetD [OF assms(1) that(1)], of f] by auto
  then show ?thesis by auto
qed

lemma register_all_keeps:
  assumes "identity_inv ulower db" and "\<forall>(g, res) \<in> set order. \<forall>n. rg_uuid g n \<noteq> uuid_nil"
    and "register_all ulower (map fst order) db = (map snd order, db')"
  shows "identity_inv ulower db' \<and> distinct (map user_Email (concat (map created_users order)))
    \<and> (\<forall>u \<in> set (concat (map created_users order)). user_Email u \<notin> user_Email ` set (ud_users db))
    \<and> set (concat (map created_users order)) \<subseteq> set (ud_users db') \<and> set (ud_users db) \<subseteq> set (ud_users db')"
  using assms
proof (induction order arbitrary: db)
  case (Cons x order)
  obtain g res where x: "x = (g, res)" by (cases x)
  obtain db1 where alone: "register_alone ulower g db = (res, db1)"
    and rest: "register_all ulower (map fst order) db1 = (map snd order, db')"
    using Cons.prems(3) by (auto simp: x Let_def split: prod.splits)
  have ids: "\<forall>n. rg_uuid g n \<noteq> uuid_nil" using Cons.prems(2) x by simp
  note keeps = register_alone_keeps [OF Cons.prems(1) ids alone]
  have rest_ids: "\<forall>(g, res) \<in> set order. \<forall>n. rg_uuid g n \<noteq> uuid_nil" using Cons.prems(2) by simp
  note later = Cons.IH [OF keeps(1) rest_ids rest]
  let ?new = "created_users x" and ?later = "concat (map created_users order)"
  have new: "set ?new \<subseteq> set (ud_users db1)" "\<forall>u \<in> set ?new. user_Email u \<notin> user_Email ` set (ud_users db)"
    using keeps(3) unfolding x by fast+
  note inv' = later [THEN conjunct1] and apart = later [THEN conjunct2, THEN conjunct1]
    and outside = later [THEN conjunct2, THEN conjunct2, THEN conjunct1]
    and inside = later [THEN conjunct2, THEN conjunct2, THEN conjunct2]
  have "distinct (map user_Email ?new)" by (cases x rule: created_users.cases) simp_all
  moreover have "user_Email ` set ?new \<inter> user_Email ` set ?later = {}"
    by (rule images_apart [OF new(1) outside])
  moreover have "\<forall>u \<in> set ?later. user_Email u \<notin> user_Email ` set (ud_users db)"
    using outside image_mono [OF keeps(2), of user_Email] by (meson subsetD)
  moreover have "set ?new \<subseteq> set (ud_users db')" "set (ud_users db) \<subseteq> set (ud_users db')"
    using inside new(1) keeps(2) by (meson order_trans)+
  ultimately show ?case using inv' apart inside new(2) by (simp del: set_concat add: ball_Un)
qed simp

lemma created_users_mset:
  "mset xs = mset ys \<Longrightarrow> mset (concat (map created_users xs)) = mset (concat (map created_users ys))"
proof -
  have "mset (concat (map created_users zs)) = sum_mset (image_mset (mset \<circ> created_users) (mset zs))" for zs
    by (induction zs) simp_all
  then show "mset xs = mset ys \<Longrightarrow> ?thesis" by simp
qed


lemma mset_map_cong: "mset xs = mset ys \<Longrightarrow> mset (map f xs) = mset (map f ys)"
  by simp

lemma starting_requests: "map fst (starting gs) = gs"
  by (simp add: starting_def comp_def)

lemma answered_requests: "fst ` set (answered ps) \<subseteq> set (map fst ps)"
proof -
  have "fst y = fst x" if "y \<in> set (answers x)" for x y
    using that by (cases x rule: answers.cases) simp_all
  then show ?thesis by (force simp: answered_def)
qed

end
