(* ===== verification/Concurrency_Properties.thy ===== *)
theory Concurrency_Properties
  imports Account_Properties Startup_Properties Refresh_Interleaved Migrate_Interleaved
    Registration_Interleaved
begin

text \<open>
  What holds when things overlap. Over the revocation store in Redis, a refresh that arrives after
  a granted one is refused however the stages of the requests interleave; a run in which two that
  overlap are both granted shows how far the code goes. Backends that start together migrate the
  database as one would. And registrations that overlap are as good as one after the other.
\<close>

text \<open>
  C3. A granted refresh shuts the door on overlapping requests too: take any number of refreshes and
  logouts whose calls to the stores interleave in any way, with whatever else happens to the stores
  in between. From the moment one of the refreshes is answered with a session, no refresh with that
  cookie that arrives later is answered with one, while the token could still verify (but for the last
  millisecond).
\<close>

lemma overlapping_refreshes:
  assumes "redis_client (lb_uuid lb) client clock environment lives present"
    and "encodes_errors lb" "jwt_laws (lb_jwt lb)" "ah_sessions h = NewSessionStore (lb_uuid lb) client"
    and "\<forall>k. unsent (sq_rw (reqs k))"
    and "session_steps lb h clock environment skew reqs (w0, \<lambda>_. Arrived) (w, ph)"
    and "session_step lb h clock environment skew reqs (w, ph) (w1, ph1)"
    and "session_steps lb h clock environment skew reqs (w1, ph1) (w2, ph2)"
    and "\<forall>rw. ph n \<noteq> Answered rw" and "ph1 n = Answered rw" and "response_status rw = Some 200"
    and "\<not> sq_logout (reqs n)"
    and "presents lb h (sq_request (reqs n)) (dr_parse (sq_draws (reqs n))) claims i"
    and "only_token lb h reqs claims i"
    and "clock (aw_sessions w2) + millisecond <
      clock (aw_sessions w) + remainingLife (clock (aw_sessions w) + skew) claims"
    and "ph1 m = Arrived" and "\<not> sq_logout (reqs m)"
    and "request_cookie (sq_request (reqs m)) RefreshCookieName = request_cookie (sq_request (reqs n)) RefreshCookieName"
    and "ph2 m = Answered rw'"
  shows "response_status rw' \<noteq> Some 200"
  by (rule session_store.refresh_granted_once [OF redis_client.store_laws [OF assms(1)] assms(2-19)])

subsection \<open>Two requests with one cookie\<close>

definition same_refresh :: session_request where
  "same_refresh = \<lparr>sq_logout = False, sq_draws = sample_draws 3000000000,
     sq_request = refresh_request 1000000000, sq_rw = Base new_response\<rparr>"

lemma same_refresh_sel [simp]:
  "\<not> sq_logout same_refresh" "sq_draws same_refresh = sample_draws 3000000000"
  "sq_request same_refresh = refresh_request 1000000000" "sq_rw same_refresh = Base new_response"
  by (simp_all add: same_refresh_def)

lemma same_refresh_clock: "at_clock 3000000000 same_refresh = sample_draws 3000000000"
  by (simp add: at_clock_def sample_draws_def)

definition revoked_redis :: redis_server where
  "revoked_redis = snd (so_Revoke (NewSessionStore decimal_uuid redis_reference) 7 (86398 * 1000000000) redis_up)"

lemma sample_revocations:
  "so_IsRevoked (NewSessionStore decimal_uuid redis_reference) 7 redis_up = Inr False"
  "so_IsRevoked (NewSessionStore decimal_uuid redis_reference) 7 revoked_redis = Inr True"
  "so_Revoke (NewSessionStore decimal_uuid redis_reference) 7 (86398 * 1000000000) redis_up = (None, revoked_redis)"
  "so_Revoke (NewSessionStore decimal_uuid redis_reference) 7 (86398 * 1000000000) revoked_redis = (None, revoked_redis)"
  "rs_clock redis_up = 0" "rs_clock revoked_redis = 0"
  by (simp_all add: revoked_redis_def NewSessionStore_def IsRevoked_def Revoke_def redis_reference_def server_Set_def
      server_Get_def redis_up_def expiry_ms_def millisecond_def)

lemma sample_ids:
  "uuid_Parse decimal_uuid (cl_ID (refresh_claims 1000000000)) = Inr 7"
  "UserID decimal_uuid (refresh_claims 1000000000) = Inr 2"
  using uuid_laws_decimal by (simp_all add: refresh_claims_def newClaims_def uuid_laws_def UserID_def)

lemma sample_check:
  "aw_sessions w = redis_up \<Longrightarrow>
     refresh_check plain_lib sample_handler (sample_draws 3000000000) (refresh_request 1000000000) w rw =
       Inr (refresh_claims 1000000000, 7, 2)"
  "aw_sessions w = revoked_redis \<Longrightarrow>
     \<exists>out. refresh_check plain_lib sample_handler (sample_draws 3000000000) (refresh_request 1000000000) w rw = Inl out"
  by (simp_all add: refresh_check_def refresh_request_cookie sample_ParseRefresh sample_ids sample_revocations)

lemma sample_find:
  "aw_users w = user_tables \<Longrightarrow> refresh_find plain_lib sample_handler r 2 w rw = Inr sample_user"
  by (simp add: refresh_find_def NewUserRepository_def FindByID_def)

lemma sample_revoke:
  assumes "aw_sessions w = redis_up \<or> aw_sessions w = revoked_redis"
  shows "\<exists>out. refresh_revoke plain_lib sample_handler (sample_draws 3000000000) r (refresh_claims 1000000000) 7
      sample_user w (Base new_response) = out \<and> status_of out = Some 200 \<and> aw_sessions (final_world out) = revoked_redis"
proof -
  obtain b where b: "json_text (session_payload plain_lib sample_user (zero_Team\<lparr>team_ID := 1\<rparr>) (sample_pair 3000000000)) = Some b"
    using sample_encodes by fastforce
  have rev: "so_Revoke (NewSessionStore decimal_uuid redis_reference) 7 (86398 * 1000000000) (aw_sessions w) = (None, revoked_redis)"
    using assms sample_revocations by auto
  obtain w' where "refresh_revoke plain_lib sample_handler (sample_draws 3000000000) r (refresh_claims 1000000000) 7
      sample_user w (Base new_response) =
        returned (respondWithSession plain_lib sample_handler (sample_draws 3000000000) r 200 sample_user
          (zero_Team\<lparr>team_ID := 1\<rparr>) w' (Base new_response))" and "aw_sessions w' = revoked_redis"
    using rev by (simp add: refresh_revoke_def sample_remaining emit_def)
  then show ?thesis
    using b session_response(1) [OF unsent_new, of 200]
    by (simp add: issue_respond [OF unsent_new _ sample_issue])
qed

text \<open>The stages of a request, as steps of a run.\<close>

abbreviation sample_step ::
  "(user_db, redis_server) served \<Rightarrow> (user_db, redis_server) served \<Rightarrow> bool" where
  "sample_step \<equiv> session_step plain_lib sample_handler rs_clock server_moves 3000000000 (\<lambda>_. same_refresh)"

lemmas sample_steps = converse_rtranclp_into_rtranclp [where r = sample_step]

lemma sample_step_check:
  assumes "ph n = Arrived"
  shows "aw_sessions w = redis_up \<Longrightarrow> sample_step (w, ph) (w, ph(n := Checked (refresh_claims 1000000000) 7 2))"
    and "aw_sessions w = revoked_redis \<Longrightarrow> \<exists>w' rw. sample_step (w, ph) (w', ph(n := Answered rw))
      \<and> aw_sessions w' = revoked_redis"
proof -
  show "sample_step (w, ph) (w, ph(n := Checked (refresh_claims 1000000000) 7 2))" if "aw_sessions w = redis_up"
    using assms that by (intro session_step.checked) (simp_all add: sample_check(1))
  show "\<exists>w' rw. sample_step (w, ph) (w', ph(n := Answered rw)) \<and> aw_sessions w' = revoked_redis"
    if s: "aw_sessions w = revoked_redis"
  proof -
    obtain out where out: "refresh_check plain_lib sample_handler (sample_draws 3000000000)
        (refresh_request 1000000000) w (Base new_response) = Inl out"
      using sample_check(2) [OF s] by blast
    have "sample_step (w, ph) (answer out n ph)"
      using assms out by (intro session_step.refused) simp_all
    with stage_sessions(1) [OF out] s show ?thesis by auto
  qed
qed

lemma sample_step_find:
  "ph n = Checked c 7 2 \<Longrightarrow> aw_users w = user_tables \<Longrightarrow> sample_step (w, ph) (w, ph(n := Found c 7 sample_user))"
  using sample_find by (intro session_step.found) auto

lemma sample_step_revoke:
  assumes "ph n = Found (refresh_claims 1000000000) 7 sample_user"
    and s: "aw_sessions w = redis_up \<or> aw_sessions w = revoked_redis"
  shows "\<exists>w' rw. sample_step (w, ph) (w', ph(n := Answered rw)) \<and> response_status rw = Some 200
    \<and> aw_sessions w' = revoked_redis"
proof -
  have clock: "rs_clock (aw_sessions w) = 0" using s sample_revocations(5,6) by auto
  obtain out where out: "refresh_revoke plain_lib sample_handler (sample_draws 3000000000)
      (refresh_request 1000000000) (refresh_claims 1000000000) 7 sample_user w (Base new_response) = out"
    "status_of out = Some 200" "aw_sessions (final_world out) = revoked_redis"
    using sample_revoke [OF s] by blast
  have "sample_step (w, ph) (answer out n ph)"
    using assms(1) out(1) by (intro session_step.revoked) (simp_all add: clock same_refresh_clock)
  with out(2,3) show ?thesis by blast
qed

lemma sample_only_token: "only_token plain_lib sample_handler (\<lambda>_. same_refresh) (refresh_claims 1000000000) 7"
  unfolding only_token_def
  using presents_same [of plain_lib sample_handler, OF _ sample_presents, simplified, OF jwt_laws_plain _ refl] by simp

text \<open>
  C40. The check and the revocation are two commands to the store. Any two refreshes, with the same cookie
  or not, each of which would be granted if it were served alone at some moment, can be checked and
  find their users both at that moment, before either has revoked its token, and are then both
  granted, whichever comes first, when a store that has taken the one revocation takes the other.
\<close>

lemma refresh_race:
  assumes "encodes_errors lb" and "n \<noteq> m"
    and "\<forall>k \<in> {n, m}. ph k = Arrived \<and> \<not> sq_logout (reqs k) \<and> unsent (sq_rw (reqs k))
      \<and> status_of (Refresh lb h (at_clock (clock (aw_sessions w) + skew) (reqs k)) (sq_request (reqs k)) w (sq_rw (reqs k)))
        = Some 200"
    and "\<forall>i ttl j ttl'. fst (so_Revoke (ah_sessions h) i ttl (aw_sessions w)) = None \<longrightarrow>
      fst (so_Revoke (ah_sessions h) j ttl' (snd (so_Revoke (ah_sessions h) i ttl (aw_sessions w)))) = None"
  shows "\<exists>claims i v claims' j v' w1 rw w2 rw'.
      session_steps lb h clock environment skew reqs (w, ph) (w, ph(n := Found claims i v, m := Found claims' j v'))
    \<and> session_step lb h clock environment skew reqs (w, ph(n := Found claims i v, m := Found claims' j v'))
        (w1, ph(n := Answered rw, m := Found claims' j v')) \<and> response_status rw = Some 200
    \<and> session_step lb h clock environment skew reqs (w1, ph(n := Answered rw, m := Found claims' j v'))
        (w2, ph(n := Answered rw, m := Answered rw')) \<and> response_status rw' = Some 200"
proof -
  let ?t = "clock (aw_sessions w) + skew"
  have reqs: "ph k = Arrived" "\<not> sq_logout (reqs k)" "unsent (sq_rw (reqs k))"
    "status_of (Refresh lb h (at_clock ?t (reqs k)) (sq_request (reqs k)) w (sq_rw (reqs k))) = Some 200"
    if "k \<in> {n, m}" for k using assms(3) that by blast+
  obtain claims i u v where n: "refresh_check lb h (sq_draws (reqs n)) (sq_request (reqs n)) w (sq_rw (reqs n)) = Inr (claims, i, u)"
    "refresh_find lb h (sq_request (reqs n)) u w (sq_rw (reqs n)) = Inr v"
    "status_of (refresh_revoke lb h (at_clock ?t (reqs n)) (sq_request (reqs n)) claims i v w (sq_rw (reqs n))) = Some 200"
    by (rule granted_request [OF assms(1) reqs(3,4) [of n]]) auto
  obtain claims' j u' v' where m: "refresh_check lb h (sq_draws (reqs m)) (sq_request (reqs m)) w (sq_rw (reqs m)) = Inr (claims', j, u')"
    "refresh_find lb h (sq_request (reqs m)) u' w (sq_rw (reqs m)) = Inr v'"
    "status_of (refresh_revoke lb h (at_clock ?t (reqs m)) (sq_request (reqs m)) claims' j v' w (sq_rw (reqs m))) = Some 200"
    by (rule granted_request [OF assms(1) reqs(3,4) [of m]]) auto
  let ?found = "ph(n := Found claims i v, m := Found claims' j v')"
  have swap: "?found(n := x) = ph(n := x, m := Found claims' j v')" for x
    using assms(2) by (simp add: fun_upd_twist)
  have "session_steps lb h clock environment skew reqs (w, ph) (w, ph(n := Found claims i v))"
    by (rule checked_and_found [where reqs = reqs and n = n, OF reqs(1,2) n(1,2)]) simp_all
  moreover have "session_steps lb h clock environment skew reqs (w, ph(n := Found claims i v)) (w, ?found)"
    by (rule checked_and_found [where reqs = reqs and n = m, OF _ reqs(2) m(1,2)]) (use assms(2) reqs(1) [of m] in simp_all)
  ultimately have found: "session_steps lb h clock environment skew reqs (w, ph) (w, ?found)"
    by (rule rtranclp_trans)
  have at: "?found n = Found claims i v" "?found m = Found claims' j v'" using assms(2) by simp_all
  have un: "unsent (sq_rw (reqs n))" "unsent (sq_rw (reqs m))" using reqs(3) by simp_all
  obtain w1 rw w2 rw' where granted:
    "session_step lb h clock environment skew reqs (w, ?found) (w1, ?found(n := Answered rw))" "response_status rw = Some 200"
    "session_step lb h clock environment skew reqs (w1, ?found(n := Answered rw)) (w2, ?found(n := Answered rw, m := Answered rw'))"
    "response_status rw' = Some 200"
    by (rule found_granted [where reqs = reqs and n = n and m = m and ph = ?found and clock = clock and skew = skew,
        OF assms(1) un assms(2) at(1) n(3) at(2) m(3) assms(4)])
  with found show ?thesis unfolding swap fun_upd_upd by blast
qed

lemma same_refresh_granted:
  "status_of (Refresh plain_lib sample_handler (at_clock (rs_clock redis_up + 3000000000) same_refresh)
     (sq_request same_refresh) (world_of user_tables redis_up) (sq_rw same_refresh)) = Some 200"
  using first_refresh_granted by (simp add: sample_revocations same_refresh_clock first_refresh_def)

lemma refresh_race_witness:
  "\<exists>claims i v claims' j v' w1 rw w2 rw'.
      sample_step\<^sup>*\<^sup>* (world_of user_tables redis_up, \<lambda>_. Arrived)
        (world_of user_tables redis_up, (\<lambda>_. Arrived)(0 := Found claims i v, 1 := Found claims' j v'))
    \<and> sample_step (world_of user_tables redis_up, (\<lambda>_. Arrived)(0 := Found claims i v, 1 := Found claims' j v'))
        (w1, (\<lambda>_. Arrived)(0 := Answered rw, 1 := Found claims' j v')) \<and> response_status rw = Some 200
    \<and> sample_step (w1, (\<lambda>_. Arrived)(0 := Answered rw, 1 := Found claims' j v'))
        (w2, (\<lambda>_. Arrived)(0 := Answered rw, 1 := Answered rw')) \<and> response_status rw' = Some 200"
proof (rule refresh_race [OF encodes_errors_plain])
  show "\<forall>k \<in> {0, 1 :: nat}. (\<lambda>_. Arrived) k = Arrived \<and> \<not> sq_logout same_refresh \<and> unsent (sq_rw same_refresh)
      \<and> status_of (Refresh plain_lib sample_handler
          (at_clock (rs_clock (aw_sessions (world_of user_tables redis_up)) + 3000000000) same_refresh)
          (sq_request same_refresh) (world_of user_tables redis_up) (sq_rw same_refresh)) = Some 200"
    using same_refresh_granted by simp
  show "\<forall>i ttl j ttl'. fst (so_Revoke (ah_sessions sample_handler) i ttl (aw_sessions (world_of user_tables redis_up))) = None \<longrightarrow>
      fst (so_Revoke (ah_sessions sample_handler) j ttl'
        (snd (so_Revoke (ah_sessions sample_handler) i ttl (aw_sessions (world_of user_tables redis_up))))) = None"
    by (simp add: NewSessionStore_def Revoke_def redis_reference_def server_Set_def redis_up_def)
qed simp

text \<open>When the second is checked after the first has been answered, it is refused.\<close>

lemma overlapping_refreshes_witness:
  "\<exists>w1 ph1 w2 ph2 rw rw'. ph1 0 = Answered rw \<and> response_status rw = Some 200 \<and> ph1 1 = Arrived
     \<and> sample_step\<^sup>*\<^sup>* (w1, ph1) (w2, ph2) \<and> ph2 1 = Answered rw' \<and> response_status rw' \<noteq> Some 200"
proof -
  let ?w = "world_of user_tables redis_up" and ?c = "refresh_claims 1000000000"
  let ?p1 = "(\<lambda>_. Arrived)(0 := Checked ?c 7 2)"
  let ?p2 = "?p1(0 := Found ?c 7 sample_user)"
  have s: "sample_step (?w, \<lambda>_. Arrived) (?w, ?p1)" "sample_step (?w, ?p1) (?w, ?p2)"
    by (rule sample_step_check(1) sample_step_find; simp)+
  obtain w1 rw where s3: "sample_step (?w, ?p2) (w1, ?p2(0 := Answered rw))"
    and rw: "response_status rw = Some 200" "aw_sessions w1 = revoked_redis"
    using sample_step_revoke [of ?p2 0 ?w] by auto
  let ?p3 = "?p2(0 := Answered rw)"
  obtain w2 rw' where s4: "sample_step (w1, ?p3) (w2, ?p3(1 := Answered rw'))" and w2: "aw_sessions w2 = revoked_redis"
    using sample_step_check(2) [of ?p3 1 w1] rw(2) by auto
  have before: "sample_step\<^sup>*\<^sup>* (?w, \<lambda>_. Arrived) (?w, ?p2)" 
    by (intro sample_steps [OF s(1)] sample_steps [OF s(2)] rtranclp.rtrancl_refl)
  have after: "sample_step\<^sup>*\<^sup>* (w1, ?p3) (w2, ?p3(1 := Answered rw'))" using s4 by blast
  have redis: "redis_client (lb_uuid plain_lib) redis_reference rs_clock server_moves entry_until (\<lambda>k r. rs_entries r k \<noteq> None)"
    using redis.redis_client_axioms by simp
  have "response_status rw' \<noteq> Some 200"
    by (rule overlapping_refreshes [OF redis encodes_errors_plain _ _ _ before s3 after, where n = 0 and m = 1
          and claims = ?c and i = 7 and rw = rw])
      (use rw(1) sample_presents sample_only_token jwt_laws_plain
        in \<open>simp_all add: sample_remaining sample_revocations w2 millisecond_def\<close>)
  with rw(1) after show ?thesis by (intro exI [of _ w1] exI [of _ ?p3] exI [of _ w2] exI conjI) (assumption | simp)+
qed

subsection \<open>Backends that start together\<close>

text \<open>
  C4. Any number of backends may migrate the same database at once, interleaving statement by statement,
  failing, losing their session or dying anywhere: at most one of them is past the lock, the database is consistent all
  along (its schema is what the recorded files, each once and in full, make of the first), the files
  of one that has succeeded are all recorded, and no file is applied by two of them.
\<close>

lemma concurrent_migrations:
  assumes "consistent exec d0 db0" and "\<forall>n. re_exec (mr_env (mrs n)) = exec"
    and "migrating_steps sha mrs (db0, \<lambda>_. MStarting) (db, ph)"
  shows "consistent exec d0 db
    \<and> (\<forall>n k. holds_lock (ph n) \<and> holds_lock (ph k) \<longrightarrow> k = n)
    \<and> (\<forall>n applied. ph n = MDone (Inr applied) \<longrightarrow>
        (\<exists>ms. loadMigrations sha (mr_fs (mrs n)) = Inr ms \<and> files_recorded db ms))
    \<and> (\<forall>n k a b. n \<noteq> k \<and> ph n = MDone (Inr a) \<and> ph k = MDone (Inr b) \<longrightarrow>
        am_Version ` set a \<inter> am_Version ` set b = {})"
proof -
  note inv = migrating_okD [OF migrating_ok_reached [OF assms(3,1,2)]]
  have "\<exists>ms. loadMigrations sha (mr_fs (mrs n)) = Inr ms \<and> files_recorded db ms"
    if "ph n = MDone (Inr applied)" for n applied
    using inv(4) [of n] that by simp
  moreover have "am_Version ` set a \<inter> am_Version ` set b = {}"
    if "n \<noteq> k" "ph n = MDone (Inr a)" "ph k = MDone (Inr b)" for n k a b
    using inv(6) [OF that(1)] that(2,3) by simp
  ultimately show ?thesis using inv(1,3) by blast
qed

definition sample_migrators :: "nat \<Rightarrow> gostring list migrator" where
  "sample_migrators n = \<lparr>mr_fs = sample_files, mr_env = sample_run\<rparr>"

lemma concurrent_migrations_witness:
  "\<exists>db ph. migrating_steps id sample_migrators (fresh_database, \<lambda>_. MStarting) (db, ph)
     \<and> (\<exists>a b. ph 0 = MDone (Inr a) \<and> length a = 2 \<and> ph 1 = MDone (Inr b)
          \<and> am_Version ` set a \<inter> am_Version ` set b = {}) \<and> consistent (re_exec sample_run) [] db"
proof -
  have sel: "mr_fs (sample_migrators n) = sample_files" "mr_env (sample_migrators n) = sample_run" for n
    by (simp_all add: sample_migrators_def)
  obtain b db where second: "Migrate id sample_run sample_files sample_migrated = (Inr b, db)"
    using Migrate_idempotent [OF sample_migrate, of sample_run] by (simp add: sample_run_def)
  have free: "\<not> db_locked fresh_database" "\<not> db_locked sample_migrated"
    using Migrate_releases_lock [of sample_run fresh_database id sample_files]
    by (simp_all add: sample_migrated_def fresh_database_def sample_run_def)
  let ?a = "[\<lparr>am_Version = ''0001'', am_Filename = ''0001_init.sql'', am_Duration = 1000\<rparr>,
      \<lparr>am_Version = ''0002'', am_Filename = ''0002_users.sql'', am_Duration = 1000\<rparr>]"
  let ?p1 = "(\<lambda>_. MStarting)(0 := MDone (Inr ?a))"
  have first: "migrating_steps id sample_migrators (fresh_database, \<lambda>_. MStarting) (sample_migrated, ?p1)"
    by (rule Migrate_steps) (simp_all only: free sel sample_migrate not_False_eq_True)
  have second_run: "migrating_steps id sample_migrators (sample_migrated, ?p1) (db, ?p1(1 := MDone (Inr b)))"
    by (rule Migrate_steps) (simp_all add: free sel second)
  have both: "migrating_steps id sample_migrators (fresh_database, \<lambda>_. MStarting) (db, ?p1(1 := MDone (Inr b)))"
    by (rule rtranclp_trans [OF first second_run])
  have "\<forall>n. re_exec (mr_env (sample_migrators n)) = re_exec sample_run" by (simp add: sel)
  note facts = concurrent_migrations [OF fresh_consistent this both]
  have "am_Version ` set ?a \<inter> am_Version ` set b = {}"
    by (rule facts [THEN conjunct2, THEN conjunct2, THEN conjunct2, rule_format, of 0 1]) simp
  with both facts [THEN conjunct1] show ?thesis
    by (intro exI [of _ db] exI [of _ "?p1(1 := MDone (Inr b))"] exI [of _ ?a] exI [of _ b] conjI) simp_all
qed


subsection \<open>Registrations that overlap\<close>

text \<open>
  C5. Registrations are serializable. However the statements of any number of registrations interleave,
  and whoever dies on the way, the answers given and the accounts are those of registering the
  answered ones one after the other, each in one piece, in some order that puts those answered by some
  moment before those answered later. So the tables keep their invariant, no address is given to two
  of those who are told of success, and their accounts exist.
\<close>

lemma registrations_serializable:
  assumes "registering_steps ulower (db0, starting gs) (db1, ps1)" and "registering_steps ulower (db1, ps1) (db, ps)"
    and "identity_inv ulower db0" and "\<forall>g \<in> set gs. \<forall>n. rg_uuid g n \<noteq> uuid_nil"
  shows "(\<exists>first later. mset first = mset (answered ps1) \<and> mset (first @ later) = mset (answered ps)
      \<and> register_all ulower (map fst first) db0 = (map snd first, db1)
      \<and> register_all ulower (map fst (first @ later)) db0 = (map snd (first @ later), db))
    \<and> identity_inv ulower db \<and> distinct (map user_Email (concat (map created_users (answered ps))))
    \<and> set (concat (map created_users (answered ps))) \<subseteq> set (ud_users db)"
proof -
  note run = rtranclp_trans [OF assms(1,2)]
  obtain first later where first: "mset first = mset (answered ps1)"
      "register_all ulower (map fst first) db0 = (map snd first, db1)"
    and order: "mset (first @ later) = mset (answered ps)"
      "register_all ulower (map fst (first @ later)) db0 = (map snd (first @ later), db)"
    using serialized_extends [OF assms(1,2)] by blast
  let ?order = "first @ later"
  have "map fst ps = gs" using steps_requests [OF run] by (simp add: starting_requests)
  with answered_requests [of ps] have "fst ` set ?order \<subseteq> set gs"
    by (simp only: mset_eq_setD [OF order(1)])
  then have "\<forall>(g, res) \<in> set ?order. \<forall>n. rg_uuid g n \<noteq> uuid_nil" using assms(4) by force
  note kept = register_all_keeps [OF assms(3) this order(2)]
  have users: "mset (concat (map created_users ?order)) = mset (concat (map created_users (answered ps)))"
    by (rule created_users_mset [OF order(1)])
  have "distinct (map user_Email (concat (map created_users (answered ps))))"
    using kept mset_eq_imp_distinct_iff [OF mset_map_cong [OF users, of user_Email]] by blast
  moreover have "set (concat (map created_users (answered ps))) \<subseteq> set (ud_users db)"
    unfolding mset_eq_setD [OF users, symmetric] using kept by blast
  ultimately show ?thesis using first order kept by blast
qed

definition sample_registering :: "nat \<Rightarrow> registration" where
  "sample_registering k =
     \<lparr>rg_team = ''Core'', rg_user = new_account sample_registration ''$correct horse'',
      rg_uuid = (\<lambda>n. of_nat (2 * k + (if even n then 1 else 2))), rg_now = 5000, rg_fault = (\<lambda>_. None), rg_kept = False\<rparr>"


definition late_team :: Team where
  "late_team = sample_team\<lparr>team_ID := 3\<rparr>"

abbreviation "sample_waiting \<equiv>
  [(sample_registering 0, RUser sample_team sample_user), (sample_registering 1, RTeam late_team)]"

abbreviation "sample_accounts \<equiv> commit_rows sample_team sample_user empty_tables"

lemma sample_registering_sel [simp]:
  "TrimSpace (rg_team (sample_registering k)) = ''Core''"
  "NormalizeEmail id (user_Email (rg_user (sample_registering k))) = ''ann@acme.io''"
  "user_PasswordHash (rg_user (sample_registering k)) = ''$correct horse''"
  "TrimSpace (user_Name (rg_user (sample_registering k))) = ''Ann''"
  "rg_fault (sample_registering k) = (\<lambda>_. None)" "rg_now (sample_registering k) = 5000"
  "rg_uuid (sample_registering k) n = of_nat (2 * k + (if even n then 1 else 2))"
  by (simp_all add: sample_registering_def new_account_def sample_registration_def sample_normal)

text \<open>Both have inserted their teams and the first its user: the second finds the address taken, and waits.\<close>

lemma sample_next:
  "register_next id g others RStarting db = (case rg_fault g AtBegin of None \<Rightarrow> Some (RBegun, db) | Some e \<Rightarrow>
     Some (RDone (Inl (StoreFailure (''starting registration transaction: '' @ e))), db))"
  "register_next id (sample_registering 0) [RBegun] RBegun empty_tables = Some (RTeam sample_team, empty_tables)"
  "register_next id (sample_registering 1) [RTeam sample_team] RBegun empty_tables = Some (RTeam late_team, empty_tables)"
  "register_next id (sample_registering 0) [RTeam late_team] (RTeam sample_team) empty_tables =
     Some (RUser sample_team sample_user, empty_tables)"
  "register_next id (sample_registering 1) [RUser sample_team sample_user] (RTeam late_team) empty_tables = None"
  "register_next id (sample_registering 0) [RTeam late_team] (RUser sample_team sample_user) empty_tables =
     Some (RDone (Inr (sample_team, sample_user)), sample_accounts)"
  "register_next id (sample_registering 1) [RDone (Inr (sample_team, sample_user))] (RTeam late_team) sample_accounts =
     Some (RDone (Inl Conflict), sample_accounts)"
  by (simp_all add: insertTeam_def user_statement_def insertUser_def Let_def sample_user_texts sample_user_checks
      team_waits_def user_waits_def isUniqueViolation_def)
    (simp_all add: sample_team_def sample_user_def late_team_def)


lemmas move_on = relpowp_Suc_I2 [where P = "registering_step id", OF registering_step.moved]

lemma sample_until_waiting:
  "(registering_step id ^^ Suc (Suc (Suc (Suc (Suc 0)))))
     (empty_tables, starting [sample_registering 0, sample_registering 1]) (empty_tables, sample_waiting)"
  unfolding starting_def list.map
  by (rule move_on, rule two_moves(1), (simp add: sample_next(1); fail),
      rule move_on, rule two_moves(2), (simp add: sample_next(1); fail),
      rule move_on, rule two_moves(1) [OF sample_next(2)],
      rule move_on, rule two_moves(2) [OF sample_next(3)],
      rule move_on, rule two_moves(1) [OF sample_next(4)], simp)

lemma registrations_serializable_witness:
  "\<exists>ps. registering_steps id (empty_tables, starting [sample_registering 0, sample_registering 1]) (sample_accounts, ps)
     \<and> map snd ps = [RDone (Inr (sample_team, sample_user)), RDone (Inl Conflict)] \<and> identity_inv id sample_accounts"
proof -
  let ?done = "[(sample_registering 0, RDone (Inr (sample_team, sample_user))), (sample_registering 1, RDone (Inl Conflict))]"
  note before = relpowp_imp_rtranclp [OF sample_until_waiting]
  have after: "registering_steps id (empty_tables, sample_waiting) (sample_accounts, ?done)"
    by (rule converse_rtranclp_into_rtranclp [where r = "registering_step id"], rule registering_step.moved,
        rule two_moves(1) [OF sample_next(6)], rule r_into_rtranclp, rule registering_step.moved,
        rule two_moves(2) [OF sample_next(7)])
  have "\<forall>g \<in> set [sample_registering 0, sample_registering 1]. \<forall>n. rg_uuid g n \<noteq> uuid_nil"
    by simp
  from registrations_serializable [OF before after empty_tables_inv this] rtranclp_trans [OF before after]
  show ?thesis by (intro exI [of _ ?done]) simp
qed

text \<open>
  C23. Overlapping registrations never block each other for good: whatever the server schedules and
  whoever dies, a run has at most four steps for each registration, and as long as one of them has
  neither been answered nor died, some registration's next statement can go through.
\<close>

lemma registrations_finish:
  assumes "(registering_step ulower ^^ k) (db0, starting gs) (db, ps)"
  shows "k \<le> 4 * length gs \<and> ((\<exists>s. registering_move ulower (db, ps) s) \<or> (\<forall>(g, p) \<in> set ps. ended p))"
proof
  show "k \<le> 4 * length gs" using steps_shorten [OF assms] by (simp add: all_left_starting)
  show "(\<exists>s. registering_move ulower (db, ps) s) \<or> (\<forall>(g, p) \<in> set ps. ended p)"
    using someone_moves by blast
qed

lemma registrations_finish_witness:
  "register_next id (sample_registering 1) [RUser sample_team sample_user] (RTeam late_team) empty_tables = None
    \<and> (\<exists>s. registering_move id (empty_tables, sample_waiting) s)"
  using registrations_finish [OF sample_until_waiting] sample_next(5) by simp

end
