(* ===== verification/Main_Process.thy ===== *)
theory Main_Process
  imports Main_Server
begin

text \<open>
  \<open>main\<close> and \<open>newLogger\<close> of \<open>cmd/server/main.go\<close>: the signals that end the context, the exit status,
  and the line on the standard error, with the texts that the errors of the start are wrapped in.
\<close>

subsection \<open>Printing durations\<close>

text \<open>\<open>time.Duration.String\<close>: the fraction loses its trailing zeros, and its point with them.\<close>

definition padded :: "nat \<Rightarrow> nat \<Rightarrow> gostring" where
  "padded n v = (let s = show_nat v in replicate (n - length s) (CHR ''0'') @ s)"

definition fraction_text :: "nat \<Rightarrow> nat \<Rightarrow> gostring" where
  "fraction_text prec v =
     (let ds = rev (dropWhile (\<lambda>c. c = CHR ''0'') (rev (padded prec (v mod 10 ^ prec))))
      in if ds = [] then [] else CHR ''.'' # ds)"

definition Duration_String :: "duration \<Rightarrow> gostring" where
  "Duration_String d =
     (let u = nat \<bar>d\<bar>; secs = u div 1000000000
      in if u = 0 then ''0s''
         else (if d < 0 then ''-'' else [])
           @ (if u < 1000 then show_nat u @ ''ns''
              else if u < 1000000 then show_nat (u div 1000) @ fraction_text 3 u @ [CHR 0xC2, CHR 0xB5, CHR ''s'']
              else if u < 1000000000 then show_nat (u div 1000000) @ fraction_text 6 u @ ''ms''
              else (if 3600 \<le> secs then show_nat (secs div 3600) @ ''h'' else [])
                @ (if 60 \<le> secs then show_nat (secs div 60 mod 60) @ ''m'' else [])
                @ show_nat (secs mod 60) @ fraction_text 9 u @ ''s''))"

subsection \<open>The texts of the errors\<close>

fun dotenv_Error :: "dotenv_error \<Rightarrow> gostring" where
  "dotenv_Error (WorkingDirectory e) = ''determining working directory: '' @ e"
| "dotenv_Error (Resolving dir e) = ''resolving '' @ dir @ '': '' @ e"
| "dotenv_Error (Checking candidate e) = ''checking '' @ candidate @ '': '' @ e"
| "dotenv_Error (Loading path e) = ''loading '' @ path @ '': '' @ e"
| "dotenv_Error ErrNoDotEnv = ''no .env file found''"

fun pool_Error :: "pool_error \<Rightarrow> gostring" where
  "pool_Error InvalidConnectionString = ''parsing FLOWCAST_DATABASE_URL: invalid connection string''"
| "pool_Error (MaxConnsOutOfRange n) =
     ''max conns must be between 1 and '' @ show_int maxPoolSize @ '', got '' @ show_int n"
| "pool_Error (MinConnsOutOfRange mx n) =
     ''min conns must be between 0 and max conns ('' @ show_int mx @ ''), got '' @ show_int n"
| "pool_Error (CreatingPool e) = ''creating database pool: '' @ e"
| "pool_Error (DatabaseNotReachable timeout attempt e) =
     ''database not reachable within '' @ Duration_String timeout @ '' ('' @ show_nat attempt @ '' attempts): '' @ e"

fun redis_connect_Error :: "redis_connect_error \<Rightarrow> gostring" where
  "redis_connect_Error ErrInvalidRedisURL = ''parsing FLOWCAST_REDIS_URL: invalid connection string''"
| "redis_connect_Error (RedisNotReachable timeout attempt e) =
     ''redis not reachable within '' @ Duration_String timeout @ '' ('' @ show_nat attempt @ '' attempts): '' @ e"

fun embedding_Error :: "embedding_error \<Rightarrow> gostring" where
  "embedding_Error (ErrEmbeddingDimensionMismatch got want) =
     ''embedding dimension mismatch: incidents.embedding is vector('' @ show_int got
       @ '') but FLOWCAST_EMBEDDING_DIMENSIONS is '' @ show_int want"
| "embedding_Error EmbeddingNotFound = ''incidents.embedding not found; are database migrations applied?''"
| "embedding_Error (ReadingColumnWidth e) = ''reading embedding column width: '' @ e"

fun migrate_Error :: "(nat \<Rightarrow> bool) \<Rightarrow> migrate_error \<Rightarrow> gostring" where
  "migrate_Error uprint (BadName name) =
     ''migration '' @ go_quote uprint name @ '' must be named NNNN_snake_case.sql''"
| "migrate_Error uprint (DuplicateVersion version other name) =
     ''duplicate migration version '' @ version @ '': '' @ other @ '' and '' @ name"
| "migrate_Error uprint (ReadingMigration name e) = ''reading migration '' @ name @ '': '' @ e"
| "migrate_Error uprint (AcquiringConnection e) = ''acquiring connection for migrations: '' @ e"
| "migrate_Error uprint (AcquiringLock e) = ''acquiring migration lock: '' @ e"
| "migrate_Error uprint (CreatingTable e) = ''creating schema_migrations: '' @ e"
| "migrate_Error uprint (ReadingApplied e) = ''reading applied migrations: '' @ e"
| "migrate_Error uprint (ErrChecksumMismatch name) = ''migration file changed after it was applied: '' @ name"
| "migrate_Error uprint (StartingTransaction name e) = ''starting transaction for migration '' @ name @ '': '' @ e"
| "migrate_Error uprint (ApplyingMigration name e) = ''applying migration '' @ name @ '': '' @ e"
| "migrate_Error uprint (RecordingMigration name e) = ''recording migration '' @ name @ '': '' @ e"
| "migrate_Error uprint (CommittingMigration name e) = ''committing migration '' @ name @ '': '' @ e"

fun serve_Error :: "serve_error \<Rightarrow> gostring" where
  "serve_Error ErrServerClosed = ''http: Server closed''"
| "serve_Error (ServeFailed e) = e"

fun server_Error :: "server_error \<Rightarrow> gostring" where
  "server_Error (ListeningOn addr e) = ''listening on '' @ addr @ '': '' @ e"
| "server_Error (HttpServerError e) = ''http server: '' @ serve_Error e"
| "server_Error (ShutdownExceeded timeout e) = ''graceful shutdown exceeded '' @ Duration_String timeout @ '': '' @ e"

fun main_Error :: "(nat \<Rightarrow> bool) \<Rightarrow> main_error \<Rightarrow> gostring" where
  "main_Error uprint (LoadingDotEnv e) = ''loading .env: '' @ dotenv_Error e"
| "main_Error uprint (InvalidConfig e) = ConfigValidationError_Error uprint e"
| "main_Error uprint (ConnectingDatabase e) = ''connecting to database: '' @ pool_Error e"
| "main_Error uprint (RunningMigrations e) = ''running migrations: '' @ migrate_Error uprint e"
| "main_Error uprint (EmbeddingWidth e) = embedding_Error e"
| "main_Error uprint (ConnectingRedis e) = ''connecting to redis: '' @ redis_connect_Error e"
| "main_Error uprint (ConfiguringHasher e) = ''configuring password hasher: '' @ password_Error e"
| "main_Error uprint (ConfiguringTokens e) = ''configuring tokens: '' @ token_Error e"
| "main_Error uprint (ServingHTTP e) = server_Error e"

subsection \<open>main\<close>

text \<open>The exit status with what was written to the standard error, if the process has ended.\<close>

datatype process = ProcessRunning | ProcessExited int gostring

definition process_main ::
  "(nat \<Rightarrow> bool) \<Rightarrow> 'd surroundings \<Rightarrow> 'd database \<Rightarrow> (process \<times> main_event list) \<times> 'd database" where
  "process_main uprint su db =
     (let ((out, trace), db) = run su db
      in ((case out of
             StillServing \<Rightarrow> ProcessRunning
           | Exited None \<Rightarrow> ProcessExited 0 []
           | Exited (Some err) \<Rightarrow> ProcessExited 1 (''flowcast: '' @ main_Error uprint err @ [CHR 0x0A]), trace), db))"

text \<open>What the handler of a logger writes: the records at its level and above.\<close>

definition newLogger :: "slog_level \<Rightarrow> log_entry list \<Rightarrow> log_entry list" where
  "newLogger level records = filter (\<lambda>e. level \<le> le_Level e) records"

subsection \<open>Signals\<close>

text \<open>
  \<open>signal.NotifyContext\<close>: a registered signal is delivered to the channel of the context, whose
  reader cancels it; the registration lasts until \<open>stop\<close>. A signal that is not registered has its
  default action, which for these ends the process (\<open>None\<close>).
\<close>

datatype os_signal = SIGINT | SIGTERM | SIGHUP

record notify_context =
  nc_registered :: "os_signal list"
  nc_cancelled :: bool

definition NotifyContext :: "os_signal list \<Rightarrow> notify_context" where
  "NotifyContext sigs = \<lparr>nc_registered = sigs, nc_cancelled = False\<rparr>"

definition deliver :: "os_signal \<Rightarrow> notify_context \<Rightarrow> notify_context option" where
  "deliver sig nc = (if sig \<in> set (nc_registered nc) then Some (nc\<lparr>nc_cancelled := True\<rparr>) else None)"

definition stop_notify :: "notify_context \<Rightarrow> notify_context" where
  "stop_notify nc = nc\<lparr>nc_registered := [], nc_cancelled := True\<rparr>"

definition main_context :: notify_context where
  "main_context = NotifyContext [SIGINT, SIGTERM]"

text \<open>The signals that arrive while \<open>run\<close> executes: \<open>stop\<close> is deferred to the end of \<open>main\<close>.\<close>

fun signals_during_run :: "os_signal list \<Rightarrow> notify_context \<Rightarrow> notify_context option" where
  "signals_during_run [] nc = Some nc"
| "signals_during_run (sig # sigs) nc = (case deliver sig nc of None \<Rightarrow> None | Some nc' \<Rightarrow> signals_during_run sigs nc')"

lemma signals_registered:
  "nc_registered nc = [SIGINT, SIGTERM] \<Longrightarrow> set sigs \<subseteq> {SIGINT, SIGTERM} \<Longrightarrow>
     signals_during_run sigs nc = Some (if sigs = [] then nc else nc\<lparr>nc_cancelled := True\<rparr>)"
  by (induction sigs arbitrary: nc) (auto simp: deliver_def)

text \<open>
  However many of the two signals arrive while the program runs, they cancel the context and do
  nothing else; after \<open>stop\<close> the next one ends the process.
\<close>

lemma second_signal_ignored:
  "set sigs \<subseteq> {SIGINT, SIGTERM} \<Longrightarrow>
     (\<exists>nc. signals_during_run sigs main_context = Some nc \<and> nc_registered nc = [SIGINT, SIGTERM]
        \<and> (nc_cancelled nc \<longleftrightarrow> sigs \<noteq> []))"
  by (auto simp: main_context_def NotifyContext_def signals_registered)

lemma signal_after_stop: "deliver sig (stop_notify nc) = None"
  by (simp add: deliver_def stop_notify_def)

subsection \<open>How the process ends\<close>

text \<open>
  The exit status is 0 or 1, and 0 says that \<open>run\<close> returned no error; then nothing was written to the
  standard error. All clients are closed by then.
\<close>

lemma process_main_exit:
  assumes "process_main uprint su db = ((ProcessExited status text, trace), db')"
  shows "still_open trace [] = Some []"
    and "status = 0 \<and> text = [] \<and> run su db = ((Exited None, trace), db')
      \<or> status = 1 \<and> (\<exists>err. run su db = ((Exited (Some err), trace), db')
          \<and> text = ''flowcast: '' @ main_Error uprint err @ [CHR 0x0A])"
proof -
  obtain out tr d where run: "run su db = ((out, tr), d)" by (metis surj_pair)
  show "status = 0 \<and> text = [] \<and> run su db = ((Exited None, trace), db')
      \<or> status = 1 \<and> (\<exists>err. run su db = ((Exited (Some err), trace), db')
          \<and> text = ''flowcast: '' @ main_Error uprint err @ [CHR 0x0A])"
    using assms by (auto simp: process_main_def run split: exit.splits option.splits)
  have "still_open (snd (fst (run su db))) [] =
      Some (if fst (fst (run su db)) = StillServing then [RedisEvent ClientOpened, PoolEvent ClientOpened] else [])"
    by (cases rule: run_cases [of su db]) (simp_all add: run_configured_open)
  moreover have "out \<noteq> StillServing" "tr = trace"
    using assms by (auto simp: process_main_def run split: exit.splits)
  ultimately show "still_open trace [] = Some []" by (simp add: run)
qed

text \<open>A connection string that does not parse is in the message as it stands, with its password.\<close>

lemma config_message_shows_password:
  "checkURLScheme ''postgres://flow:s3cret@db:port/app'' [''postgres'', ''postgresql''] =
     Some [Txt ''must be a valid URL: parse '', Quoted ''postgres://flow:s3cret@db:port/app'', Txt '': '',
       Txt ''invalid port '', Quoted '':port'', Txt '' after host'']"
  by code_simp

text \<open>Some durations as the messages show them.\<close>

lemma Duration_String_examples:
  "Duration_String 0 = ''0s''" "Duration_String (15 * 1000000000) = ''15s''"
  "Duration_String (90 * 1000000000) = ''1m30s''" "Duration_String (3600 * 1000000000) = ''1h0m0s''"
  "Duration_String 1500000000 = ''1.5s''" "Duration_String 2500000 = ''2.5ms''" "Duration_String (- 7) = ''-7ns''"
  by code_simp+

end
