(* ===== verification/Spec2Isabelle.thy ===== *)
theory Spec2Isabelle
  imports Model_Properties Incident_Properties Account_Properties Startup_Properties HTTP_Properties
    Concurrency_Properties Main_Process
begin

text \<open>
  FlowCast is a backend, in Go, that collects the incidents of software teams. This development models
  the program under \<open>src/backend\<close>: the configuration and the start of the process, the migrations of
  the database, the domain types with their validation, the repositories of accounts and incidents,
  authentication with access and refresh tokens, and the HTTP server with its middleware and handlers.

  The program and the theories.
  \<^item> \<open>GoPrelude\<close>, \<open>GoStrings\<close>, \<open>GoStrconv\<close>, \<open>GoTime\<close>, \<open>GoURL\<close> and the first half of \<open>HTTP_Writer\<close>: what
    the program uses of the language and its standard library. A Go string is its list of bytes; UTF-8
    decoding, trimming, printing and parsing numbers and durations, and parsing URLs are written out.
    An \<open>int\<close> is an integer that the parsers keep within 64 bits; where the code narrows one, to the 32
    bits of a pool size, the model does too. A \<open>(T, error)\<close> is a value of \<open>error + T\<close>, an
    \<open>error\<close> alone an option. \<open>GoPrelude\<close> also holds the collections of facts that the proofs share, and
    the stable insertion sort of \<open>models/sort.go\<close>.
  \<^item> \<open>Models_Base\<close>, \<open>Models_Incident\<close>, \<open>Models_Analysis\<close>, \<open>Models_Identity\<close>, \<open>Models_Simulation\<close>:
    \<open>internal/models\<close>. The enumerations, the accumulating validator and the \<open>Validate\<close> method of each
    type, the order of events and of hypotheses. \<open>Model_Properties\<close> says which fields each \<open>Validate\<close>
    reports and that sorting gives one order.
  \<^item> \<open>Config_Reader\<close>, \<open>Config\<close>, \<open>Config_Logging\<close>, \<open>Config_DotEnv\<close>: \<open>internal/config\<close>. \<open>Load\<close> reads
    and validates the environment and collects every fault; \<open>LogValue\<close> is what is logged of it;
    \<open>LoadDotEnv\<close> walks up the directories to a \<open>.env\<close> file.
  \<^item> \<open>Startup_Services\<close> and \<open>DB_Migrate\<close>: \<open>internal/db\<close> and \<open>internal/queue/redis.go\<close>. The pool
    settings, the loop that waits for a service (one definition for the same loop of both clients, whose
    pings and clock are arguments), the width of the embedding column, and the migrations.
  \<^item> \<open>Auth_Password\<close>, \<open>Auth_Token\<close>: \<open>internal/auth\<close>. \<open>Queue_Sessions\<close>: the revocation store of
    \<open>internal/queue/sessions.go\<close>.
  \<^item> \<open>Repository_User\<close>, \<open>SQL_Incidents\<close>, \<open>Repository_Incident\<close>: \<open>internal/repository\<close>, over the tables
    of the migrations. A table is the list of its rows with the constraints of the migrations; a statement
    either fails, leaving the tables as they are, or gives its row and the new tables; the two statements
    that the code puts together at run time are put together here, placeholder by placeholder.
  \<^item> \<open>API\<close>, \<open>HTTP_Writer\<close>, \<open>Middleware\<close>: \<open>internal/api\<close> and \<open>internal/middleware\<close>. A handler maps a
    request, a world and a response writer to an outcome, which is a return or a panic.
  \<^item> \<open>Handlers_Auth\<close>, \<open>Handlers_Health\<close>, \<open>Handlers_Router\<close>: \<open>internal/handlers\<close>.
  \<^item> \<open>Server\<close>: \<open>internal/server\<close>, a state machine whose events are the end of the context, the return of
    \<open>Serve\<close> and the branches of its \<open>select\<close>; \<open>Main_Server\<close>: \<open>run\<close> of \<open>cmd/server/main.go\<close>, which
    composes the rest and records what it opens, serves and releases; \<open>Main_Process\<close>: \<open>main\<close>, with its
    signals, its exit status and the message it prints.
  \<^item> \<open>SQL_Rows\<close>: the columns that the queries of \<open>internal/repository\<close> name and the destinations that
    \<open>Scan\<close> fills, position by position; it justifies that the repositories here return rows.
  \<^item> \<open>Refresh_Interleaved\<close>, \<open>Migrate_Interleaved\<close> and \<open>Registration_Interleaved\<close>: \<open>Refresh\<close>, \<open>Migrate\<close>
    and \<open>CreateTeamWithOwner\<close> cut at their calls to the outside, each shown to be its pieces in a row, and
    step relations that interleave any number of them.

  The interfaces. Where the code has an interface, or relies on a library across it, there is a
  locale: \<open>session_store\<close> (\<open>Session_Interface\<close>: \<open>Revoke\<close> and \<open>IsRevoked\<close> of the handlers'
  \<open>SessionStore\<close>), \<open>user_store\<close> (\<open>User_Interface\<close>: their \<open>UserStore\<close>) and \<open>redis_client\<close>
  (\<open>Queue_Sessions\<close>: what a Redis client promises). \<open>redis_client\<close> is a sublocale of \<open>session_store\<close>, by
  the program's own store; \<open>user_store\<close> is interpreted by the program's repository for every case table,
  and \<open>redis_client\<close> by a Redis server with expiring keys. \<open>Session_Safety\<close> proves what the handlers
  guarantee inside these locales.

  Parameters. The packages that the program calls are not modelled but arguments: \<open>golang-jwt\<close>
  (\<open>jwt_laws\<close>), \<open>bcrypt\<close> (\<open>bcrypt_laws\<close>), \<open>google/uuid\<close> (\<open>uuid_laws\<close>), \<open>chi\<close> (\<open>chi_laws\<close>) and its
  CORS handler (\<open>cors_laws\<close>, and \<open>cors_header_laws\<close> where the body matters), the JSON encoder (\<open>encodes_errors\<close>: an error body always encodes) and
  decoder, \<open>godotenv\<close>, the connection string parsers of \<open>pgx\<close> and \<open>go-redis\<close>, SHA-256 and the execution
  of a migration file. The laws state documented behaviour; \<open>Instances\<close> has an instance that keeps each
  of them, on which the examples run (a theorem with hypotheses has an example, named after it with
  \<open>_witness\<close>). Randomness, the clock and the failures of the outside are arguments as well: the ids
  and salts a request draws, an instant for each reading of the clock, an error for each statement that
  a connection can lose, and whether a commit whose acknowledgement is lost took place.

  The theorems. \<open>Incident_Properties\<close>: the table of incidents keeps its invariant under any requests and
  failures, no team sees or changes what is another's, what is created is read back, a page is a window
  on the matching rows and the pages together cover them, an update changes what the patch names.
  \<open>Account_Properties\<close>: registration is atomic, an address has one account, who registered can log in, a
  failing login does not tell why, a refresh token is good once and not at all after logout, tokens
  verify as what they were issued, passwords as what was hashed. \<open>Startup_Properties\<close>: \<open>Load\<close> accepts
  exactly the valid environments and names every fault, secrets and the passwords of connection strings
  are not logged, migrations leave the database consistent, run every file that is not recorded and are
  idempotent, waiting ends with the first answer or at its deadline, the program serves only when all
  before succeeded, with the configuration that was loaded, and releases what it opened. \<open>Concurrency_Properties\<close>: once a refresh is granted no later one
  with its cookie is, however requests overlap (but for two that are both past the check before
  either revokes: \<open>refresh_race\<close> says that those are both granted), backends that migrate at once do it as one, and registrations that overlap are serializable
  and always finish. \<open>HTTP_Properties\<close>: panics are contained and answered, but for the one that
  drops a connection, what no route takes is answered in JSON, protected handlers need a token, health reports every probe, the server stops in order.
  \<open>Incident_Runs\<close> and the component theories hold the lemmas behind them.

  Bounds. No definition has fuel: the loops of the code are structural recursions or have a measure
  (\<open>trim_left\<close> and \<open>runes_from\<close>: the bytes left; \<open>ready_loop\<close>: the time to the deadline, of which each
  round takes at least the retry interval). The search for a \<open>.env\<close> file looks at six directories, as
  the code does. \<open>server_after\<close> consumes a finite list of events; \<open>server_run\<close> is a relation without a
  bound, and a life of the server is shown to have at most five steps.

  Concurrency. A statement of the database or a command of Redis is atomic. Refreshes and logouts
  interleave between their calls to the stores; migrating instances and registrations between their
  statements, with processes that die and, for migrations, sessions that are lost. There the rules of PostgreSQL at \<open>READ COMMITTED\<close> are written
  out: a session's advisory lock is freed with the session; a statement sees what is committed and what
  its own transaction wrote, and waits for a transaction that has written a row with its unique key.
  The other handlers make one call that changes something, of one statement, so for them the order of
  those calls is the order of the requests. The goroutines of the health endpoint are modelled by the order in which they finish.

  Not modelled. The JSON text that the log handler writes (records are kept as level, message and
  attributes), the JSON tags of types that no handler encodes yet, \<open>migrations/embed.go\<close> (the embedding
  directive; the files are an argument), \<open>internal/depsref\<close> (blank imports), the packages \<open>ai\<close>,
  \<open>correlation\<close>, \<open>evaluation\<close>, \<open>integrations\<close>, \<open>simulation\<close> and \<open>workers\<close>, which hold a package
  comment and no code yet; the tests, the frontend, the simulator and the container files.
\<close>

end
